theory Spec2Isabelle
  imports Complex_Main "HOL-Library.AList" "HOL-Library.Char_ord" "HOL-Library.List_Lexorder"
    "HOL-Library.Log_Nat"
begin

section \<open>Python values\<close>

text \<open>
  Exceptions are values: every \<^verbatim>\<open>raise\<close> of the source is an \<open>Inl\<close> of the class raised.
  The message text is not modelled.
\<close>

datatype error = KeyError | ValueError | RuntimeError | FileNotFoundError
  | AttributeError | TypeError | IndexError | OverflowError | OSError

text \<open>
  A Python float is an IEEE 754 double: a finite value, an infinity or NaN. \<open>Fin q\<close>
  stands for the double nearest to \<open>q\<close>, which is \<open>q\<close> itself when \<open>q\<close> is a double.
  A conversion to float and an arithmetic operation read a finite argument as that
  double and round the exact result to the nearest double, a tie to the even mantissa,
  and to an infinity beyond the largest double; so every float that the program makes
  is a double. The sign of a zero is not modelled.
\<close>

datatype pyfloat = Fin rat | PosInf | NegInf | NaN

subsection \<open>Floats\<close>

text \<open>\<^verbatim>\<open>round(x)\<close> of a finite value: to the nearest integer, a tie to the even one.\<close>

definition py_round :: "rat \<Rightarrow> int" where
  "py_round x =
     (let f = \<lfloor>x\<rfloor>; d = x - of_int f
      in if d < 1 / 2 then f else if 1 / 2 < d then f + 1 else if even f then f else f + 1)"

text \<open>
  Rounding to a double. For a positive \<open>x\<close>, \<open>fexp x\<close> is the binary exponent of \<open>x\<close>,
  the \<open>e\<close> with \<open>2 powi e \<le> x < 2 powi (e + 1)\<close>, found from the bit lengths of the
  numerator and the denominator. The doubles around \<open>x\<close> are the multiples of
  \<open>quantum x\<close>, 52 binary places below the exponent, which is taken as -1022 for a
  smaller one (the subnormal doubles); \<open>dbl x\<close> is the nearest multiple, a tie to the
  even one. A rounded value with an exponent of 1024 or more is an infinity.
\<close>

definition fexp :: "rat \<Rightarrow> int" where
  "fexp x =
     (case quotient_of x of
        (p, q) \<Rightarrow>
          (let e0 = bitlen p - bitlen q in if 2 powi e0 \<le> x then e0 else e0 - 1))"

definition quantum :: "rat \<Rightarrow> rat" where
  "quantum x = 2 powi (max (fexp \<bar>x\<bar>) (- 1022) - 52)"

definition dbl :: "rat \<Rightarrow> rat" where
  "dbl x = (if x = 0 then 0 else of_int (py_round (x / quantum x)) * quantum x)"

definition to_float :: "rat \<Rightarrow> pyfloat" where
  "to_float x =
     (let y = dbl x
      in if y \<noteq> 0 \<and> 1024 \<le> fexp \<bar>y\<bar> then (if 0 < y then PosInf else NegInf) else Fin y)"

fun as_double :: "pyfloat \<Rightarrow> pyfloat" where
  "as_double (Fin a) = to_float a"
| "as_double f = f"

text \<open>The comparisons \<^verbatim>\<open><\<close> and \<^verbatim>\<open><=\<close> of two floats.\<close>

fun pf_less :: "pyfloat \<Rightarrow> pyfloat \<Rightarrow> bool" where
  "pf_less (Fin a) (Fin b) = (a < b)"
| "pf_less (Fin a) PosInf = True"
| "pf_less NegInf (Fin b) = True"
| "pf_less NegInf PosInf = True"
| "pf_less _ _ = False"

definition pf_le :: "pyfloat \<Rightarrow> pyfloat \<Rightarrow> bool" where
  "pf_le a b = (pf_less a b \<or> (a = b \<and> a \<noteq> NaN))"

fun pf_sgn :: "pyfloat \<Rightarrow> int" where
  "pf_sgn (Fin a) = (if a < 0 then - 1 else if a = 0 then 0 else 1)"
| "pf_sgn PosInf = 1"
| "pf_sgn NegInf = - 1"
| "pf_sgn NaN = 0"

text \<open>The product, the difference and the quotient of two floats, and \<^verbatim>\<open>abs\<close>.\<close>

definition pf_mul :: "pyfloat \<Rightarrow> pyfloat \<Rightarrow> pyfloat" where
  "pf_mul x y =
     (case (as_double x, as_double y) of
        (Fin a, Fin b) \<Rightarrow> to_float (a * b)
      | (u, v) \<Rightarrow>
          if u = NaN \<or> v = NaN \<or> pf_sgn u * pf_sgn v = 0 then NaN
          else if 0 < pf_sgn u * pf_sgn v then PosInf else NegInf)"

definition pf_sub :: "pyfloat \<Rightarrow> pyfloat \<Rightarrow> pyfloat" where
  "pf_sub x y =
     (case (as_double x, as_double y) of
        (Fin a, Fin b) \<Rightarrow> to_float (a - b)
      | (u, v) \<Rightarrow>
          if u = NaN \<or> v = NaN \<or> u = v then NaN
          else if u = PosInf \<or> v = NegInf then PosInf else NegInf)"

definition pf_abs :: "pyfloat \<Rightarrow> pyfloat" where
  "pf_abs x = (case as_double x of Fin a \<Rightarrow> Fin \<bar>a\<bar> | NaN \<Rightarrow> NaN | _ \<Rightarrow> PosInf)"

text \<open>
  \<^verbatim>\<open>float(i)\<close> of an integer, which raises OverflowError beyond the doubles, and the
  product \<^verbatim>\<open>x * i\<close> of a float and an integer, which converts the integer first.
\<close>

definition float_of_int :: "int \<Rightarrow> error + pyfloat" where
  "float_of_int i = (case to_float (of_int i) of Fin a \<Rightarrow> Inr (Fin a) | _ \<Rightarrow> Inl OverflowError)"

definition pf_mul_int :: "pyfloat \<Rightarrow> int \<Rightarrow> error + pyfloat" where
  "pf_mul_int x i = (case float_of_int i of Inl e \<Rightarrow> Inl e | Inr y \<Rightarrow> Inr (pf_mul x y))"

text \<open>\<^verbatim>\<open>int(round(x))\<close>: NaN raises ValueError, an infinity OverflowError.\<close>

definition int_round :: "pyfloat \<Rightarrow> error + int" where
  "int_round x =
     (case as_double x of
        Fin a \<Rightarrow> Inr (py_round a)
      | NaN \<Rightarrow> Inl ValueError
      | _ \<Rightarrow> Inl OverflowError)"

text \<open>
  \<^verbatim>\<open>round(x, nd)\<close> of Python rounds the exact decimal expansion of the double, a tie to
  the even digit, and returns the double nearest to the result. \<^verbatim>\<open>np.round(x, nd)\<close>
  multiplies by \<open>10 ^ nd\<close>, rounds to an integer and divides, each in doubles.
\<close>

definition pf_round :: "nat \<Rightarrow> pyfloat \<Rightarrow> pyfloat" where
  "pf_round nd x =
     (case as_double x of
        Fin a \<Rightarrow> to_float (of_int (py_round (a * 10 ^ nd)) / 10 ^ nd)
      | f \<Rightarrow> f)"

definition np_round :: "nat \<Rightarrow> pyfloat \<Rightarrow> pyfloat" where
  "np_round nd x =
     (case pf_mul x (Fin (10 ^ nd)) of
        Fin b \<Rightarrow> to_float (of_int (py_round b) / 10 ^ nd)
      | f \<Rightarrow> f)"

text \<open>\<^verbatim>\<open>int(x)\<close> of a finite float truncates toward zero.\<close>

definition trunc :: "rat \<Rightarrow> int" where
  "trunc a = (if 0 \<le> a then \<lfloor>a\<rfloor> else \<lceil>a\<rceil>)"

text \<open>
  The quotient \<^verbatim>\<open>float(a) / b\<close> of two counts, \<open>b\<close> not zero. The counts are lengths of
  arrays in memory, below \<open>2 ^ 63\<close>, where the conversions do not overflow.
\<close>

definition count_ratio :: "nat \<Rightarrow> nat \<Rightarrow> pyfloat" where
  "count_ratio a b = to_float (dbl (of_nat a) / dbl (of_nat b))"

text \<open>
  A loaded YAML or JSON document. A mapping is an association list in insertion
  order with string keys; lookups take the first binding of a key.
\<close>

datatype yaml = YNone | YBool bool | YInt int | YFloat pyfloat | YStr string
  | YList "yaml list" | YDict "(string \<times> yaml) list"

definition dict_has :: "(string \<times> yaml) list \<Rightarrow> string \<Rightarrow> bool" where
  "dict_has d k = (map_of d k \<noteq> None)"

definition dict_get :: "(string \<times> yaml) list \<Rightarrow> string \<Rightarrow> yaml" where
  "dict_get d k = (case map_of d k of None \<Rightarrow> YNone | Some v \<Rightarrow> v)"

fun truthy :: "yaml \<Rightarrow> bool" where
  "truthy YNone = False"
| "truthy (YBool b) = b"
| "truthy (YInt i) = (i \<noteq> 0)"
| "truthy (YFloat f) = (as_double f \<noteq> Fin 0)"
| "truthy (YStr s) = (s \<noteq> [])"
| "truthy (YList xs) = (xs \<noteq> [])"
| "truthy (YDict d) = (d \<noteq> [])"

text \<open>
  Python's \<^verbatim>\<open>==\<close> on documents: numbers (booleans among them) compare by value, NaN
  equals nothing, mappings compare without regard to key order.
\<close>

fun num_val :: "yaml \<Rightarrow> pyfloat option" where
  "num_val (YBool b) = Some (Fin (if b then 1 else 0))"
| "num_val (YInt i) = Some (Fin (of_int i))"
| "num_val (YFloat f) = Some (as_double f)"
| "num_val _ = None"

definition scalar_eq :: "yaml \<Rightarrow> yaml \<Rightarrow> bool" where
  "scalar_eq a b =
     (case (num_val a, num_val b) of
        (Some x, Some y) \<Rightarrow> x = y \<and> x \<noteq> NaN
      | (None, None) \<Rightarrow> a = b
      | _ \<Rightarrow> False)"

fun py_eq :: "yaml \<Rightarrow> yaml \<Rightarrow> bool"
  and py_eq_list :: "yaml list \<Rightarrow> yaml list \<Rightarrow> bool"
  and py_eq_dict :: "(string \<times> yaml) list \<Rightarrow> (string \<times> yaml) list \<Rightarrow> bool" where
  "py_eq (YList xs) b = (case b of YList ys \<Rightarrow> py_eq_list xs ys | _ \<Rightarrow> False)"
| "py_eq (YDict kvs) b =
     (case b of YDict kws \<Rightarrow> length kvs = length kws \<and> py_eq_dict kvs kws | _ \<Rightarrow> False)"
| "py_eq a b = scalar_eq a b"
| "py_eq_list [] ys = (ys = [])"
| "py_eq_list (x # xs) ys =
     (case ys of [] \<Rightarrow> False | y # ys' \<Rightarrow> py_eq x y \<and> py_eq_list xs ys')"
| "py_eq_dict [] kws = True"
| "py_eq_dict ((k, v) # kvs) kws =
     ((case map_of kws k of None \<Rightarrow> False | Some w \<Rightarrow> py_eq v w) \<and> py_eq_dict kvs kws)"

subsection \<open>Strings\<close>

text \<open>
  A string is its UTF-8 bytes. \<^verbatim>\<open>str.lower\<close> is modelled on the ASCII letters; the
  names the generator compares a lowered name with are ASCII and contain no \<open>k\<close>, the
  only ASCII letter that a non-ASCII character lowers to.
\<close>

definition lower_char :: "char \<Rightarrow> char" where
  "lower_char c = (let n = (of_char c :: nat) in if 65 \<le> n \<and> n \<le> 90 then char_of (n + 32) else c)"

definition lower :: "string \<Rightarrow> string" where
  "lower s = map lower_char s"

definition endswith :: "string \<Rightarrow> string \<Rightarrow> bool" where
  "endswith s suf = (length suf \<le> length s \<and> drop (length s - length suf) s = suf)"

definition digit :: "nat \<Rightarrow> char" where
  "digit d = ''0123456789'' ! d"

fun str_nat :: "nat \<Rightarrow> string" where
  "str_nat n = (if n < 10 then [digit n] else str_nat (n div 10) @ [digit (n mod 10)])"

text \<open>The format \<^verbatim>\<open>{v:02d}\<close>, for a natural number.\<close>

definition fmt02 :: "nat \<Rightarrow> string" where
  "fmt02 v = (if v < 10 then CHR ''0'' # str_nat v else str_nat v)"

text \<open>\<^verbatim>\<open>int.from_bytes(bs, byteorder="big", signed=False)\<close>.\<close>

definition from_bytes_big :: "nat list \<Rightarrow> nat" where
  "from_bytes_big bs = foldl (\<lambda>a b. a * 256 + b) 0 bs"

section \<open>Libraries the engine calls\<close>

text \<open>
  The standard-library functions whose results the engine only passes on are
  parameters: SHA-256, the path functions, and the parsing of a string by
  \<^verbatim>\<open>int()\<close> and \<^verbatim>\<open>float()\<close>.
\<close>

record pylib =
  hashlib_sha256 :: "string \<Rightarrow> nat list"
  os_path_basename :: "string \<Rightarrow> string"
  os_path_normpath :: "string \<Rightarrow> string"
  int_of_str :: "string \<Rightarrow> int option"
  float_of_str :: "string \<Rightarrow> pyfloat option"

text \<open>
  \<^verbatim>\<open>numpy.random.RandomState\<close>: a generator state of type \<open>'rs\<close>, made from a seed;
  every draw returns the values and the advanced state. \<open>rs_randint rs m size\<close> draws
  \<open>size\<close> indices below \<open>m\<close> (the draw behind \<^verbatim>\<open>choice\<close>).
\<close>

record 'rs numpy =
  np_RandomState :: "nat \<Rightarrow> 'rs"
  rs_randint :: "'rs \<Rightarrow> nat \<Rightarrow> nat \<Rightarrow> nat list \<times> 'rs"
  rs_uniform :: "'rs \<Rightarrow> rat \<Rightarrow> rat \<Rightarrow> nat \<Rightarrow> pyfloat list \<times> 'rs"
  rs_permutation :: "'rs \<Rightarrow> nat \<Rightarrow> nat list \<times> 'rs"

text \<open>\<^verbatim>\<open>int(v)\<close> and \<^verbatim>\<open>float(v)\<close> of a loaded value.\<close>

fun py_int :: "pylib \<Rightarrow> yaml \<Rightarrow> error + int" where
  "py_int L (YBool b) = Inr (if b then 1 else 0)"
| "py_int L (YInt i) = Inr i"
| "py_int L (YFloat f) =
     (case as_double f of
        Fin a \<Rightarrow> Inr (trunc a)
      | NaN \<Rightarrow> Inl ValueError
      | _ \<Rightarrow> Inl OverflowError)"
| "py_int L (YStr s) = (case int_of_str L s of None \<Rightarrow> Inl ValueError | Some i \<Rightarrow> Inr i)"
| "py_int L _ = Inl TypeError"

fun py_float :: "pylib \<Rightarrow> yaml \<Rightarrow> error + pyfloat" where
  "py_float L (YBool b) = Inr (Fin (if b then 1 else 0))"
| "py_float L (YInt i) = float_of_int i"
| "py_float L (YFloat f) = Inr (as_double f)"
| "py_float L (YStr s) =
     (case float_of_str L s of None \<Rightarrow> Inl ValueError | Some f \<Rightarrow> Inr (as_double f))"
| "py_float L _ = Inl TypeError"

section \<open>Arrays and tables\<close>

datatype dtype = Int8 | Int64 | Float64 | Unicode | Object

datatype cell = CInt int | CFloat pyfloat | CStr string | CNone

datatype ndarray = NdArray (dtype: dtype) (cells: "cell list")

text \<open>\<^verbatim>\<open>arr.dtype.kind in ("f", "i", "u")\<close>.\<close>

fun numeric_kind :: "dtype \<Rightarrow> bool" where
  "numeric_kind Int8 = True"
| "numeric_kind Int64 = True"
| "numeric_kind Float64 = True"
| "numeric_kind _ = False"

text \<open>\<^verbatim>\<open>astype(float)\<close> of a cell; an integer of an array is below \<open>2 ^ 63\<close>.\<close>

fun cell_to_float :: "cell \<Rightarrow> cell" where
  "cell_to_float (CInt i) = CFloat (to_float (of_int i))"
| "cell_to_float c = c"

definition astype_float :: "ndarray \<Rightarrow> ndarray" where
  "astype_float arr = NdArray Float64 (map cell_to_float (cells arr))"

definition astype_object :: "ndarray \<Rightarrow> ndarray" where
  "astype_object arr = NdArray Object (cells arr)"

text \<open>\<^verbatim>\<open>arr[idx] = v\<close> for a list of indices; an index out of range raises.\<close>

definition set_items :: "ndarray \<Rightarrow> nat list \<Rightarrow> cell \<Rightarrow> error + ndarray" where
  "set_items arr idx v =
     (if list_all (\<lambda>i. i < length (cells arr)) idx
      then Inr (NdArray (dtype arr) (fold (\<lambda>i cs. cs[i := v]) idx (cells arr)))
      else Inl IndexError)"

datatype dataframe = DataFrame (df_rows: nat) (df_columns: "(string \<times> ndarray) list")

text \<open>
  The contents of one run directory: file name to node. A file holds a JSON document
  (as the document \<^verbatim>\<open>json.load\<close> returns; the text layout is not modelled), a
  table (the frame a reader returns for it), or bytes that are neither. Failures of
  the storage itself (permissions, a full disk) are not modelled.
\<close>

datatype content = Json yaml | Tabular dataframe | Raw string

datatype node = File content | Dir

type_synonym directory = "string \<Rightarrow> node option"

definition exists_path :: "directory \<Rightarrow> string \<Rightarrow> bool" where
  "exists_path d p = (d p \<noteq> None)"

fun is_file_node :: "node option \<Rightarrow> bool" where
  "is_file_node (Some (File c)) = True"
| "is_file_node _ = False"

definition is_file :: "directory \<Rightarrow> string \<Rightarrow> bool" where
  "is_file d p = is_file_node (d p)"

section \<open>Schema and configuration resolver (engine/generate.py)\<close>

fun require_keys :: "(string \<times> yaml) list \<Rightarrow> string list \<Rightarrow> error + unit" where
  "require_keys configs [] = Inr ()"
| "require_keys configs (key # keys) =
     (if \<not> dict_has configs key \<or> dict_get configs key = YNone then Inl KeyError
      else require_keys configs keys)"

definition require_configs :: "(string \<times> yaml) list \<Rightarrow> error + unit" where
  "require_configs configs =
     require_keys configs [''dataset.yaml'', ''schema.yaml'', ''evolution.yaml'']"

text \<open>The legacy list form: a name, or a mapping with a \<open>name\<close> entry (of any value).\<close>

fun column_names :: "yaml list \<Rightarrow> error + yaml list" where
  "column_names [] = Inr []"
| "column_names (c # cs) =
     (case (case c of
              YStr s \<Rightarrow> Inr (YStr s)
            | YDict m \<Rightarrow> if dict_has m ''name'' then Inr (dict_get m ''name'') else Inl ValueError
            | _ \<Rightarrow> Inl ValueError) of
        Inl e \<Rightarrow> Inl e
      | Inr n \<Rightarrow> (case column_names cs of Inl e \<Rightarrow> Inl e | Inr ns \<Rightarrow> Inr (n # ns)))"

definition extract_columns :: "yaml \<Rightarrow> error + yaml list" where
  "extract_columns schema_cfg =
     (case schema_cfg of
        YDict sc \<Rightarrow>
          if \<not> dict_has sc ''columns'' then Inl KeyError
          else (case dict_get sc ''columns'' of
                  YDict cols \<Rightarrow>
                    (let names = sort (map fst cols)
                     in if names = [] then Inl ValueError else Inr (map YStr names))
                | YList cols \<Rightarrow>
                    (case column_names cols of
                       Inl e \<Rightarrow> Inl e
                     | Inr names \<Rightarrow> if names = [] then Inl ValueError else Inr names)
                | _ \<Rightarrow> Inl ValueError)
      | _ \<Rightarrow> Inl KeyError)"

definition extract_row_count :: "pylib \<Rightarrow> yaml \<Rightarrow> error + int" where
  "extract_row_count L dataset_cfg =
     (case dataset_cfg of
        YDict dc \<Rightarrow>
          (let rc0 = dict_get dc ''row_count'';
               rc = (if rc0 = YNone then dict_get dc ''rows'' else rc0)
           in if rc = YNone then Inl KeyError
              else (case py_int L rc of
                      Inl e \<Rightarrow> Inl ValueError
                    | Inr rc_int \<Rightarrow> if rc_int \<le> 0 then Inl ValueError else Inr rc_int))
      | _ \<Rightarrow> Inl KeyError)"

record evolution =
  fraud_rate :: "pyfloat option"
  missingness :: "(string \<times> yaml) list"

text \<open>The raw fraud rate: the \<^verbatim>\<open>if\<close>/\<^verbatim>\<open>elif\<close>/\<^verbatim>\<open>else\<close> of lines 72 to 82.\<close>

definition raw_fraud_rate :: "(string \<times> yaml) list \<Rightarrow> yaml" where
  "raw_fraud_rate ec =
     (if dict_has ec ''weekly_changes''
         \<and> (case dict_get ec ''weekly_changes'' of YList ws \<Rightarrow> ws \<noteq> [] | _ \<Rightarrow> False)
      then (case dict_get ec ''weekly_changes'' of
              YList (YDict first_week # ws) \<Rightarrow>
                if dict_has first_week ''fraud_rate'' then dict_get first_week ''fraud_rate''
                else YNone
            | _ \<Rightarrow> YNone)
      else if dict_has ec ''fraud_rate'' then dict_get ec ''fraud_rate''
      else (case dict_get ec ''fraud'' of YDict fr \<Rightarrow> dict_get fr ''rate'' | _ \<Rightarrow> YNone))"

text \<open>Lines 83 to 89: the conversion and the range check of a rate that is not None.\<close>

definition check_fraud_rate :: "pylib \<Rightarrow> yaml \<Rightarrow> error + pyfloat option" where
  "check_fraud_rate L fr =
     (if fr = YNone then Inr None
      else (case py_float L fr of
              Inl e \<Rightarrow> Inl ValueError
            | Inr f \<Rightarrow>
                if pf_less f (Fin 0) \<or> pf_less (Fin 1) f then Inl ValueError
                else Inr (Some f)))"

fun check_ratios :: "pylib \<Rightarrow> (string \<times> yaml) list \<Rightarrow> error + unit" where
  "check_ratios L [] = Inr ()"
| "check_ratios L ((k, v) # kvs) =
     (case py_float L v of
        Inl e \<Rightarrow> Inl ValueError
      | Inr r \<Rightarrow>
          if pf_less r (Fin 0) \<or> pf_less (Fin 1) r then Inl ValueError
          else check_ratios L kvs)"

definition extract_evolution :: "pylib \<Rightarrow> yaml \<Rightarrow> error + evolution" where
  "extract_evolution L evo_cfg =
     (case evo_cfg of
        YDict ec \<Rightarrow>
          (case check_fraud_rate L (raw_fraud_rate ec) of
             Inl e \<Rightarrow> Inl e
           | Inr fr \<Rightarrow>
               (case dict_get ec ''missingness'' of
                  YNone \<Rightarrow> Inr \<lparr>fraud_rate = fr, missingness = []\<rparr>
                | YDict ms \<Rightarrow>
                    (case check_ratios L ms of
                       Inl e \<Rightarrow> Inl e
                     | Inr u \<Rightarrow> Inr \<lparr>fraud_rate = fr, missingness = ms\<rparr>)
                | _ \<Rightarrow> Inl ValueError))
      | _ \<Rightarrow> Inl KeyError)"

section \<open>Deterministic generator (engine/generate.py)\<close>

definition deterministic_col_hash :: "pylib \<Rightarrow> string \<Rightarrow> nat" where
  "deterministic_col_hash L name = from_bytes_big (take 4 (hashlib_sha256 L name))"

definition derive_seed :: "pylib \<Rightarrow> string \<Rightarrow> string \<Rightarrow> nat" where
  "derive_seed L dataset_dir run_dir =
     (let dataset_name = os_path_basename L (os_path_normpath L dataset_dir);
          version = os_path_basename L (os_path_normpath L run_dir);
          h = hashlib_sha256 L (dataset_name @ '':'' @ version);
          seed64 = from_bytes_big (take 8 h)
      in seed64 mod 2 ^ 32)"

text \<open>
  \<^verbatim>\<open>rs.choice(a, size=sz)\<close> with the default arguments: numpy raises ValueError for an
  empty \<open>a\<close> unless no samples are taken, and otherwise indexes \<open>a\<close> with drawn indices.
\<close>

definition rs_choice :: "'rs numpy \<Rightarrow> 'rs \<Rightarrow> cell list \<Rightarrow> nat \<Rightarrow> error + (cell list \<times> 'rs)" where
  "rs_choice np rs a sz =
     (if a = [] \<and> sz \<noteq> 0 then Inl ValueError
      else (case rs_randint np rs (length a) sz of
              (ix, rs') \<Rightarrow>
                if list_all (\<lambda>i. i < length a) ix then Inr (map ((!) a) ix, rs')
                else Inl IndexError))"

text \<open>\<^verbatim>\<open>xs[:k]\<close>.\<close>

definition slice_to :: "'a list \<Rightarrow> int \<Rightarrow> 'a list" where
  "slice_to xs k = (if 0 \<le> k then take (nat k) xs else take (nat (int (length xs) + k)) xs)"

definition apply_missingness ::
    "'rs numpy \<Rightarrow> 'rs \<Rightarrow> ndarray \<Rightarrow> pyfloat option \<Rightarrow> error + (ndarray \<times> 'rs)" where
  "apply_missingness np rs arr ratio =
     (case ratio of
        None \<Rightarrow> Inr (arr, rs)
      | Some r \<Rightarrow>
          if pf_le r (Fin 0) then Inr (arr, rs)
          else (let n = length (cells arr)
                in case (case pf_mul_int r (int n) of Inl e \<Rightarrow> Inl e | Inr x \<Rightarrow> int_round x) of
                     Inl e \<Rightarrow> Inl e
                   | Inr k \<Rightarrow>
                       if k \<le> 0 then Inr (arr, rs)
                       else (case rs_permutation np rs n of
                               (perm, rs') \<Rightarrow>
                                 (let idx = slice_to perm k
                                  in if numeric_kind (dtype arr)
                                     then (case set_items (astype_float arr) idx (CFloat NaN) of
                                             Inl e \<Rightarrow> Inl e
                                           | Inr a \<Rightarrow> Inr (a, rs'))
                                     else (case set_items (astype_object arr) idx CNone of
                                             Inl e \<Rightarrow> Inl e
                                           | Inr a \<Rightarrow> Inr (a, rs'))))))"

definition categories :: "string list" where
  "categories = [''Retail'', ''Travel'', ''Food'', ''Grocery'', ''Utilities'', ''Health'',
     ''Entertainment'', ''Online'', ''Automotive'', ''Education'']"

definition generate_column ::
    "'rs numpy \<Rightarrow> 'rs \<Rightarrow> string \<Rightarrow> nat \<Rightarrow> error + (ndarray \<times> 'rs)" where
  "generate_column np rs name rows =
     (let lname = lower name
      in if lname = ''account_id'' then
           (let n_accounts = min 5000 (rows div 10)
            in case rs_choice np rs (map (\<lambda>i. CInt (100000 + int i)) [0..<n_accounts]) rows of
                 Inl e \<Rightarrow> Inl e
               | Inr (vals, rs') \<Rightarrow> Inr (NdArray Int64 vals, rs'))
         else if lname = ''merchant_category'' then
           (case rs_choice np rs (map CStr categories) rows of
              Inl e \<Rightarrow> Inl e
            | Inr (vals, rs') \<Rightarrow> Inr (NdArray Unicode vals, rs'))
         else if lname = ''transaction_id'' \<or> lname = ''id''
                 \<or> (endswith lname ''_id'' \<and> lname \<noteq> ''account_id'') then
           Inr (NdArray Int64 (map (\<lambda>i. CInt (int i)) [1..<rows + 1]), rs)
         else if lname = ''amount'' \<or> lname = ''txn_amount'' then
           (case rs_uniform np rs 1 500 rows of
              (vals, rs') \<Rightarrow> Inr (NdArray Float64 (map (\<lambda>v. CFloat (np_round 2 v)) vals), rs'))
         else if lname = ''is_fraud'' \<or> lname = ''fraud'' then
           Inr (NdArray Int8 (replicate rows (CInt 0)), rs)
         else if lname = ''timestamp'' \<or> lname = ''datetime'' \<or> lname = ''event_time''
                 \<or> lname = ''date'' then
           Inr (NdArray Object
                  (map (\<lambda>i. CStr (''2025-01-01T00:'' @ fmt02 (i mod 60) @ '':00Z'')) [0..<rows]), rs)
         else Inr (NdArray Object (map (\<lambda>i. CStr (''val_'' @ str_nat i)) [0..<rows]), rs))"

text \<open>
  Lines 243 to 247 of \<^verbatim>\<open>generate_dataset\<close>: the labels of a fraud column, for a rate
  that is configured.
\<close>

definition assign_fraud :: "'rs numpy \<Rightarrow> 'rs \<Rightarrow> nat \<Rightarrow> pyfloat \<Rightarrow> error + (ndarray \<times> 'rs)" where
  "assign_fraud np rs rows rate =
     (case (case pf_mul_int rate (int rows) of Inl e \<Rightarrow> Inl e | Inr x \<Rightarrow> int_round x) of
        Inl e \<Rightarrow> Inl e
      | Inr k \<Rightarrow>
          (case rs_permutation np rs rows of
             (perm, rs') \<Rightarrow>
               (case set_items (NdArray Int8 (replicate rows (CInt 0))) (slice_to perm k) (CInt 1) of
                  Inl e \<Rightarrow> Inl e
                | Inr fraud \<Rightarrow> Inr (fraud, rs'))))"

definition is_fraud_name :: "string \<Rightarrow> bool" where
  "is_fraud_name name = (lower name = ''is_fraud'' \<or> lower name = ''fraud'')"

text \<open>
  The body of the loop over the columns. Lines 234 to 247: the column's own generator,
  its values and, for a fraud column, the labels in their place, with the state of the
  generator after them.
\<close>

definition column_values ::
    "'rs numpy \<Rightarrow> pylib \<Rightarrow> nat \<Rightarrow> nat \<Rightarrow> evolution \<Rightarrow> string \<Rightarrow> error + (ndarray \<times> 'rs)" where
  "column_values np L seed rows evo nm =
     (let col_hash = deterministic_col_hash L nm;
          rs_col = np_RandomState np ((seed + col_hash) mod 2 ^ 32)
      in case generate_column np rs_col nm rows of
           Inl e \<Rightarrow> Inl e
         | Inr (col_vals, rs1) \<Rightarrow>
             if is_fraud_name nm
             then (case fraud_rate evo of
                     None \<Rightarrow> Inl KeyError
                   | Some rate \<Rightarrow> assign_fraud np rs1 rows rate)
             else Inr (col_vals, rs1))"

text \<open>
  Lines 233 to 254: the values of the column, then the missingness from the same
  generator. A name that is not a string has no \<^verbatim>\<open>encode\<close>.
\<close>

definition generate_one ::
    "'rs numpy \<Rightarrow> pylib \<Rightarrow> nat \<Rightarrow> nat \<Rightarrow> evolution \<Rightarrow> yaml \<Rightarrow> error + (string \<times> ndarray)" where
  "generate_one np L seed rows evo name =
     (case name of
        YStr nm \<Rightarrow>
          (case column_values np L seed rows evo nm of
             Inl e \<Rightarrow> Inl e
           | Inr (col_vals, rs2) \<Rightarrow>
               (let miss_cfg = dict_get (missingness evo) nm
                in if miss_cfg \<noteq> YNone
                   then (case py_float L miss_cfg of
                           Inl e \<Rightarrow> Inl e
                         | Inr r \<Rightarrow>
                             (case apply_missingness np rs2 col_vals (Some r) of
                                Inl e \<Rightarrow> Inl e
                              | Inr (a, rs3) \<Rightarrow> Inr (nm, a)))
                   else Inr (nm, col_vals)))
      | _ \<Rightarrow> Inl AttributeError)"

fun generate_loop ::
    "'rs numpy \<Rightarrow> pylib \<Rightarrow> nat \<Rightarrow> nat \<Rightarrow> evolution \<Rightarrow> yaml list \<Rightarrow> (string \<times> ndarray) list
     \<Rightarrow> error + (string \<times> ndarray) list" where
  "generate_loop np L seed rows evo [] data = Inr data"
| "generate_loop np L seed rows evo (name # names) data =
     (case generate_one np L seed rows evo name of
        Inl e \<Rightarrow> Inl e
      | Inr (nm, col_vals) \<Rightarrow>
          generate_loop np L seed rows evo names (AList.update nm col_vals data))"

text \<open>The dictionary \<^verbatim>\<open>{name: data[name] for name in columns}\<close>.\<close>

fun frame_dict ::
    "(string \<times> ndarray) list \<Rightarrow> yaml list \<Rightarrow> (string \<times> ndarray) list
     \<Rightarrow> error + (string \<times> ndarray) list" where
  "frame_dict data [] acc = Inr acc"
| "frame_dict data (YStr nm # names) acc =
     (case map_of data nm of
        None \<Rightarrow> Inl KeyError
      | Some a \<Rightarrow> frame_dict data names (AList.update nm a acc))"
| "frame_dict data (name # names) acc = Inl TypeError"

text \<open>
  \<^verbatim>\<open>pd.DataFrame\<close> of a dictionary of arrays: arrays of different lengths raise, and
  an array of fixed-width strings becomes a column of dtype object.
\<close>

definition as_series :: "ndarray \<Rightarrow> ndarray" where
  "as_series a = NdArray (if dtype a = Unicode then Object else dtype a) (cells a)"

definition pd_DataFrame :: "(string \<times> ndarray) list \<Rightarrow> error + dataframe" where
  "pd_DataFrame cols =
     (case cols of
        [] \<Rightarrow> Inr (DataFrame 0 [])
      | (nm, a) # rest \<Rightarrow>
          if list_all (\<lambda>(nm', b). length (cells b) = length (cells a)) rest
          then Inr (DataFrame (length (cells a)) (map (\<lambda>(nm', b). (nm', as_series b)) cols))
          else Inl ValueError)"

text \<open>Lines 224 to 257 of \<^verbatim>\<open>generate_dataset\<close>: the table that is then written.\<close>

definition generate_dataset_table ::
    "'rs numpy \<Rightarrow> pylib \<Rightarrow> string \<Rightarrow> (string \<times> yaml) list \<Rightarrow> string \<Rightarrow> error + dataframe" where
  "generate_dataset_table np L dataset_dir configs run_dir =
     (case require_configs configs of
        Inl e \<Rightarrow> Inl e
      | Inr u \<Rightarrow>
     (case extract_columns (dict_get configs ''schema.yaml'') of
        Inl e \<Rightarrow> Inl e
      | Inr columns \<Rightarrow>
     (case extract_row_count L (dict_get configs ''dataset.yaml'') of
        Inl e \<Rightarrow> Inl e
      | Inr rows \<Rightarrow>
     (case extract_evolution L (dict_get configs ''evolution.yaml'') of
        Inl e \<Rightarrow> Inl e
      | Inr evo \<Rightarrow>
          (let seed = derive_seed L dataset_dir run_dir
           in case generate_loop np L seed (nat rows) evo columns [] of
                Inl e \<Rightarrow> Inl e
              | Inr data \<Rightarrow>
                  (case frame_dict data columns [] of
                     Inl e \<Rightarrow> Inl e
                   | Inr d \<Rightarrow> pd_DataFrame d))))))"

text \<open>
  \<^verbatim>\<open>_write_dataframe\<close>: parquet first, CSV when the parquet path fails. Whether an
  encoder raises is a parameter, and so is the name that \<^verbatim>\<open>mkstemp\<close> draws for a
  suffix: \<^verbatim>\<open>tmp\<close>, random characters and the suffix, a name that is not in the
  directory. \<^verbatim>\<open>mkstemp\<close> creates the file empty; an encoder that raises leaves a file
  that is then removed; a rename onto a directory fails and leaves the temporary file
  where it is.
\<close>

record writer =
  to_parquet_ok :: "dataframe \<Rightarrow> bool"
  to_csv_ok :: "dataframe \<Rightarrow> bool"
  mkstemp :: "string \<Rightarrow> string"

text \<open>Lines 193 to 203: the CSV fallback; what it raises leaves the function.\<close>

definition write_csv :: "writer \<Rightarrow> dataframe \<Rightarrow> directory \<Rightarrow> (error + unit) \<times> directory" where
  "write_csv W df d =
     (let tmp_path = mkstemp W ''.csv'';
          d1 = d(tmp_path \<mapsto> File (Raw []))
      in if \<not> to_csv_ok W df then (Inl OSError, d1(tmp_path := None))
         else (let d2 = d1(tmp_path \<mapsto> File (Tabular df))
               in if d2 ''data.csv'' = Some Dir then (Inl OSError, d2)
                  else (Inr (), (d2(tmp_path := None))(''data.csv'' \<mapsto> File (Tabular df)))))"

definition write_dataframe :: "writer \<Rightarrow> dataframe \<Rightarrow> directory \<Rightarrow> (error + unit) \<times> directory" where
  "write_dataframe W df d =
     (let tmp_path = mkstemp W ''.parquet'';
          d1 = d(tmp_path \<mapsto> File (Raw []))
      in if \<not> to_parquet_ok W df then write_csv W df (d1(tmp_path := None))
         else (let d2 = d1(tmp_path \<mapsto> File (Tabular df))
               in if d2 ''data.parquet'' = Some Dir then write_csv W df d2
                  else (Inr (), (d2(tmp_path := None))(''data.parquet'' \<mapsto> File (Tabular df)))))"

definition generate_dataset ::
    "'rs numpy \<Rightarrow> pylib \<Rightarrow> writer \<Rightarrow> string \<Rightarrow> (string \<times> yaml) list \<Rightarrow> string \<Rightarrow> directory
     \<Rightarrow> (error + unit) \<times> directory" where
  "generate_dataset np L W dataset_dir configs run_dir d =
     (case generate_dataset_table np L dataset_dir configs run_dir of
        Inl e \<Rightarrow> (Inl e, d)
      | Inr df \<Rightarrow> write_dataframe W df d)"

section \<open>Finalizer (engine/artifacts.py)\<close>

text \<open>What one call reads from the system: the resolved path of a directory, the
  temporary sibling \<^verbatim>\<open>path.with_suffix(".tmp")\<close> of a path, and the UTC time as text.\<close>

record sysenv =
  path_resolve :: "string \<Rightarrow> string"
  with_suffix_tmp :: "string \<Rightarrow> string"
  utc_now :: string

definition required_artifacts :: "string list" where
  "required_artifacts = [''configs_snapshot.json'', ''run_metadata.json'',
     ''validation_report.json'', ''evaluation_report.json'']"

definition persist_artifacts ::
    "pylib \<Rightarrow> sysenv \<Rightarrow> string \<Rightarrow> (string \<times> yaml) list \<Rightarrow> string \<Rightarrow> directory
     \<Rightarrow> (error + unit) \<times> directory" where
  "persist_artifacts L S dataset_dir configs run_dir d =
     (if exists_path d ''final_metadata.json'' then (Inl RuntimeError, d)
      else (let has_parquet = exists_path d ''data.parquet'';
                has_csv = exists_path d ''data.csv''
            in if has_parquet \<and> has_csv then (Inl RuntimeError, d)
               else if \<not> has_parquet \<and> \<not> has_csv then (Inl RuntimeError, d)
               else (let data_file = (if has_parquet then ''data.parquet'' else ''data.csv'')
                     in if \<not> list_all (is_file d) required_artifacts then (Inl RuntimeError, d)
                        else (case d ''configs_snapshot.json'' of
                                Some (File (Json snapshot)) \<Rightarrow>
                                  if \<not> py_eq snapshot (YDict configs) then (Inl RuntimeError, d)
                                  else (let manifest = YDict
                                          [(''dataset'',
                                              YStr (os_path_basename L (os_path_normpath L dataset_dir))),
                                           (''run_dir'', YStr (path_resolve S run_dir)),
                                           (''finalized_at_utc'', YStr (utc_now S)),
                                           (''artifacts'', YDict
                                              [(''data'', YStr data_file),
                                               (''configs_snapshot'', YStr ''configs_snapshot.json''),
                                               (''run_metadata'', YStr ''run_metadata.json''),
                                               (''validation_report'', YStr ''validation_report.json''),
                                               (''evaluation_report'', YStr ''evaluation_report.json'')])]
                                        in if d ''final_metadata.tmp'' = Some Dir then (Inl OSError, d)
                                           else (Inr (),
                                                 (d(''final_metadata.tmp'' := None))
                                                   (''final_metadata.json'' \<mapsto> File (Json manifest))))
                              | _ \<Rightarrow> (Inl ValueError, d)))))"

section \<open>Registry updater (engine/registry.py)\<close>

text \<open>Here the state maps whole paths to nodes.\<close>

type_synonym filesystem = "string \<Rightarrow> node option"

definition load_json :: "filesystem \<Rightarrow> string \<Rightarrow> error + yaml" where
  "load_json fs p =
     (case fs p of
        Some (File (Json v)) \<Rightarrow> Inr v
      | Some (File c) \<Rightarrow> Inl ValueError
      | _ \<Rightarrow> Inl OSError)"

text \<open>Write to the temporary sibling, then rename it onto the path.\<close>

definition atomic_write_json ::
    "sysenv \<Rightarrow> string \<Rightarrow> yaml \<Rightarrow> filesystem \<Rightarrow> (error + unit) \<times> filesystem" where
  "atomic_write_json S path payload fs =
     (let tmp = with_suffix_tmp S path
      in if fs tmp = Some Dir then (Inl OSError, fs)
         else (let fs1 = fs(tmp \<mapsto> File (Json payload))
               in if fs1 path = Some Dir then (Inl OSError, fs1)
                  else (Inr (), (fs1(tmp := None))(path \<mapsto> File (Json payload)))))"

fun check_duplicate :: "string \<Rightarrow> yaml list \<Rightarrow> error + unit" where
  "check_duplicate version [] = Inr ()"
| "check_duplicate version (v # vs) =
     (case v of
        YDict vd \<Rightarrow>
          if dict_get vd ''version'' = YStr version then Inl RuntimeError
          else check_duplicate version vs
      | _ \<Rightarrow> Inl AttributeError)"

definition version_record :: "string \<Rightarrow> yaml \<Rightarrow> yaml \<Rightarrow> yaml" where
  "version_record version run_dir finalized_at =
     YDict [(''version'', YStr version), (''run_dir'', run_dir),
            (''finalized_at_utc'', finalized_at)]"

text \<open>
  Lines 54 to 79, on the loaded registry document: the checks, the append and the new
  latest version. The source mutates the loaded document in place; here it is rebuilt.
  A dataset name that is not a string is no key of a JSON object, and a list or a
  mapping is not hashable.
\<close>

definition register_version :: "yaml \<Rightarrow> string \<Rightarrow> yaml \<Rightarrow> yaml \<Rightarrow> yaml \<Rightarrow> error + yaml" where
  "register_version dataset version run_dir finalized_at registry =
     (case registry of
        YDict reg \<Rightarrow>
          (case dict_get reg ''datasets'' of
             YDict datasets \<Rightarrow>
               (case dataset of
                  YStr ds \<Rightarrow>
                    if \<not> dict_has datasets ds then Inl RuntimeError
                    else (case dict_get datasets ds of
                            YDict entry \<Rightarrow>
                              (let versions0 = dict_get entry ''versions'';
                                   entry1 = (if versions0 = YNone
                                             then AList.update ''versions'' (YList []) entry
                                             else entry);
                                   versions = (if versions0 = YNone then YList [] else versions0)
                               in case versions of
                                    YList vs \<Rightarrow>
                                      (case check_duplicate version vs of
                                         Inl e \<Rightarrow> Inl e
                                       | Inr u \<Rightarrow>
                                           (let vs' = vs @ [version_record version run_dir finalized_at];
                                                entry2 = AList.update ''latest_version'' (YStr version)
                                                           (AList.update ''versions'' (YList vs') entry1)
                                            in Inr (YDict (AList.update ''datasets''
                                                     (YDict (AList.update ds (YDict entry2) datasets)) reg))))
                                  | _ \<Rightarrow> Inl RuntimeError)
                          | _ \<Rightarrow> Inl AttributeError)
                | YList xs \<Rightarrow> Inl TypeError
                | YDict m \<Rightarrow> Inl TypeError
                | _ \<Rightarrow> Inl RuntimeError)
           | _ \<Rightarrow> Inl RuntimeError)
      | _ \<Rightarrow> Inl AttributeError)"

definition update_registry_from_final_metadata ::
    "pylib \<Rightarrow> sysenv \<Rightarrow> string \<Rightarrow> string \<Rightarrow> filesystem \<Rightarrow> (error + unit) \<times> filesystem" where
  "update_registry_from_final_metadata L S final_metadata_path registry_path fs =
     (if \<not> is_file fs final_metadata_path then (Inl FileNotFoundError, fs)
      else if \<not> is_file fs registry_path then (Inl FileNotFoundError, fs)
      else (case load_json fs final_metadata_path of
              Inl e \<Rightarrow> (Inl e, fs)
            | Inr final_meta \<Rightarrow>
                (case final_meta of
                   YDict fm \<Rightarrow>
                     (let dataset = dict_get fm ''dataset'';
                          run_dir = dict_get fm ''run_dir'';
                          finalized_at = dict_get fm ''finalized_at_utc''
                      in if \<not> truthy dataset \<or> \<not> truthy run_dir \<or> \<not> truthy finalized_at
                         then (Inl RuntimeError, fs)
                         else (case run_dir of
                                 YStr rd \<Rightarrow>
                                   (let version = os_path_basename L (os_path_normpath L rd)
                                    in if version = [] then (Inl RuntimeError, fs)
                                       else (case load_json fs registry_path of
                                               Inl e \<Rightarrow> (Inl e, fs)
                                             | Inr registry \<Rightarrow>
                                                 (case register_version dataset version run_dir
                                                         finalized_at registry of
                                                    Inl e \<Rightarrow> (Inl e, fs)
                                                  | Inr registry' \<Rightarrow>
                                                      atomic_write_json S registry_path registry' fs)))
                               | _ \<Rightarrow> (Inl TypeError, fs)))
                 | _ \<Rightarrow> (Inl AttributeError, fs))))"

section \<open>Evaluator (engine/evaluate.py)\<close>

text \<open>
  The reductions of a pandas series whose results the evaluator only rounds and
  stores are parameters.
\<close>

record pandas =
  series_mean :: "ndarray \<Rightarrow> pyfloat"
  series_std :: "ndarray \<Rightarrow> pyfloat"
  series_min :: "ndarray \<Rightarrow> pyfloat"
  series_max :: "ndarray \<Rightarrow> pyfloat"

fun cell_isna :: "cell \<Rightarrow> bool" where
  "cell_isna CNone = True"
| "cell_isna (CFloat NaN) = True"
| "cell_isna c = False"

definition isna_sum :: "ndarray \<Rightarrow> nat" where
  "isna_sum series = length (filter cell_isna (cells series))"

definition isna_all :: "ndarray \<Rightarrow> bool" where
  "isna_all series = list_all cell_isna (cells series)"

text \<open>
  \<^verbatim>\<open>nunique(dropna=True)\<close> counts the values that differ under \<^verbatim>\<open>==\<close>, where an
  integer equals the float of the same value.
\<close>

fun cell_key :: "cell \<Rightarrow> cell" where
  "cell_key (CInt i) = CFloat (Fin (of_int i))"
| "cell_key (CFloat f) = CFloat (as_double f)"
| "cell_key c = c"

definition nunique :: "ndarray \<Rightarrow> nat" where
  "nunique series = length (remdups (map cell_key (filter (\<lambda>c. \<not> cell_isna c) (cells series))))"

record colquality =
  missing_ratio :: pyfloat
  cardinality :: nat
  stats :: "(string \<times> yaml) list"

definition quality_entry :: "pandas \<Rightarrow> nat \<Rightarrow> ndarray \<Rightarrow> colquality" where
  "quality_entry P row_count series =
     \<lparr>missing_ratio =
        (if 0 < row_count
         then pf_round 6 (count_ratio (isna_sum series) row_count)
         else Fin 0),
      cardinality = nunique series,
      stats =
        (if numeric_kind (dtype series) \<and> \<not> isna_all series
         then [(''mean'', YFloat (pf_round 6 (series_mean P series))),
               (''std'', YFloat (pf_round 6 (series_std P series))),
               (''min'', YFloat (pf_round 6 (series_min P series))),
               (''max'', YFloat (pf_round 6 (series_max P series)))]
         else [(''mean'', YNone), (''std'', YNone), (''min'', YNone), (''max'', YNone)])\<rparr>"

fun quality_loop ::
    "pandas \<Rightarrow> dataframe \<Rightarrow> string list \<Rightarrow> (string \<times> colquality) list
     \<Rightarrow> error + (string \<times> colquality) list" where
  "quality_loop P df [] quality = Inr quality"
| "quality_loop P df (col # cols) quality =
     (case map_of (df_columns df) col of
        None \<Rightarrow> Inl KeyError
      | Some series \<Rightarrow>
          quality_loop P df cols (AList.update col (quality_entry P (df_rows df) series) quality))"

text \<open>\<^verbatim>\<open>abs(cur - prior)\<close> for a float and for an integer \<open>cur\<close> against a loaded value.\<close>

fun abs_diff_float :: "pyfloat \<Rightarrow> yaml \<Rightarrow> error + pyfloat" where
  "abs_diff_float c (YBool b) = Inr (pf_abs (pf_sub c (Fin (if b then 1 else 0))))"
| "abs_diff_float c (YInt i) =
     (case float_of_int i of Inl e \<Rightarrow> Inl e | Inr f \<Rightarrow> Inr (pf_abs (pf_sub c f)))"
| "abs_diff_float c (YFloat f) = Inr (pf_abs (pf_sub c f))"
| "abs_diff_float c v = Inl TypeError"

fun abs_diff_int :: "int \<Rightarrow> yaml \<Rightarrow> error + yaml" where
  "abs_diff_int c (YBool b) = Inr (YInt \<bar>c - (if b then 1 else 0)\<bar>)"
| "abs_diff_int c (YInt i) = Inr (YInt \<bar>c - i\<bar>)"
| "abs_diff_int c (YFloat f) =
     (case float_of_int c of Inl e \<Rightarrow> Inl e | Inr x \<Rightarrow> Inr (YFloat (pf_abs (pf_sub x f))))"
| "abs_diff_int c v = Inl TypeError"

definition is_substring :: "string \<Rightarrow> string \<Rightarrow> bool" where
  "is_substring s t = list_ex (\<lambda>i. take (length s) (drop i t) = s) [0..<Suc (length t)]"

text \<open>\<^verbatim>\<open>col in prior_cols\<close> for a loaded value.\<close>

fun py_in :: "string \<Rightarrow> yaml \<Rightarrow> error + bool" where
  "py_in col (YDict m) = Inr (dict_has m col)"
| "py_in col (YList xs) = Inr (list_ex (\<lambda>x. x = YStr col) xs)"
| "py_in col (YStr s) = Inr (is_substring col s)"
| "py_in col v = Inl TypeError"

definition stat_drift :: "yaml \<Rightarrow> yaml \<Rightarrow> error + yaml" where
  "stat_drift cur_val prior_val =
     (if cur_val \<noteq> YNone \<and> prior_val \<noteq> YNone
      then (case cur_val of
              YFloat c \<Rightarrow>
                (case abs_diff_float c prior_val of
                   Inl e \<Rightarrow> Inl e
                 | Inr f \<Rightarrow> Inr (YFloat (pf_round 6 f)))
            | _ \<Rightarrow> Inl TypeError)
      else Inr YNone)"

fun stat_drifts ::
    "(string \<times> yaml) list \<Rightarrow> (string \<times> yaml) list \<Rightarrow> string list \<Rightarrow> (string \<times> yaml) list
     \<Rightarrow> error + (string \<times> yaml) list" where
  "stat_drifts cur_stats prior_stats [] acc = Inr acc"
| "stat_drifts cur_stats prior_stats (stat # sts) acc =
     (case stat_drift (dict_get cur_stats stat) (dict_get prior_stats stat) of
        Inl e \<Rightarrow> Inl e
      | Inr drift_val \<Rightarrow>
          stat_drifts cur_stats prior_stats sts (AList.update (stat @ ''_drift'') drift_val acc))"

text \<open>Lines 81 to 104: the drift of a column that the prior profile has.\<close>

definition present_drift :: "yaml \<Rightarrow> colquality \<Rightarrow> string \<Rightarrow> error + yaml" where
  "present_drift prior_cols q col =
     (case prior_cols of
        YDict pc \<Rightarrow>
          (case dict_get pc col of
             YDict pcol \<Rightarrow>
               if \<not> dict_has pcol ''stats'' then Inl KeyError
               else (case dict_get pcol ''stats'' of
                       YDict prior_stats \<Rightarrow>
                         (case stat_drifts (stats q) prior_stats
                                 [''mean'', ''std'', ''min'', ''max''] [] of
                            Inl e \<Rightarrow> Inl e
                          | Inr d1 \<Rightarrow>
                              (case (if dict_get pcol ''missing_ratio'' \<noteq> YNone
                                     then (case abs_diff_float (missing_ratio q)
                                                  (dict_get pcol ''missing_ratio'') of
                                             Inl e \<Rightarrow> Inl e
                                           | Inr f \<Rightarrow> Inr (YFloat (pf_round 6 f)))
                                     else Inr YNone) of
                                 Inl e \<Rightarrow> Inl e
                               | Inr miss \<Rightarrow>
                                   (case (if dict_get pcol ''cardinality'' \<noteq> YNone
                                          then abs_diff_int (int (cardinality q))
                                                 (dict_get pcol ''cardinality'')
                                          else Inr YNone) of
                                      Inl e \<Rightarrow> Inl e
                                    | Inr card_drift \<Rightarrow>
                                        Inr (YDict (AList.update ''cardinality_drift'' card_drift
                                               (AList.update ''missing_ratio_drift'' miss d1))))))
                     | _ \<Rightarrow> Inl AttributeError)
           | _ \<Rightarrow> Inl TypeError)
      | _ \<Rightarrow> Inl TypeError)"

definition absent_drift :: yaml where
  "absent_drift = YDict [(''mean_drift'', YNone), (''std_drift'', YNone), (''min_drift'', YNone),
     (''max_drift'', YNone), (''missing_ratio_drift'', YNone), (''cardinality_drift'', YNone)]"

definition column_drift ::
    "yaml \<Rightarrow> yaml \<Rightarrow> (string \<times> colquality) list \<Rightarrow> string \<Rightarrow> error + yaml" where
  "column_drift prior_profile prior_cols quality col =
     (case (if prior_profile \<noteq> YNone then py_in col prior_cols else Inr False) of
        Inl e \<Rightarrow> Inl e
      | Inr True \<Rightarrow>
          (case map_of quality col of
             None \<Rightarrow> Inl KeyError
           | Some q \<Rightarrow> present_drift prior_cols q col)
      | Inr False \<Rightarrow> Inr absent_drift)"

fun drift_loop ::
    "yaml \<Rightarrow> yaml \<Rightarrow> (string \<times> colquality) list \<Rightarrow> string list \<Rightarrow> (string \<times> yaml) list
     \<Rightarrow> error + (string \<times> yaml) list" where
  "drift_loop prior_profile prior_cols quality [] drift = Inr drift"
| "drift_loop prior_profile prior_cols quality (col # cols) drift =
     (case column_drift prior_profile prior_cols quality col of
        Inl e \<Rightarrow> Inl e
      | Inr dc \<Rightarrow> drift_loop prior_profile prior_cols quality cols (AList.update col dc drift))"

text \<open>Lines 67 to 76: the prior columns and the drift of the two counts.\<close>

definition dataset_level ::
    "yaml \<Rightarrow> nat \<Rightarrow> nat \<Rightarrow> error + (yaml \<times> (string \<times> yaml) list)" where
  "dataset_level prior_profile row_count column_count =
     (case prior_profile of
        YNone \<Rightarrow>
          Inr (YDict [], [(''row_count_drift'', YNone), (''column_count_drift'', YNone)])
      | YDict pp \<Rightarrow>
          (let prior_cols = (if dict_has pp ''columns'' then dict_get pp ''columns'' else YDict []);
               prior_row_count = dict_get pp ''row_count'';
               prior_column_count = dict_get pp ''column_count''
           in case (if prior_row_count \<noteq> YNone then abs_diff_int (int row_count) prior_row_count
                    else Inr YNone) of
                Inl e \<Rightarrow> Inl e
              | Inr rd \<Rightarrow>
                  (case (if prior_column_count \<noteq> YNone
                         then abs_diff_int (int column_count) prior_column_count
                         else Inr YNone) of
                     Inl e \<Rightarrow> Inl e
                   | Inr cd \<Rightarrow>
                       Inr (prior_cols, [(''row_count_drift'', rd), (''column_count_drift'', cd)])))
      | _ \<Rightarrow> Inl AttributeError)"

definition quality_yaml :: "colquality \<Rightarrow> yaml" where
  "quality_yaml q = YDict [(''missing_ratio'', YFloat (missing_ratio q)),
     (''cardinality'', YInt (int (cardinality q))), (''stats'', YDict (stats q))]"

text \<open>Steps 4 to 6 on the loaded table and the loaded prior profile (None when there is none).\<close>

definition evaluation_report :: "pandas \<Rightarrow> dataframe \<Rightarrow> yaml \<Rightarrow> error + yaml" where
  "evaluation_report P df prior_profile =
     (let row_count = df_rows df;
          column_count = length (df_columns df);
          cols = sort (map fst (df_columns df))
      in case quality_loop P df cols [] of
           Inl e \<Rightarrow> Inl e
         | Inr quality \<Rightarrow>
             (case dataset_level prior_profile row_count column_count of
                Inl e \<Rightarrow> Inl e
              | Inr (prior_cols, dataset_drift) \<Rightarrow>
                  (case drift_loop prior_profile prior_cols quality cols [] of
                     Inl e \<Rightarrow> Inl e
                   | Inr drift \<Rightarrow>
                       Inr (YDict [(''row_count'', YInt (int row_count)),
                                   (''column_count'', YInt (int column_count)),
                                   (''dataset_drift'', YDict dataset_drift),
                                   (''quality'', YDict (map (\<lambda>(c, q). (c, quality_yaml q)) quality)),
                                   (''drift'', YDict drift)]))))"


section \<open>Reading a state\<close>

definition get_field :: "yaml \<Rightarrow> string \<Rightarrow> yaml" where
  "get_field v k = (case v of YDict m \<Rightarrow> dict_get m k | _ \<Rightarrow> YNone)"

text \<open>The JSON document at a path; the version list of a dataset in the registry
  document at a path (empty when there is none yet) and its latest version.\<close>

definition json_doc :: "filesystem \<Rightarrow> string \<Rightarrow> yaml" where
  "json_doc fs p = (case fs p of Some (File (Json v)) \<Rightarrow> v | _ \<Rightarrow> YNone)"

definition registered_versions :: "filesystem \<Rightarrow> string \<Rightarrow> string \<Rightarrow> yaml list" where
  "registered_versions fs p ds =
     (case get_field (get_field (get_field (json_doc fs p) ''datasets'') ds) ''versions'' of
        YList vs \<Rightarrow> vs
      | _ \<Rightarrow> [])"

definition latest_version :: "filesystem \<Rightarrow> string \<Rightarrow> string \<Rightarrow> yaml" where
  "latest_version fs p ds =
     get_field (get_field (get_field (json_doc fs p) ''datasets'') ds) ''latest_version''"

text \<open>A list is a permutation of the indices below \<open>n\<close>: what
  \<^verbatim>\<open>rs.permutation(n)\<close> returns.\<close>

definition is_permutation :: "nat list \<Rightarrow> nat \<Rightarrow> bool" where
  "is_permutation perm n = (sort perm = [0..<n])"

section \<open>A concrete library, for evaluation\<close>

text \<open>A small instance of the parameters: a hash made of the length of its input and
  the sum of its bytes, paths without redundant separators, and a counter as the
  generator state.\<close>

definition lib0 :: pylib where
  "lib0 = \<lparr>hashlib_sha256 =
             (\<lambda>s. [0, 0, 0, length s mod 256, 0, 0, 0, sum_list (map of_char s) mod 256]
                  @ replicate 24 0),
           os_path_basename = (\<lambda>p. rev (takeWhile (\<lambda>c. c \<noteq> CHR ''/'') (rev p))),
           os_path_normpath = (\<lambda>p. p),
           int_of_str = (\<lambda>s. None),
           float_of_str = (\<lambda>s. None)\<rparr>"

definition np0 :: "nat numpy" where
  "np0 = \<lparr>np_RandomState = (\<lambda>seed. seed),
          rs_randint = (\<lambda>rs m sz. (map (\<lambda>i. (rs + i) mod m) [0..<sz], rs + sz)),
          rs_uniform = (\<lambda>rs lo hi sz. (map (\<lambda>i. Fin (lo + of_nat ((rs + i) mod 100) / 4)) [0..<sz], rs + sz)),
          rs_permutation = (\<lambda>rs n. (drop (rs mod Suc n) [0..<n] @ take (rs mod Suc n) [0..<n], rs + n))\<rparr>"

definition writer0 :: writer where
  "writer0 = \<lparr>to_parquet_ok = (\<lambda>df. True), to_csv_ok = (\<lambda>df. True),
              mkstemp = (\<lambda>suffix. ''tmpk3v9_x2a'' @ suffix)\<rparr>"

definition writer1 :: writer where
  "writer1 = \<lparr>to_parquet_ok = (\<lambda>df. True), to_csv_ok = (\<lambda>df. True),
              mkstemp = (\<lambda>suffix. ''tmp0q7hw_4n'' @ suffix)\<rparr>"

definition sys0 :: sysenv where
  "sys0 = \<lparr>path_resolve = (\<lambda>p. ''/srv/'' @ p),
           with_suffix_tmp = (\<lambda>p. rev (dropWhile (\<lambda>c. c \<noteq> CHR ''.'') (rev p)) @ ''tmp''),
           utc_now = ''2025-01-01T00:00:00+00:00''\<rparr>"


text \<open>Configurations used to evaluate the definitions.\<close>

definition cfg_small :: "(string \<times> yaml) list" where
  "cfg_small = [(''dataset.yaml'', YDict [(''row_count'', YInt 9)]),
     (''schema.yaml'', YDict [(''columns'', YList [YStr ''id'', YStr ''Account_ID''])]),
     (''evolution.yaml'', YDict [])]"

definition evo_nested :: "(string \<times> yaml) list" where
  "evo_nested = [(''fraud'', YDict [(''rate'', YFloat (Fin (1 / 32)))])]"

definition evo_shadowed :: "(string \<times> yaml) list" where
  "evo_shadowed = [(''weekly_changes'', YList [YDict [(''week'', YInt 1)]]),
                   (''fraud_rate'', YFloat (Fin (1 / 10)))]"

text \<open>The version list of a registry entry, and the entry after a version is appended
  (what lines 58 to 79 leave in place of the entry).\<close>

definition old_versions :: "(string \<times> yaml) list \<Rightarrow> yaml list" where
  "old_versions entry = (case dict_get entry ''versions'' of YList vs \<Rightarrow> vs | _ \<Rightarrow> [])"

definition new_entry :: "string \<Rightarrow> yaml \<Rightarrow> yaml \<Rightarrow> (string \<times> yaml) list \<Rightarrow> (string \<times> yaml) list" where
  "new_entry version run_dir finalized_at entry =
     AList.update ''latest_version'' (YStr version)
       (AList.update ''versions''
          (YList (old_versions entry @ [version_record version run_dir finalized_at]))
          (if dict_get entry ''versions'' = YNone
           then AList.update ''versions'' (YList []) entry else entry))"

text \<open>A run directory that is ready to be finalized, and a registry with one version
  of one dataset next to the final manifest of an earlier version.\<close>

definition dir_ready :: directory where
  "dir_ready = map_of
     [(''configs_snapshot.json'', File (Json (YDict [(''a'', YInt 1)]))),
      (''run_metadata.json'', File (Json (YDict []))),
      (''validation_report.json'', File (Json (YDict []))),
      (''evaluation_report.json'', File (Json (YDict []))),
      (''data.parquet'', File (Raw ''parquetdata''))]"

definition fs_reg :: filesystem where
  "fs_reg = map_of
     [(''runs/ft/2025-01-01T00-00-00Z/final_metadata.json'',
       File (Json (YDict
         [(''dataset'', YStr ''ft''),
          (''run_dir'', YStr ''/srv/runs/ft/2025-01-01T00-00-00Z''),
          (''finalized_at_utc'', YStr ''2025-07-01T00:00:00+00:00''),
          (''artifacts'', YDict [(''data'', YStr ''data.parquet'')])]))),
      (''registry/datasets.json'',
       File (Json (YDict
         [(''datasets'', YDict
            [(''ft'', YDict
               [(''versions'', YList
                   [YDict [(''version'', YStr ''2025-06-01T00-00-00Z''),
                           (''run_dir'', YStr ''/srv/runs/ft/2025-06-01T00-00-00Z''),
                           (''finalized_at_utc'', YStr ''2025-06-01T00:10:00+00:00'')]]),
                (''latest_version'', YStr ''2025-06-01T00-00-00Z'')])])])))]"

text \<open>
  The count \<^verbatim>\<open>int(round(r * n))\<close> for a finite \<open>r\<close>, the product taken in doubles, and
  what a marked array holds: the marker, the dtype and the cast of the other cells, by
  the kind of the dtype.
\<close>

definition round_count :: "rat \<Rightarrow> nat \<Rightarrow> nat" where
  "round_count r n = nat (py_round (dbl (dbl r * dbl (of_nat n))))"

definition missing_marker :: "dtype \<Rightarrow> cell" where
  "missing_marker dt = (if numeric_kind dt then CFloat NaN else CNone)"

definition missing_cast :: "dtype \<Rightarrow> cell \<Rightarrow> cell" where
  "missing_cast dt c = (if numeric_kind dt then cell_to_float c else c)"

definition missing_dtype :: "dtype \<Rightarrow> dtype" where
  "missing_dtype dt = (if numeric_kind dt then Float64 else Object)"

definition cfg_fraud_no_rate :: "(string \<times> yaml) list" where
  "cfg_fraud_no_rate = [(''dataset.yaml'', YDict [(''row_count'', YInt 100)]),
     (''schema.yaml'', YDict [(''columns'', YList [YStr ''id'', YStr ''Is_Fraud''])]),
     (''evolution.yaml'', YDict [(''missingness'', YDict [])])]"

text \<open>A configuration with a fraud rate and a missingness ratio for the fraud column
  itself, and one with an identifier, a fraud column and a column with missing values.\<close>

definition cfg_fraud_missing :: "(string \<times> yaml) list" where
  "cfg_fraud_missing = [(''dataset.yaml'', YDict [(''row_count'', YInt 4)]),
     (''schema.yaml'', YDict [(''columns'', YList [YStr ''is_fraud''])]),
     (''evolution.yaml'', YDict [(''fraud_rate'', YFloat (Fin (1 / 2))),
        (''missingness'', YDict [(''is_fraud'', YFloat (Fin (1 / 2)))])])]"

definition cfg_bank :: "(string \<times> yaml) list" where
  "cfg_bank = [(''dataset.yaml'', YDict [(''row_count'', YInt 4)]),
     (''schema.yaml'', YDict [(''columns'', YList [YStr ''id'', YStr ''is_fraud'', YStr ''note''])]),
     (''evolution.yaml'', YDict [(''fraud_rate'', YFloat (Fin (1 / 2))),
        (''missingness'', YDict [(''note'', YFloat (Fin (1 / 2)))])])]"

text \<open>
  What \<^verbatim>\<open>mkstemp\<close> promises for a directory: names that start with \<^verbatim>\<open>tmp\<close>, end
  with the suffix asked for and are not in the directory. The two data files of a
  directory.
\<close>

definition temp_names_ok :: "writer \<Rightarrow> directory \<Rightarrow> bool" where
  "temp_names_ok W d =
     list_all (\<lambda>suffix. take 3 (mkstemp W suffix) = ''tmp'' \<and> endswith (mkstemp W suffix) suffix
                 \<and> d (mkstemp W suffix) = None) [''.parquet'', ''.csv'']"

definition data_files :: "directory \<Rightarrow> node option \<times> node option" where
  "data_files d = (d ''data.parquet'', d ''data.csv'')"










section \<open>Rounding to a double\<close>

lemma py_round_nonneg: "0 \<le> x \<Longrightarrow> 0 \<le> py_round x"
  by (simp add: py_round_def Let_def)

lemma py_round_le: "x \<le> of_int m \<Longrightarrow> py_round x \<le> m"
proof -
  assume a: "x \<le> of_int m"
  hence f: "\<lfloor>x\<rfloor> \<le> m" by (simp add: floor_le_iff)
  show ?thesis
  proof (cases "\<lfloor>x\<rfloor> = m")
    case True
    hence "x - of_int \<lfloor>x\<rfloor> \<le> 0" using a by simp
    thus ?thesis using True by (simp add: py_round_def Let_def)
  next
    case False
    hence "\<lfloor>x\<rfloor> + 1 \<le> m" using f by simp
    thus ?thesis using f by (simp add: py_round_def Let_def)
  qed
qed

lemma fexp_lower:
  assumes "0 < x"
  shows "2 powi (fexp x) \<le> x"
proof -
  obtain p q where pq: "quotient_of x = (p, q)" by (cases "quotient_of x")
  have q: "0 < q" using quotient_of_denom_pos [OF pq] .
  have x: "x = of_int p / of_int q" using quotient_of_div [OF pq] .
  have p: "0 < p" using assms q unfolding x by (simp add: zero_less_divide_iff)
  let ?e = "bitlen p - bitlen q"
  show ?thesis
  proof (cases "2 powi ?e \<le> x")
    case True
    thus ?thesis by (simp add: fexp_def pq Let_def)
  next
    case False
    have bp: "(2::int) ^ nat (bitlen p - 1) \<le> p" using bitlen_bounds [OF p] by simp
    have bq: "q < 2 ^ nat (bitlen q)" using bitlen_bounds [OF q] by simp
    have lp: "1 \<le> bitlen p" using p by (simp add: bitlen_alt_def)
    have lq: "0 \<le> bitlen q" by (rule bitlen_nonneg)
    have "(2::rat) powi (?e - 1) * of_int q \<le> 2 powi (?e - 1) * 2 ^ nat (bitlen q)"
    proof (rule mult_left_mono)
      have "(of_int q :: rat) \<le> of_int (2 ^ nat (bitlen q))" using bq by (simp only: of_int_le_iff)
      thus "(of_int q :: rat) \<le> 2 ^ nat (bitlen q)" by simp
    qed simp
    also have "\<dots> = 2 powi (?e - 1) * 2 powi (bitlen q)"
      using lq by (simp add: power_int_def)
    also have "\<dots> = 2 powi (bitlen p - 1)"
      by (simp add: power_int_add [symmetric])
    also have "\<dots> = 2 ^ nat (bitlen p - 1)"
      using lp by (simp add: power_int_def)
    also have "\<dots> \<le> of_int p"
    proof -
      have "(of_int (2 ^ nat (bitlen p - 1)) :: rat) \<le> of_int p" using bp by (simp only: of_int_le_iff)
      thus ?thesis by simp
    qed
    finally have "(2::rat) powi (?e - 1) \<le> of_int p / of_int q"
      using q by (simp add: pos_le_divide_eq)
    hence "(2::rat) powi (?e - 1) \<le> x" by (simp only: x)
    moreover have "fexp x = ?e - 1" using False by (simp add: fexp_def pq Let_def)
    ultimately show ?thesis by simp
  qed
qed

lemma quantum_pos: "0 < quantum x"
  by (simp add: quantum_def)

lemma dbl_nonneg: "0 \<le> x \<Longrightarrow> 0 \<le> dbl x"
  using quantum_pos [of x] by (simp add: dbl_def py_round_nonneg less_imp_le)

lemma dbl_le_int:
  assumes x: "0 \<le> x" "x \<le> of_int m" and m: "m \<le> 2 ^ 53"
  shows "dbl x \<le> of_int m"
proof (cases "x = 0")
  case True
  thus ?thesis using x by (simp add: dbl_def)
next
  case False
  hence pos: "0 < x" using x by simp
  define j where "j = max (fexp x) (- 1022) - 52"
  have Q: "quantum x = 2 powi j" using pos by (simp add: quantum_def j_def)
  have d: "dbl x = of_int (py_round (x / 2 powi j)) * 2 powi j" using False by (simp add: dbl_def Q)
  show ?thesis
  proof (cases "j \<le> 0")
    case True
    have inv: "(1::rat) / 2 powi j = 2 ^ nat (- j)"
      using True by (simp add: power_int_def field_simps) 
    have "x / 2 powi j \<le> of_int m / 2 powi j" using x by (simp add: divide_right_mono)
    also have "\<dots> = of_int (m * 2 ^ nat (- j))" using inv by (simp add: field_simps)
    finally have "py_round (x / 2 powi j) \<le> m * 2 ^ nat (- j)" by (rule py_round_le)
    hence "(of_int (py_round (x / 2 powi j)) :: rat) \<le> of_int (m * 2 ^ nat (- j))"
      by (simp only: of_int_le_iff)
    hence "of_int (py_round (x / 2 powi j)) * 2 powi j \<le> of_int (m * 2 ^ nat (- j)) * (2::rat) powi j"
      by (rule mult_right_mono) simp
    also have "\<dots> = of_int m" using inv by (simp add: field_simps)
    finally show ?thesis by (simp add: d)
  next
    case False
    hence e: "53 \<le> fexp x" by (simp add: j_def)
    have "(2::rat) ^ 53 = 2 powi 53" by (simp add: power_int_def)
    also have "\<dots> \<le> 2 powi (fexp x)" using e by (intro power_int_increasing) simp_all
    also have "\<dots> \<le> x" by (rule fexp_lower [OF pos])
    finally have lo: "(2::rat) ^ 53 \<le> x" .
    have "(of_int m :: rat) \<le> of_int (2 ^ 53)" using m by (simp only: of_int_le_iff)
    hence hi: "(of_int m :: rat) \<le> 2 ^ 53" by simp
    have xe: "x = 2 ^ 53" using lo hi x by simp
    have me: "(of_int m :: rat) = 2 ^ 53" using lo hi x by simp
    have "dbl ((2::rat) ^ 53) = 2 ^ 53" by code_simp
    thus ?thesis by (simp add: xe me)
  qed
qed

lemma py_round_of_int: "py_round (of_int k) = k"
  by (simp add: py_round_def)

lemma py_round_ge: "of_int m \<le> x \<Longrightarrow> m \<le> py_round x"
proof -
  assume "of_int m \<le> x"
  hence "m \<le> \<lfloor>x\<rfloor>" by (simp add: le_floor_iff)
  thus ?thesis by (simp add: py_round_def Let_def)
qed

lemma fexp_upper:
  assumes "0 < x"
  shows "x < 2 powi (fexp x + 1)"
proof -
  obtain p q where pq: "quotient_of x = (p, q)" by (cases "quotient_of x")
  have q: "0 < q" using quotient_of_denom_pos [OF pq] .
  have x: "x = of_int p / of_int q" using quotient_of_div [OF pq] .
  have p: "0 < p" using assms q unfolding x by (simp add: zero_less_divide_iff)
  let ?e = "bitlen p - bitlen q"
  show ?thesis
  proof (cases "2 powi ?e \<le> x")
    case False
    hence "fexp x = ?e - 1" by (simp add: fexp_def pq Let_def)
    thus ?thesis using False by simp
  next
    case True
    hence fe: "fexp x = ?e" by (simp add: fexp_def pq Let_def)
    have bp: "p < 2 ^ nat (bitlen p)" using bitlen_bounds [OF p] by simp
    have bq: "(2::int) ^ nat (bitlen q - 1) \<le> q" using bitlen_bounds [OF q] by simp
    have lq: "1 \<le> bitlen q" using q by (simp add: bitlen_alt_def)
    have lp: "0 \<le> bitlen p" by (rule bitlen_nonneg)
    have "(of_int p :: rat) < of_int (2 ^ nat (bitlen p))" using bp by (simp only: of_int_less_iff)
    hence "(of_int p :: rat) < 2 ^ nat (bitlen p)" by simp
    also have "\<dots> = 2 powi (bitlen p)" using lp by (simp add: power_int_def)
    also have "\<dots> = 2 powi (?e + 1) * 2 powi (bitlen q - 1)"
      by (simp add: power_int_add [symmetric])
    also have "\<dots> = 2 powi (?e + 1) * 2 ^ nat (bitlen q - 1)"
      using lq by (simp add: power_int_def)
    also have "\<dots> \<le> 2 powi (?e + 1) * of_int q"
    proof (rule mult_left_mono)
      have "(of_int (2 ^ nat (bitlen q - 1)) :: rat) \<le> of_int q" using bq by (simp only: of_int_le_iff)
      thus "(2::rat) ^ nat (bitlen q - 1) \<le> of_int q" by simp
    qed simp
    finally have "of_int p / of_int q < (2::rat) powi (?e + 1)"
      using q by (simp add: pos_divide_less_eq)
    thus ?thesis by (simp only: fe x [symmetric])
  qed
qed

lemma quantum_exp: "\<exists>j. quantum x = 2 powi j \<and> - 1074 \<le> j \<and> j = max (fexp \<bar>x\<bar>) (- 1022) - 52"
  by (simp add: quantum_def)

lemma mantissa_bound:
  assumes "x \<noteq> 0"
  shows "\<bar>py_round (x / quantum x)\<bar> \<le> 2 ^ 53"
proof -
  have pos: "0 < \<bar>x\<bar>" using assms by simp
  define e where "e = fexp \<bar>x\<bar>"
  have Q: "quantum x = 2 powi (max e (- 1022) - 52)" by (simp add: quantum_def e_def)
  have "\<bar>x\<bar> < 2 powi (e + 1)" unfolding e_def by (rule fexp_upper [OF pos])
  also have "\<dots> \<le> 2 powi (max e (- 1022) + 1)" by (intro power_int_increasing) simp_all
  also have "\<dots> = 2 powi (53 + (max e (- 1022) - 52))"
    by (rule arg_cong [where f = "\<lambda>k. 2 powi k"]) simp
  also have "\<dots> = 2 powi 53 * 2 powi (max e (- 1022) - 52)"
    by (rule power_int_add) simp
  also have "\<dots> = 2 ^ 53 * 2 powi (max e (- 1022) - 52)"
    by (simp add: power_int_def)
  finally have lt: "\<bar>x\<bar> < 2 ^ 53 * quantum x" by (simp add: Q)
  have qp: "0 < quantum x" by (rule quantum_pos)
  have "\<bar>x / quantum x\<bar> = \<bar>x\<bar> / quantum x" by (simp add: abs_divide abs_of_pos [OF qp])
  also have "\<dots> < 2 ^ 53" using lt qp by (simp add: pos_divide_less_eq)
  finally have b: "\<bar>x / quantum x\<bar> < 2 ^ 53" .
  from b have b1: "x / quantum x < 2 ^ 53" and b2: "- (x / quantum x) < 2 ^ 53"
    by (simp_all only: abs_less_iff)
  have "x / quantum x \<le> of_int (2 ^ 53)" using b1 by simp
  hence u: "py_round (x / quantum x) \<le> 2 ^ 53" by (rule py_round_le)
  have "of_int (- (2 ^ 53)) \<le> x / quantum x" using b2 by simp
  hence l: "- (2 ^ 53) \<le> py_round (x / quantum x)" by (rule py_round_ge)
  from u l show ?thesis by simp
qed

lemma dbl_exact:
  assumes y: "y = of_int m * 2 powi j" and m: "\<bar>m\<bar> \<le> 2 ^ 53" and j: "- 1074 \<le> j"
  shows "dbl y = y"
proof (cases "y = 0")
  case True
  thus ?thesis by (simp add: dbl_def)
next
  case False
  hence pos: "0 < \<bar>y\<bar>" by simp
  define e where "e = fexp \<bar>y\<bar>"
  define q where "q = max e (- 1022) - 52"
  have Q: "quantum y = 2 powi q" by (simp add: quantum_def e_def q_def)
  have "\<exists>k. y / 2 powi q = of_int k"
  proof (cases "q \<le> j")
    case True
    have "y / 2 powi q = of_int m * 2 powi (j - q)" by (simp add: y power_int_diff)
    also have "\<dots> = of_int m * 2 ^ nat (j - q)" using True by (simp add: power_int_def)
    also have "\<dots> = of_int (m * 2 ^ nat (j - q))" by simp
    finally show ?thesis by blast
  next
    case False
    hence jq: "j < q" by simp
    hence qe: "q = e - 52" using j by (simp add: q_def max_def split: if_splits)
    have "2 powi e \<le> \<bar>y\<bar>" unfolding e_def by (rule fexp_lower [OF pos])
    also have "\<bar>y\<bar> = of_int \<bar>m\<bar> * 2 powi j" by (simp add: y abs_mult)
    finally have "(2::rat) powi e / 2 powi j \<le> of_int \<bar>m\<bar>" by (simp add: pos_divide_le_eq)
    hence ge: "(2::rat) powi (e - j) \<le> of_int \<bar>m\<bar>" by (simp add: power_int_diff)
    have ej: "53 \<le> e - j" using jq qe by simp
    have "(2::rat) ^ 53 = 2 powi 53" by (simp add: power_int_def)
    also have "\<dots> \<le> 2 powi (e - j)" using ej by (intro power_int_increasing) simp_all
    also note ge
    finally have "(of_int (2 ^ 53) :: rat) \<le> of_int \<bar>m\<bar>" by simp
    hence "2 ^ 53 \<le> \<bar>m\<bar>" by (simp only: of_int_le_iff)
    with m have am: "\<bar>m\<bar> = 2 ^ 53" by simp
    have "(2::rat) powi (e - j) \<le> 2 powi 53" using ge am by (simp add: power_int_def)
    hence "e - j \<le> 53" by (rule power_int_le_imp_le_exp [rotated]) simp_all
    with ej have "e - j = 53" by simp
    hence qj: "q = j + 1" using qe by simp
    have half: "y / 2 powi q = of_int m / 2" by (simp add: y qj power_int_add)
    from am have "m = 2 ^ 53 \<or> m = - (2 ^ 53)" by (auto simp: abs_if split: if_splits)
    thus ?thesis
    proof
      assume "m = 2 ^ 53"
      hence "y / 2 powi q = of_int (2 ^ 52)" unfolding half by simp
      thus ?thesis by blast
    next
      assume "m = - (2 ^ 53)"
      hence "y / 2 powi q = of_int (- (2 ^ 52))" unfolding half by simp
      thus ?thesis by blast
    qed
  qed
  then obtain k where k: "y / 2 powi q = of_int k" by blast
  hence yk: "of_int k * 2 powi q = y" by (simp add: field_simps)
  have "dbl y = of_int (py_round (y / 2 powi q)) * 2 powi q"
    using False by (simp add: dbl_def Q)
  also have "\<dots> = of_int k * 2 powi q" by (simp only: k py_round_of_int)
  finally show ?thesis by (simp only: yk)
qed

lemma dbl_idem: "dbl (dbl x) = dbl x"
proof (cases "x = 0")
  case True
  thus ?thesis by (simp add: dbl_def)
next
  case False
  obtain j where j: "quantum x = 2 powi j" "- 1074 \<le> j" using quantum_exp [of x] by blast
  have "dbl x = of_int (py_round (x / quantum x)) * 2 powi j" using False by (simp add: dbl_def j)
  thus ?thesis by (rule dbl_exact) (rule mantissa_bound [OF False], rule j(2))
qed

lemma dbl_of_int: "\<bar>m\<bar> \<le> 2 ^ 53 \<Longrightarrow> dbl (of_int m) = of_int m"
  by (rule dbl_exact [where m = m and j = 0]) simp_all
section \<open>Row count extraction\<close>

lemma to_float_5_2: "to_float (5 / 2) = Fin (5 / 2)"
  by code_simp

lemma extract_row_count_positive:
  "extract_row_count L cfg = Inr n \<Longrightarrow> 0 < n"
  by (cases cfg) (simp_all add: extract_row_count_def Let_def split: if_splits sum.splits)

lemma extract_row_count_missing:
  "dict_get dc ''row_count'' = YNone \<Longrightarrow> dict_get dc ''rows'' = YNone
     \<Longrightarrow> extract_row_count L (YDict dc) = Inl KeyError"
  by (simp add: extract_row_count_def)

lemma extract_row_count_integer:
  "0 < i \<Longrightarrow> extract_row_count L (YDict [(''rows'', YInt i)]) = Inr i"
  by (simp add: extract_row_count_def dict_get_def)

text \<open>
  Claim C6. Row-count extraction is claimed to reject every value that is not a positive
  integer. The source converts with \<^verbatim>\<open>int()\<close>, which truncates a float: the value 2.5
  is accepted as the row count 2, although the error the source raises when the
  conversion fails reads "row_count must be an integer".
\<close>

theorem extract_row_count_truncates_fraction:
  "extract_row_count L (YDict [(''row_count'', YFloat (Fin (5 / 2)))]) = Inr 2"
  by (simp add: extract_row_count_def dict_get_def to_float_5_2 trunc_def floor_eq_iff)

section \<open>Fraud rate resolution\<close>

lemma to_float_1_32: "to_float (1 / 32) = Fin (1 / 32)"
  by code_simp

lemma check_fraud_rate_range:
  "check_fraud_rate L r = Inr (Some f) \<Longrightarrow> f = NaN \<or> (\<exists>q. f = Fin q \<and> 0 \<le> q \<and> q \<le> 1)"
  by (cases f) (auto simp: check_fraud_rate_def split: if_splits sum.splits)

lemma extract_evolution_fraud_rate:
  "extract_evolution L (YDict ec) = Inr evo \<Longrightarrow> check_fraud_rate L (raw_fraud_rate ec) = Inr (fraud_rate evo)"
  by (auto simp: extract_evolution_def split: sum.splits yaml.splits)

lemma check_fraud_rate_rejects:
  "r \<noteq> YNone \<Longrightarrow> \<forall>f. py_float L r = Inr f \<longrightarrow> pf_less f (Fin 0) \<or> pf_less (Fin 1) f
    \<Longrightarrow> check_fraud_rate L r = Inl ValueError"
  by (auto simp: check_fraud_rate_def split: sum.splits)

lemma extract_evolution_rejects:
  "check_fraud_rate L (raw_fraud_rate ec) = Inl e \<Longrightarrow> extract_evolution L (YDict ec) = Inl e"
  by (simp add: extract_evolution_def)

lemma raw_weekly_value:
  "map_of ec ''weekly_changes'' = Some (YList (YDict fw # ws)) \<Longrightarrow> map_of fw ''fraud_rate'' = Some v
     \<Longrightarrow> raw_fraud_rate ec = v"
  by (simp add: raw_fraud_rate_def dict_has_def dict_get_def)

lemma raw_weekly_none:
  "map_of ec ''weekly_changes'' = Some (YList (w # ws)) \<Longrightarrow> \<forall>fw. w = YDict fw \<longrightarrow> map_of fw ''fraud_rate'' = None
     \<Longrightarrow> raw_fraud_rate ec = YNone"
  by (cases w) (simp_all add: raw_fraud_rate_def dict_has_def dict_get_def)

lemma not_weekly:
  assumes "\<forall>w ws. map_of ec ''weekly_changes'' \<noteq> Some (YList (w # ws))"
  shows "\<not> (dict_has ec ''weekly_changes''
         \<and> (case dict_get ec ''weekly_changes'' of YList ws \<Rightarrow> ws \<noteq> [] | _ \<Rightarrow> False))"
proof (cases "map_of ec ''weekly_changes''")
  case None
  then show ?thesis by (simp add: dict_has_def)
next
  case (Some a)
  with assms show ?thesis
    by (cases a) (auto simp: dict_get_def neq_Nil_conv)
qed

lemma raw_top_level:
  assumes "\<forall>w ws. map_of ec ''weekly_changes'' \<noteq> Some (YList (w # ws))"
      and "map_of ec ''fraud_rate'' = Some v"
  shows "raw_fraud_rate ec = v"
  unfolding raw_fraud_rate_def
  by (simp only: not_weekly [OF assms(1)] if_False) (simp add: dict_has_def dict_get_def assms(2))

lemma raw_nested:
  assumes "\<forall>w ws. map_of ec ''weekly_changes'' \<noteq> Some (YList (w # ws))"
      and "map_of ec ''fraud_rate'' = None"
      and "map_of ec ''fraud'' = Some (YDict fr)"
  shows "raw_fraud_rate ec = dict_get fr ''rate''"
  unfolding raw_fraud_rate_def
  by (simp only: not_weekly [OF assms(1)] if_False)
     (simp add: dict_has_def dict_get_def assms(2,3))

text \<open>
  Claim C7, as the source has it. The conventions are tried in order and the first one
  whose container is present decides, also when it holds no rate: a non-empty list
  \<open>weekly_changes\<close> gives the \<open>fraud_rate\<close> of its first entry, or no rate when that
  entry is no mapping with this key; otherwise a top-level key \<open>fraud_rate\<close> gives its
  value; otherwise the mapping \<open>fraud\<close> gives its \<open>rate\<close>. The extracted rate is the
  checked raw rate; a finite checked rate lies in [0, 1]; a raw rate that does not
  convert to a float in range fails the extraction with ValueError.
\<close>

theorem fraud_rate_resolution:
  "(map_of ec ''weekly_changes'' = Some (YList (YDict fw # ws)) \<and> map_of fw ''fraud_rate'' = Some v
      \<longrightarrow> raw_fraud_rate ec = v)
   \<and> (map_of ec ''weekly_changes'' = Some (YList (w # ws))
        \<and> (\<forall>m. w = YDict m \<longrightarrow> map_of m ''fraud_rate'' = None)
      \<longrightarrow> raw_fraud_rate ec = YNone)
   \<and> ((\<forall>x xs. map_of ec ''weekly_changes'' \<noteq> Some (YList (x # xs)))
        \<and> map_of ec ''fraud_rate'' = Some v
      \<longrightarrow> raw_fraud_rate ec = v)
   \<and> ((\<forall>x xs. map_of ec ''weekly_changes'' \<noteq> Some (YList (x # xs)))
        \<and> map_of ec ''fraud_rate'' = None \<and> map_of ec ''fraud'' = Some (YDict fr)
      \<longrightarrow> raw_fraud_rate ec = dict_get fr ''rate'')
   \<and> (extract_evolution L (YDict ec) = Inr evo
      \<longrightarrow> check_fraud_rate L (raw_fraud_rate ec) = Inr (fraud_rate evo))
   \<and> (check_fraud_rate L r = Inr (Some f)
      \<longrightarrow> f = NaN \<or> (\<exists>q. f = Fin q \<and> 0 \<le> q \<and> q \<le> 1))
   \<and> (raw_fraud_rate ec \<noteq> YNone
        \<and> (\<forall>g. py_float L (raw_fraud_rate ec) = Inr g \<longrightarrow> pf_less g (Fin 0) \<or> pf_less (Fin 1) g)
      \<longrightarrow> extract_evolution L (YDict ec) = Inl ValueError)"
  using raw_weekly_value [of ec fw ws v] raw_weekly_none [of ec w ws] raw_top_level [of ec v]
    raw_nested [of ec fr] extract_evolution_fraud_rate [of L ec evo] check_fraud_rate_range [of L r f]
    check_fraud_rate_rejects [of "raw_fraud_rate ec" L]
    extract_evolution_rejects [of L ec ValueError]
  by blast

text \<open>The theorem at a configuration that uses the last convention, \<open>fraud.rate\<close>.\<close>

theorem fraud_rate_resolution_witness:
  "raw_fraud_rate evo_nested = YFloat (Fin (1 / 32))
   \<and> extract_evolution lib0 (YDict evo_nested) = Inr \<lparr>fraud_rate = Some (Fin (1 / 32)), missingness = []\<rparr>
   \<and> check_fraud_rate lib0 (raw_fraud_rate evo_nested) = Inr (Some (Fin (1 / 32)))"
proof -
  have h1: "\<forall>x xs. map_of evo_nested ''weekly_changes'' \<noteq> Some (YList (x # xs))"
    by (simp add: evo_nested_def)
  have h2: "map_of evo_nested ''fraud_rate'' = None"
    by (simp add: evo_nested_def)
  have h3: "map_of evo_nested ''fraud'' = Some (YDict [(''rate'', YFloat (Fin (1 / 32)))])"
    by (simp add: evo_nested_def)
  note T = fraud_rate_resolution [where ec = evo_nested and L = lib0
      and fr = "[(''rate'', YFloat (Fin (1 / 32)))]"
      and evo = "\<lparr>fraud_rate = Some (Fin (1 / 32)), missingness = []\<rparr>"]
  have raw: "raw_fraud_rate evo_nested = YFloat (Fin (1 / 32))"
    using T h1 h2 h3 by (simp add: dict_get_def)
  have ev: "extract_evolution lib0 (YDict evo_nested)
      = Inr \<lparr>fraud_rate = Some (Fin (1 / 32)), missingness = []\<rparr>"
    by (simp add: extract_evolution_def raw check_fraud_rate_def to_float_1_32)
       (simp add: evo_nested_def dict_get_def)
  from T ev have "check_fraud_rate lib0 (raw_fraud_rate evo_nested) = Inr (Some (Fin (1 / 32)))"
    by simp
  with raw ev show ?thesis by simp
qed

text \<open>
  Claim C7 as stated fails: a rate under the top-level key is not used when
  \<open>weekly_changes\<close> is a non-empty list whose first entry has no rate.
\<close>

theorem later_convention_shadowed:
  "map_of evo_shadowed ''fraud_rate'' = Some (YFloat (Fin (1 / 10)))
   \<and> extract_evolution lib0 (YDict evo_shadowed) = Inr \<lparr>fraud_rate = None, missingness = []\<rparr>"
  by (simp add: evo_shadowed_def extract_evolution_def raw_fraud_rate_def check_fraud_rate_def
      dict_get_def dict_has_def)

section \<open>Generation\<close>

lemma generate_column_account_small:
  assumes "lower name = ''account_id''" and "0 < rows" and "rows < 10"
  shows "generate_column np rs name rows = Inl ValueError"
  using assms by (simp add: generate_column_def rs_choice_def)

lemma generate_one_account_small:
  assumes "lower name = ''account_id''" and "0 < rows" and "rows < 10"
  shows "generate_one np L seed rows evo (YStr name) = Inl ValueError"
  by (simp add: generate_one_def column_values_def generate_column_account_small [OF assms])

lemma generate_loop_fails:
  "c \<in> set columns \<Longrightarrow> generate_one np L seed rows evo c = Inl e
     \<Longrightarrow> \<exists>e'. generate_loop np L seed rows evo columns data = Inl e'"
proof (induction columns arbitrary: data)
  case Nil
  then show ?case by simp
next
  case (Cons a columns)
  show ?case
  proof (cases "generate_one np L seed rows evo a")
    case (Inl e0)
    then show ?thesis by simp
  next
    case (Inr p)
    with Cons.prems have "c \<in> set columns" by auto
    from Cons.IH [OF this Cons.prems(2)] Inr show ?thesis
      by (cases p) simp
  qed
qed

lemma generate_dataset_table_Inr:
  assumes "generate_dataset_table np L dataset_dir configs run_dir = Inr df"
  shows "\<exists>columns rows evo data.
           extract_columns (dict_get configs ''schema.yaml'') = Inr columns
           \<and> extract_row_count L (dict_get configs ''dataset.yaml'') = Inr rows
           \<and> extract_evolution L (dict_get configs ''evolution.yaml'') = Inr evo
           \<and> generate_loop np L (derive_seed L dataset_dir run_dir) (nat rows) evo columns [] = Inr data
           \<and> (\<exists>fd. frame_dict data columns [] = Inr fd \<and> pd_DataFrame fd = Inr df)"
proof (cases "require_configs configs")
  case (Inl e)
  with assms show ?thesis unfolding generate_dataset_table_def by simp
next
  case rq: (Inr u)
  show ?thesis
  proof (cases "extract_columns (dict_get configs ''schema.yaml'')")
    case (Inl e)
    with assms rq show ?thesis unfolding generate_dataset_table_def by simp
  next
    case cols: (Inr columns)
    show ?thesis
    proof (cases "extract_row_count L (dict_get configs ''dataset.yaml'')")
      case (Inl e)
      with assms rq cols show ?thesis unfolding generate_dataset_table_def by simp
    next
      case rc: (Inr rows)
      show ?thesis
      proof (cases "extract_evolution L (dict_get configs ''evolution.yaml'')")
        case (Inl e)
        with assms rq cols rc show ?thesis unfolding generate_dataset_table_def by simp
      next
        case ev: (Inr evo)
        show ?thesis
        proof (cases "generate_loop np L (derive_seed L dataset_dir run_dir) (nat rows) evo columns []")
          case (Inl e)
          with assms rq cols rc ev show ?thesis unfolding generate_dataset_table_def by simp
        next
          case lp: (Inr data)
          show ?thesis
          proof (cases "frame_dict data columns []")
            case (Inl e)
            with assms rq cols rc ev lp show ?thesis unfolding generate_dataset_table_def by simp
          next
            case (Inr fd)
            with assms rq cols rc ev lp show ?thesis unfolding generate_dataset_table_def by simp
          qed
        qed
      qed
    qed
  qed
qed

text \<open>
  Claim C9. When the schema has a column whose lowered name is \<open>account_id\<close> and the
  configured row count is below 10, generation fails and writes nothing: the pool of
  accounts has \<open>min 5000 (rows div 10) = 0\<close> entries, and a draw of \<open>rows > 0\<close> values
  from an empty pool raises ValueError.
\<close>

theorem account_id_small_row_count_fails:
  assumes cols: "extract_columns (dict_get configs ''schema.yaml'') = Inr columns"
      and mem: "YStr name \<in> set columns"
      and acc: "lower name = ''account_id''"
      and small: "\<forall>n. extract_row_count L (dict_get configs ''dataset.yaml'') = Inr n \<longrightarrow> n < 10"
  shows "(\<exists>e. generate_dataset np L W dataset_dir configs run_dir d = (Inl e, d))
         \<and> (\<forall>rows rs. 0 < rows \<and> rows < 10 \<longrightarrow> generate_column np rs name rows = Inl ValueError)"
proof
  have no: "generate_dataset_table np L dataset_dir configs run_dir \<noteq> Inr df" for df
  proof
    assume "generate_dataset_table np L dataset_dir configs run_dir = Inr df"
    from generate_dataset_table_Inr [OF this] cols
    obtain rows evo data where
      rc: "extract_row_count L (dict_get configs ''dataset.yaml'') = Inr rows" and
      lp: "generate_loop np L (derive_seed L dataset_dir run_dir) (nat rows) evo columns [] = Inr data"
      by auto
    have "0 < rows" by (rule extract_row_count_positive [OF rc])
    moreover have "rows < 10" using small rc by blast
    ultimately have "0 < nat rows" "nat rows < 10" by simp_all
    then have "generate_one np L (derive_seed L dataset_dir run_dir) (nat rows) evo (YStr name) = Inl ValueError"
      by (rule generate_one_account_small [OF acc])
    from generate_loop_fails [OF mem this, of "[]"] lp show False by simp
  qed
  then obtain e where "generate_dataset_table np L dataset_dir configs run_dir = Inl e"
    by (cases "generate_dataset_table np L dataset_dir configs run_dir") auto
  then show "\<exists>e. generate_dataset np L W dataset_dir configs run_dir d = (Inl e, d)"
    by (simp add: generate_dataset_def)
next
  show "\<forall>rows rs. 0 < rows \<and> rows < 10 \<longrightarrow> generate_column np rs name rows = Inl ValueError"
    by (simp add: generate_column_account_small [OF acc])
qed

text \<open>The theorem at a schema with \<open>Account_ID\<close> and nine rows.\<close>

theorem account_id_small_row_count_fails_witness:
  "(\<exists>e. generate_dataset np0 lib0 writer0 ''datasets/bank'' cfg_small ''runs/bank/v1'' Map.empty
          = (Inl e, Map.empty))
   \<and> generate_column np0 0 ''Account_ID'' 9 = Inl ValueError"
proof -
  have cols: "extract_columns (dict_get cfg_small ''schema.yaml'')
      = Inr [YStr ''id'', YStr ''Account_ID'']"
    by (simp add: cfg_small_def extract_columns_def dict_get_def dict_has_def)
  have mem: "YStr ''Account_ID'' \<in> set [YStr ''id'', YStr ''Account_ID'']"
    by simp
  have acc: "lower ''Account_ID'' = ''account_id''"
    by code_simp
  have "extract_row_count lib0 (dict_get cfg_small ''dataset.yaml'') = Inr 9"
    by (simp add: cfg_small_def extract_row_count_def dict_get_def)
  then have small: "\<forall>n. extract_row_count lib0 (dict_get cfg_small ''dataset.yaml'') = Inr n \<longrightarrow> n < 10"
    by simp
  from account_id_small_row_count_fails [OF cols mem acc small, of np0 writer0 "''datasets/bank''"
      "''runs/bank/v1''" Map.empty]
  show ?thesis by simp
qed

subsection \<open>The table is a function of the name, the version and the configuration\<close>

lemma generate_one_name:
  "generate_one np L seed rows evo c = Inr (nm, a) \<Longrightarrow> c = YStr nm"
  by (cases c) (auto simp: generate_one_def Let_def split: sum.splits prod.splits if_splits)

lemma generate_loop_Inr:
  "generate_loop np L seed rows evo columns data0 = Inr data
     \<Longrightarrow> (\<forall>c \<in> set columns. \<exists>nm a. c = YStr nm \<and> generate_one np L seed rows evo c = Inr (nm, a)
                                   \<and> map_of data nm = Some a)
         \<and> (\<forall>nm. YStr nm \<notin> set columns \<longrightarrow> map_of data nm = map_of data0 nm)"
proof (induction columns arbitrary: data0)
  case Nil
  then show ?case by simp
next
  case (Cons c cs)
  from Cons.prems obtain nm a where g: "generate_one np L seed rows evo c = Inr (nm, a)"
    and rest: "generate_loop np L seed rows evo cs (AList.update nm a data0) = Inr data"
    by (cases "generate_one np L seed rows evo c") auto
  have c: "c = YStr nm" by (rule generate_one_name [OF g])
  note ih = Cons.IH [OF rest]
  show ?case
  proof (intro conjI ballI allI impI)
    fix x assume x: "x \<in> set (c # cs)"
    show "\<exists>nm a. x = YStr nm \<and> generate_one np L seed rows evo x = Inr (nm, a) \<and> map_of data nm = Some a"
    proof (cases "x \<in> set cs")
      case True
      with ih show ?thesis by blast
    next
      case False
      with x have xc: "x = c" by simp
      from False xc c have "YStr nm \<notin> set cs" by simp
      with ih have "map_of data nm = map_of (AList.update nm a data0) nm" by blast
      then have "map_of data nm = Some a" by (simp add: update_conv')
      with xc c g show ?thesis by blast
    qed
  next
    fix nm' assume "YStr nm' \<notin> set (c # cs)"
    then have "YStr nm' \<notin> set cs" "nm' \<noteq> nm" using c by auto
    with ih show "map_of data nm' = map_of data0 nm'" by (simp add: update_conv')
  qed
qed

lemma frame_dict_Inr:
  "frame_dict data columns acc = Inr fd
     \<Longrightarrow> (\<forall>nm. map_of fd nm = (if YStr nm \<in> set columns then map_of data nm else map_of acc nm))
         \<and> (distinct (map fst acc) \<longrightarrow> distinct (map fst fd))
         \<and> (distinct columns \<and> (\<forall>nm \<in> fst ` set acc. YStr nm \<notin> set columns)
              \<longrightarrow> map YStr (map fst fd) = map YStr (map fst acc) @ columns)"
proof (induction data columns acc rule: frame_dict.induct)
  case (1 data acc)
  then show ?case by simp
next
  case (2 data nm names acc)
  from "2.prems" obtain a where a: "map_of data nm = Some a"
    and rest: "frame_dict data names (AList.update nm a acc) = Inr fd"
    by (cases "map_of data nm") auto
  note ih = "2.IH" [OF a rest]
  show ?case
  proof (intro conjI allI impI)
    fix nm'
    show "map_of fd nm' = (if YStr nm' \<in> set (YStr nm # names) then map_of data nm' else map_of acc nm')"
      using ih a by (auto simp: update_conv')
  next
    assume "distinct (map fst acc)"
    then have "distinct (map fst (AList.update nm a acc))" by (rule distinct_update)
    with ih show "distinct (map fst fd)" by blast
  next
    assume h: "distinct (YStr nm # names) \<and> (\<forall>nm' \<in> fst ` set acc. YStr nm' \<notin> set (YStr nm # names))"
    then have fresh: "nm \<notin> set (map fst acc)" by auto
    then have keys: "map fst (AList.update nm a acc) = map fst acc @ [nm]"
      by (simp add: update_keys)
    have "distinct names \<and> (\<forall>nm' \<in> fst ` set (AList.update nm a acc). YStr nm' \<notin> set names)"
    proof (intro conjI ballI)
      show "distinct names" using h by simp
      fix nm' assume "nm' \<in> fst ` set (AList.update nm a acc)"
      then have "nm' \<in> set (map fst (AList.update nm a acc))" by simp
      then have "nm' = nm \<or> nm' \<in> fst ` set acc" unfolding keys by auto
      then show "YStr nm' \<notin> set names" using h by auto
    qed
    with ih have "map YStr (map fst fd) = map YStr (map fst (AList.update nm a acc)) @ names"
      by blast
    then show "map YStr (map fst fd) = map YStr (map fst acc) @ YStr nm # names"
      by (simp add: keys)
  qed
qed simp_all

lemma pd_DataFrame_columns:
  "pd_DataFrame fd = Inr df \<Longrightarrow> df_columns df = map (\<lambda>(nm, b). (nm, as_series b)) fd"
  by (cases fd) (auto simp: pd_DataFrame_def split: if_splits)

lemma table_columns:
  assumes lp: "generate_loop np L seed rows evo columns [] = Inr data"
      and fr: "frame_dict data columns [] = Inr fd"
      and df: "pd_DataFrame fd = Inr df"
  shows "(distinct columns \<longrightarrow> map YStr (map fst (df_columns df)) = columns)
         \<and> (\<forall>(nm, a) \<in> set (df_columns df).
               YStr nm \<in> set columns
               \<and> (\<exists>g. generate_one np L seed rows evo (YStr nm) = Inr (nm, g) \<and> a = as_series g))"
proof
  note f = frame_dict_Inr [OF fr]
  have cols: "df_columns df = map (\<lambda>(nm, b). (nm, as_series b)) fd"
    by (rule pd_DataFrame_columns [OF df])
  have keys: "map fst (df_columns df) = map fst fd"
    unfolding cols by (induction fd) auto
  show "distinct columns \<longrightarrow> map YStr (map fst (df_columns df)) = columns"
    using f unfolding keys by simp
  have dist: "distinct (map fst fd)" using f by simp
  show "\<forall>(nm, a) \<in> set (df_columns df).
               YStr nm \<in> set columns
               \<and> (\<exists>g. generate_one np L seed rows evo (YStr nm) = Inr (nm, g) \<and> a = as_series g)"
  proof (clarify)
    fix nm a assume "(nm, a) \<in> set (df_columns df)"
    then obtain b where b: "(nm, b) \<in> set fd" and ab: "a = as_series b"
      unfolding cols by auto
    from b dist have m: "map_of fd nm = Some b" by simp
    have mem: "YStr nm \<in> set columns"
    proof (rule ccontr)
      assume "YStr nm \<notin> set columns"
      with f have "map_of fd nm = map_of [] nm" by simp
      with m show False by simp
    qed
    with f m have d: "map_of data nm = Some b" by simp
    from generate_loop_Inr [OF lp] mem obtain nm' g where
      "YStr nm = YStr nm'" "generate_one np L seed rows evo (YStr nm) = Inr (nm', g)"
      "map_of data nm' = Some g"
      by blast
    with d have "generate_one np L seed rows evo (YStr nm) = Inr (nm, b)" by simp
    with mem ab show "YStr nm \<in> set columns
        \<and> (\<exists>g. generate_one np L seed rows evo (YStr nm) = Inr (nm, g) \<and> a = as_series g)"
      by blast
  qed
qed

lemma endswith_last:
  assumes "endswith s suf" and "suf \<noteq> []"
  shows "last s = last suf"
proof -
  from assms have le: "length suf \<le> length s" and dr: "drop (length s - length suf) s = suf"
    by (simp_all add: endswith_def)
  from assms(2) le have "length s - length suf < length s" by (cases suf) simp_all
  then have "last (drop (length s - length suf) s) = last s" by (rule last_drop)
  then show ?thesis by (simp add: dr)
qed

lemma temp_names:
  assumes "temp_names_ok W d"
  shows "d (mkstemp W ''.parquet'') = None" and "d (mkstemp W ''.csv'') = None"
    and "mkstemp W ''.parquet'' \<noteq> mkstemp W ''.csv''"
    and "mkstemp W ''.parquet'' \<noteq> ''data.parquet''" and "mkstemp W ''.parquet'' \<noteq> ''data.csv''"
    and "mkstemp W ''.csv'' \<noteq> ''data.parquet''" and "mkstemp W ''.csv'' \<noteq> ''data.csv''"
proof -
  from assms have p: "take 3 (mkstemp W ''.parquet'') = ''tmp''" "endswith (mkstemp W ''.parquet'') ''.parquet''"
      "d (mkstemp W ''.parquet'') = None"
    and c: "take 3 (mkstemp W ''.csv'') = ''tmp''" "endswith (mkstemp W ''.csv'') ''.csv''"
      "d (mkstemp W ''.csv'') = None"
    by (simp_all add: temp_names_ok_def)
  show "d (mkstemp W ''.parquet'') = None" "d (mkstemp W ''.csv'') = None" by (rule p(3), rule c(3))
  have "last (mkstemp W ''.parquet'') = CHR ''t''" using endswith_last [OF p(2)] by simp
  moreover have "last (mkstemp W ''.csv'') = CHR ''v''" using endswith_last [OF c(2)] by simp
  ultimately show "mkstemp W ''.parquet'' \<noteq> mkstemp W ''.csv''" by auto
  show "mkstemp W ''.parquet'' \<noteq> ''data.parquet''" "mkstemp W ''.parquet'' \<noteq> ''data.csv''"
    using p(1) by auto
  show "mkstemp W ''.csv'' \<noteq> ''data.parquet''" "mkstemp W ''.csv'' \<noteq> ''data.csv''"
    using c(1) by auto
qed

text \<open>
  With temporary names as \<^verbatim>\<open>mkstemp\<close> promises them, the outcome and the two data files
  do not depend on the names: only a temporary file that a failed rename leaves behind
  carries one.
\<close>

lemma write_csv_fresh:
  assumes c: "d (mkstemp W ''.csv'') = None" and n: "mkstemp W ''.csv'' \<noteq> ''data.csv''"
  shows "write_csv W df d =
           (if \<not> to_csv_ok W df then (Inl OSError, d)
            else if d ''data.csv'' = Some Dir
            then (Inl OSError, d(mkstemp W ''.csv'' \<mapsto> File (Tabular df)))
            else (Inr (), d(''data.csv'' \<mapsto> File (Tabular df))))"
proof -
  have restore: "d(mkstemp W ''.csv'' := None) = d"
    using c by (auto simp: fun_eq_iff)
  show ?thesis
    using n by (simp add: write_csv_def Let_def restore)
qed

lemma write_dataframe_fresh:
  assumes "temp_names_ok W d"
  shows "write_dataframe W df d =
           (if to_parquet_ok W df \<and> d ''data.parquet'' \<noteq> Some Dir
            then (Inr (), d(''data.parquet'' \<mapsto> File (Tabular df)))
            else write_csv W df
                   (if to_parquet_ok W df then d(mkstemp W ''.parquet'' \<mapsto> File (Tabular df)) else d))"
proof -
  note t = temp_names [OF assms]
  have restore: "d(mkstemp W ''.parquet'' := None) = d"
    using t(1) by (auto simp: fun_eq_iff)
  show ?thesis
    using t(4) by (simp add: write_dataframe_def Let_def restore)
qed

lemma write_dataframe_outcome:
  assumes "temp_names_ok W d"
  shows "fst (write_dataframe W df d)
           = (if to_parquet_ok W df \<and> d ''data.parquet'' \<noteq> Some Dir then Inr ()
              else if to_csv_ok W df \<and> d ''data.csv'' \<noteq> Some Dir then Inr () else Inl OSError)"
    and "data_files (snd (write_dataframe W df d))
           = (if to_parquet_ok W df \<and> d ''data.parquet'' \<noteq> Some Dir
              then (Some (File (Tabular df)), d ''data.csv'')
              else if to_csv_ok W df \<and> d ''data.csv'' \<noteq> Some Dir
              then (d ''data.parquet'', Some (File (Tabular df)))
              else (d ''data.parquet'', d ''data.csv''))"
proof -
  note t = temp_names [OF assms]
  let ?d0 = "if to_parquet_ok W df then d(mkstemp W ''.parquet'' \<mapsto> File (Tabular df)) else d"
  have c: "?d0 (mkstemp W ''.csv'') = None" using t(2,3) by simp
  have e: "?d0 ''data.csv'' = d ''data.csv''" "?d0 ''data.parquet'' = d ''data.parquet''"
    using t(4,5) by simp_all
  note w = write_csv_fresh [of ?d0 W df, OF c t(7)]
  show "fst (write_dataframe W df d)
           = (if to_parquet_ok W df \<and> d ''data.parquet'' \<noteq> Some Dir then Inr ()
              else if to_csv_ok W df \<and> d ''data.csv'' \<noteq> Some Dir then Inr () else Inl OSError)"
    unfolding write_dataframe_fresh [OF assms] w e by simp
  show "data_files (snd (write_dataframe W df d))
           = (if to_parquet_ok W df \<and> d ''data.parquet'' \<noteq> Some Dir
              then (Some (File (Tabular df)), d ''data.csv'')
              else if to_csv_ok W df \<and> d ''data.csv'' \<noteq> Some Dir
              then (d ''data.parquet'', Some (File (Tabular df)))
              else (d ''data.parquet'', d ''data.csv''))"
    unfolding write_dataframe_fresh [OF assms] w e
    using t(4,5,6,7) by (simp add: data_files_def)
qed

text \<open>
  Claim C1. Two invocations with the same dataset name, the same version (the last
  components of the two directory paths) and the same configuration build the same
  table, whatever else the paths are and whatever names \<^verbatim>\<open>mkstemp\<close> draws for the
  temporary files: they end with the same outcome and the same two data files in equal
  run directories. The table of a successful run has the columns of the schema, in its
  order when the names are distinct, and each column is what the loop body generates
  for its name from the seed, the row count and the evolution parameters alone, as a
  column of a frame; a successful write leaves this table as one of the two data files.
\<close>

theorem generate_dataset_deterministic:
  assumes ds: "os_path_basename L (os_path_normpath L dataset_dir1)
                 = os_path_basename L (os_path_normpath L dataset_dir2)"
      and rd: "os_path_basename L (os_path_normpath L run_dir1)
                 = os_path_basename L (os_path_normpath L run_dir2)"
      and wp: "to_parquet_ok W1 = to_parquet_ok W2" and wc: "to_csv_ok W1 = to_csv_ok W2"
      and t1: "temp_names_ok W1 d" and t2: "temp_names_ok W2 d"
  shows "generate_dataset_table np L dataset_dir1 configs run_dir1
           = generate_dataset_table np L dataset_dir2 configs run_dir2
         \<and> fst (generate_dataset np L W1 dataset_dir1 configs run_dir1 d)
           = fst (generate_dataset np L W2 dataset_dir2 configs run_dir2 d)
         \<and> data_files (snd (generate_dataset np L W1 dataset_dir1 configs run_dir1 d))
           = data_files (snd (generate_dataset np L W2 dataset_dir2 configs run_dir2 d))
         \<and> (\<forall>df. generate_dataset_table np L dataset_dir1 configs run_dir1 = Inr df \<longrightarrow>
               (\<exists>columns rows evo.
                   extract_columns (dict_get configs ''schema.yaml'') = Inr columns
                 \<and> extract_row_count L (dict_get configs ''dataset.yaml'') = Inr rows
                 \<and> extract_evolution L (dict_get configs ''evolution.yaml'') = Inr evo
                 \<and> (distinct columns \<longrightarrow> map YStr (map fst (df_columns df)) = columns)
                 \<and> (\<forall>(nm, a) \<in> set (df_columns df).
                       YStr nm \<in> set columns
                       \<and> (\<exists>g. generate_one np L (derive_seed L dataset_dir1 run_dir1) (nat rows) evo
                                 (YStr nm) = Inr (nm, g) \<and> a = as_series g)))
               \<and> (fst (generate_dataset np L W1 dataset_dir1 configs run_dir1 d) = Inr ()
                    \<longrightarrow> fst (data_files (snd (generate_dataset np L W1 dataset_dir1 configs run_dir1 d)))
                          = Some (File (Tabular df))
                        \<or> snd (data_files (snd (generate_dataset np L W1 dataset_dir1 configs run_dir1 d)))
                          = Some (File (Tabular df))))"
proof (intro conjI allI impI)
  have seed: "derive_seed L dataset_dir1 run_dir1 = derive_seed L dataset_dir2 run_dir2"
    unfolding derive_seed_def by (simp only: ds rd)
  show tab: "generate_dataset_table np L dataset_dir1 configs run_dir1
           = generate_dataset_table np L dataset_dir2 configs run_dir2"
    unfolding generate_dataset_table_def by (simp only: seed)
  show "fst (generate_dataset np L W1 dataset_dir1 configs run_dir1 d)
           = fst (generate_dataset np L W2 dataset_dir2 configs run_dir2 d)"
    unfolding generate_dataset_def tab
    by (cases "generate_dataset_table np L dataset_dir2 configs run_dir2")
       (simp_all add: write_dataframe_outcome(1) [OF t1] write_dataframe_outcome(1) [OF t2] wp wc)
  show "data_files (snd (generate_dataset np L W1 dataset_dir1 configs run_dir1 d))
           = data_files (snd (generate_dataset np L W2 dataset_dir2 configs run_dir2 d))"
    unfolding generate_dataset_def tab
    by (cases "generate_dataset_table np L dataset_dir2 configs run_dir2")
       (simp_all add: write_dataframe_outcome(2) [OF t1] write_dataframe_outcome(2) [OF t2] wp wc)
next
  fix df assume df: "generate_dataset_table np L dataset_dir1 configs run_dir1 = Inr df"
  from generate_dataset_table_Inr [OF df] obtain columns rows evo data fd where
    c: "extract_columns (dict_get configs ''schema.yaml'') = Inr columns" and
    r: "extract_row_count L (dict_get configs ''dataset.yaml'') = Inr rows" and
    e: "extract_evolution L (dict_get configs ''evolution.yaml'') = Inr evo" and
    lp: "generate_loop np L (derive_seed L dataset_dir1 run_dir1) (nat rows) evo columns [] = Inr data" and
    fr: "frame_dict data columns [] = Inr fd" and pd: "pd_DataFrame fd = Inr df"
    by blast
  from table_columns [OF lp fr pd] c r e
  show "\<exists>columns rows evo.
                   extract_columns (dict_get configs ''schema.yaml'') = Inr columns
                 \<and> extract_row_count L (dict_get configs ''dataset.yaml'') = Inr rows
                 \<and> extract_evolution L (dict_get configs ''evolution.yaml'') = Inr evo
                 \<and> (distinct columns \<longrightarrow> map YStr (map fst (df_columns df)) = columns)
                 \<and> (\<forall>(nm, a) \<in> set (df_columns df).
                       YStr nm \<in> set columns
                       \<and> (\<exists>g. generate_one np L (derive_seed L dataset_dir1 run_dir1) (nat rows) evo
                                 (YStr nm) = Inr (nm, g) \<and> a = as_series g))"
    by blast
next
  fix df assume df: "generate_dataset_table np L dataset_dir1 configs run_dir1 = Inr df"
    and ok: "fst (generate_dataset np L W1 dataset_dir1 configs run_dir1 d) = Inr ()"
  from ok show "fst (data_files (snd (generate_dataset np L W1 dataset_dir1 configs run_dir1 d)))
                          = Some (File (Tabular df))
                        \<or> snd (data_files (snd (generate_dataset np L W1 dataset_dir1 configs run_dir1 d)))
                          = Some (File (Tabular df))"
    unfolding generate_dataset_def df
    by (simp add: write_dataframe_outcome [OF t1] split: if_splits)
qed

text \<open>The generator on the configuration \<open>cfg_bank\<close>: four rows of an identifier, a fraud
  label at the rate 0.5 and a text column with the missingness ratio 0.5.\<close>

lemma to_float_half: "to_float (1 / 2) = Fin (1 / 2)"
  by code_simp

lemma np0_RandomState: "np_RandomState np0 s = s"
  by (simp add: np0_def)

lemma seed_bank: "derive_seed lib0 ''datasets/bank'' ''runs/bank/v1'' = 125"
  by (simp add: derive_seed_def lib0_def from_bytes_big_def)

lemma col_hash_bank:
  "deterministic_col_hash lib0 ''id'' = 2"
  "deterministic_col_hash lib0 ''is_fraud'' = 8"
  "deterministic_col_hash lib0 ''note'' = 4"
  by (simp_all add: deterministic_col_hash_def lib0_def from_bytes_big_def)

lemma fraud_names_bank:
  "\<not> is_fraud_name ''id''" "is_fraud_name ''is_fraud''" "\<not> is_fraud_name ''note''"
  by code_simp+

lemma columns_bank:
  "extract_columns (dict_get cfg_bank ''schema.yaml'')
     = Inr [YStr ''id'', YStr ''is_fraud'', YStr ''note'']"
  by (simp add: cfg_bank_def extract_columns_def dict_get_def dict_has_def)

lemma rows_bank: "extract_row_count lib0 (dict_get cfg_bank ''dataset.yaml'') = Inr 4"
  by (simp add: cfg_bank_def extract_row_count_def dict_get_def)

lemma evolution_bank:
  "extract_evolution lib0 (dict_get cfg_bank ''evolution.yaml'')
     = Inr \<lparr>fraud_rate = Some (Fin (1 / 2)), missingness = [(''note'', YFloat (Fin (1 / 2)))]\<rparr>"
  by (simp add: cfg_bank_def extract_evolution_def dict_get_def dict_has_def raw_fraud_rate_def
      check_fraud_rate_def to_float_half)

lemma values_id:
  "generate_column np0 127 ''id'' 4 = Inr (NdArray Int64 [CInt 1, CInt 2, CInt 3, CInt 4], 127)"
  by code_simp

lemma values_is_fraud:
  "generate_column np0 133 ''is_fraud'' 4 = Inr (NdArray Int8 [CInt 0, CInt 0, CInt 0, CInt 0], 133)"
  by code_simp

lemma labels_is_fraud:
  "assign_fraud np0 133 4 (Fin (1 / 2)) = Inr (NdArray Int8 [CInt 1, CInt 0, CInt 0, CInt 1], 137)"
  by code_simp

lemma values_note:
  "generate_column np0 129 ''note'' 4
     = Inr (NdArray Object [CStr ''val_0'', CStr ''val_1'', CStr ''val_2'', CStr ''val_3''], 129)"
  by code_simp

lemma missing_note:
  "apply_missingness np0 129
       (NdArray Object [CStr ''val_0'', CStr ''val_1'', CStr ''val_2'', CStr ''val_3''])
       (Some (Fin (1 / 2)))
     = Inr (NdArray Object [CNone, CNone, CStr ''val_2'', CStr ''val_3''], 133)"
  by code_simp

lemma table_bank:
  "generate_dataset_table np0 lib0 ''datasets/bank'' cfg_bank ''runs/bank/v1''
     = Inr (DataFrame 4
         [(''id'', NdArray Int64 [CInt 1, CInt 2, CInt 3, CInt 4]),
          (''is_fraud'', NdArray Int8 [CInt 1, CInt 0, CInt 0, CInt 1]),
          (''note'', NdArray Object [CNone, CNone, CStr ''val_2'', CStr ''val_3''])])"
proof -
  let ?evo = "\<lparr>fraud_rate = Some (Fin (1 / 2)), missingness = [(''note'', YFloat (Fin (1 / 2)))]\<rparr>"
  have g1: "generate_one np0 lib0 125 4 ?evo (YStr ''id'')
      = Inr (''id'', NdArray Int64 [CInt 1, CInt 2, CInt 3, CInt 4])"
    by (simp add: generate_one_def column_values_def col_hash_bank np0_RandomState values_id
          fraud_names_bank dict_get_def)
  have g2: "generate_one np0 lib0 125 4 ?evo (YStr ''is_fraud'')
      = Inr (''is_fraud'', NdArray Int8 [CInt 1, CInt 0, CInt 0, CInt 1])"
    by (simp add: generate_one_def column_values_def col_hash_bank np0_RandomState values_is_fraud
          labels_is_fraud fraud_names_bank dict_get_def)
  have g3: "generate_one np0 lib0 125 4 ?evo (YStr ''note'')
      = Inr (''note'', NdArray Object [CNone, CNone, CStr ''val_2'', CStr ''val_3''])"
    by (simp add: generate_one_def column_values_def col_hash_bank np0_RandomState values_note
          missing_note fraud_names_bank dict_get_def to_float_half)
  have rq: "require_configs cfg_bank = Inr ()"
    by (simp add: require_configs_def cfg_bank_def dict_has_def dict_get_def)
  show ?thesis
    unfolding generate_dataset_table_def
    by (simp add: rq columns_bank rows_bank evolution_bank seed_bank g1 g2 g3 pd_DataFrame_def
          as_series_def)
qed

text \<open>
  The theorem at two pairs of paths with equal last components and two draws of the
  temporary names: both invocations leave the same table of three columns as
  \<^verbatim>\<open>data.parquet\<close>.
\<close>

theorem generate_dataset_deterministic_witness:
  "generate_dataset_table np0 lib0 ''/srv/datasets/bank'' cfg_bank ''/tmp/copy/v1''
     = Inr (DataFrame 4
         [(''id'', NdArray Int64 [CInt 1, CInt 2, CInt 3, CInt 4]),
          (''is_fraud'', NdArray Int8 [CInt 1, CInt 0, CInt 0, CInt 1]),
          (''note'', NdArray Object [CNone, CNone, CStr ''val_2'', CStr ''val_3''])])
   \<and> generate_dataset_table np0 lib0 ''datasets/bank'' cfg_bank ''runs/bank/v1''
     = generate_dataset_table np0 lib0 ''/srv/datasets/bank'' cfg_bank ''/tmp/copy/v1''
   \<and> fst (generate_dataset np0 lib0 writer0 ''datasets/bank'' cfg_bank ''runs/bank/v1'' Map.empty)
     = Inr ()
   \<and> fst (generate_dataset np0 lib0 writer1 ''/srv/datasets/bank'' cfg_bank ''/tmp/copy/v1'' Map.empty)
     = Inr ()
   \<and> data_files (snd (generate_dataset np0 lib0 writer1 ''/srv/datasets/bank'' cfg_bank
        ''/tmp/copy/v1'' Map.empty))
     = (Some (File (Tabular (DataFrame 4
         [(''id'', NdArray Int64 [CInt 1, CInt 2, CInt 3, CInt 4]),
          (''is_fraud'', NdArray Int8 [CInt 1, CInt 0, CInt 0, CInt 1]),
          (''note'', NdArray Object [CNone, CNone, CStr ''val_2'', CStr ''val_3''])]))), None)"
proof -
  let ?df = "DataFrame 4
         [(''id'', NdArray Int64 [CInt 1, CInt 2, CInt 3, CInt 4]),
          (''is_fraud'', NdArray Int8 [CInt 1, CInt 0, CInt 0, CInt 1]),
          (''note'', NdArray Object [CNone, CNone, CStr ''val_2'', CStr ''val_3''])]"
  have a: "os_path_basename lib0 (os_path_normpath lib0 ''datasets/bank'')
      = os_path_basename lib0 (os_path_normpath lib0 ''/srv/datasets/bank'')"
    by (simp add: lib0_def)
  have b: "os_path_basename lib0 (os_path_normpath lib0 ''runs/bank/v1'')
      = os_path_basename lib0 (os_path_normpath lib0 ''/tmp/copy/v1'')"
    by (simp add: lib0_def)
  have wp: "to_parquet_ok writer0 = to_parquet_ok writer1" and wc: "to_csv_ok writer0 = to_csv_ok writer1"
    by (simp_all add: writer0_def writer1_def)
  have t0: "temp_names_ok writer0 Map.empty" and t1: "temp_names_ok writer1 Map.empty"
    by (simp_all add: temp_names_ok_def writer0_def writer1_def endswith_def)
  note T = generate_dataset_deterministic [OF a b wp wc t0 t1, of np0 cfg_bank]
  from T have tab: "generate_dataset_table np0 lib0 ''datasets/bank'' cfg_bank ''runs/bank/v1''
      = generate_dataset_table np0 lib0 ''/srv/datasets/bank'' cfg_bank ''/tmp/copy/v1''"
    by blast
  with table_bank have tab2: "generate_dataset_table np0 lib0 ''/srv/datasets/bank'' cfg_bank ''/tmp/copy/v1''
      = Inr ?df"
    by simp
  have run: "generate_dataset np0 lib0 writer0 ''datasets/bank'' cfg_bank ''runs/bank/v1'' Map.empty
      = (Inr (), [''data.parquet'' \<mapsto> File (Tabular ?df)])"
    by (simp add: generate_dataset_def table_bank write_dataframe_def writer0_def Let_def)
  from T have "fst (generate_dataset np0 lib0 writer0 ''datasets/bank'' cfg_bank ''runs/bank/v1'' Map.empty)
      = fst (generate_dataset np0 lib0 writer1 ''/srv/datasets/bank'' cfg_bank ''/tmp/copy/v1'' Map.empty)"
    and "data_files (snd (generate_dataset np0 lib0 writer0 ''datasets/bank'' cfg_bank ''runs/bank/v1'' Map.empty))
      = data_files (snd (generate_dataset np0 lib0 writer1 ''/srv/datasets/bank'' cfg_bank ''/tmp/copy/v1'' Map.empty))"
    by blast+
  with run have "fst (generate_dataset np0 lib0 writer1 ''/srv/datasets/bank'' cfg_bank ''/tmp/copy/v1'' Map.empty)
      = Inr ()"
    and "data_files (snd (generate_dataset np0 lib0 writer1 ''/srv/datasets/bank'' cfg_bank ''/tmp/copy/v1'' Map.empty))
      = (Some (File (Tabular ?df)), None)"
    by (simp_all add: data_files_def)
  with tab tab2 run show ?thesis by simp
qed

section \<open>Finalization is one-shot\<close>

lemma persist_artifacts_finalized:
  "exists_path d ''final_metadata.json''
     \<Longrightarrow> persist_artifacts L S dataset_dir configs run_dir d = (Inl RuntimeError, d)"
  by (simp add: persist_artifacts_def)

lemma persist_artifacts_success:
  assumes "persist_artifacts L S dataset_dir configs run_dir d = (Inr (), d')"
  shows "\<exists>m. d' = (d(''final_metadata.tmp'' := None))(''final_metadata.json'' \<mapsto> File (Json m))"
proof (cases "d ''configs_snapshot.json''")
  case None
  with assms show ?thesis
    by (simp add: persist_artifacts_def Let_def split: if_splits)
next
  case (Some nd)
  show ?thesis
  proof (cases nd)
    case Dir
    with Some assms show ?thesis
      by (simp add: persist_artifacts_def Let_def split: if_splits)
  next
    case (File c)
    show ?thesis
    proof (cases c)
      case (Json snapshot)
      with Some File assms show ?thesis
        by (simp add: persist_artifacts_def Let_def split: if_splits) blast+
    next
      case (Tabular t)
      with Some File assms show ?thesis
        by (simp add: persist_artifacts_def Let_def split: if_splits)
    next
      case (Raw r)
      with Some File assms show ?thesis
        by (simp add: persist_artifacts_def Let_def split: if_splits)
    qed
  qed
qed

text \<open>
  Claim C2. When a call of the finalizer on a run directory succeeds, the directory holds
  the manifest, and every later call on that directory, with whatever arguments,
  raises RuntimeError and leaves the directory, the manifest in it, as it is.
\<close>

theorem persist_artifacts_one_shot:
  assumes "persist_artifacts L S dataset_dir configs run_dir d = (Inr (), d')"
  shows "persist_artifacts L2 S2 dataset_dir2 configs2 run_dir d' = (Inl RuntimeError, d')
         \<and> (\<exists>m. d' ''final_metadata.json'' = Some (File (Json m)))"
proof -
  from persist_artifacts_success [OF assms] obtain m where
    d': "d' = (d(''final_metadata.tmp'' := None))(''final_metadata.json'' \<mapsto> File (Json m))"
    by blast
  then have ex: "exists_path d' ''final_metadata.json''"
    by (simp add: exists_path_def)
  from persist_artifacts_finalized [OF ex] d' show ?thesis by simp
qed

text \<open>The theorem at a prepared run directory: the first call succeeds and names the data
  file, the second raises.\<close>

theorem persist_artifacts_one_shot_witness:
  "fst (persist_artifacts lib0 sys0 ''/dataset'' [(''a'', YInt 1)] ''run'' dir_ready) = Inr ()
   \<and> persist_artifacts lib0 sys0 ''/dataset'' [(''a'', YInt 1)] ''run''
        (snd (persist_artifacts lib0 sys0 ''/dataset'' [(''a'', YInt 1)] ''run'' dir_ready))
      = (Inl RuntimeError,
         snd (persist_artifacts lib0 sys0 ''/dataset'' [(''a'', YInt 1)] ''run'' dir_ready))
   \<and> get_field (get_field (json_doc
          (snd (persist_artifacts lib0 sys0 ''/dataset'' [(''a'', YInt 1)] ''run'' dir_ready))
          ''final_metadata.json'') ''artifacts'') ''data'' = YStr ''data.parquet''"
proof -
  let ?r = "persist_artifacts lib0 sys0 ''/dataset'' [(''a'', YInt 1)] ''run'' dir_ready"
  have first: "fst ?r = Inr ()"
    by (simp add: persist_artifacts_def dir_ready_def exists_path_def is_file_def
          required_artifacts_def scalar_eq_def)
  then have eq: "?r = (Inr (), snd ?r)"
    by (simp add: prod_eq_iff)
  have data: "get_field (get_field (json_doc (snd ?r) ''final_metadata.json'') ''artifacts'') ''data''
      = YStr ''data.parquet''"
    by (simp add: persist_artifacts_def dir_ready_def exists_path_def is_file_def
          required_artifacts_def scalar_eq_def json_doc_def get_field_def dict_get_def)
  from persist_artifacts_one_shot [OF eq, of lib0 sys0 "''/dataset''" "[(''a'', YInt 1)]"] first data
  show ?thesis by simp
qed

section \<open>The registry is append-only\<close>

lemma dict_get_update:
  "dict_get (AList.update k v al) k' = (if k' = k then v else dict_get al k')"
  by (simp add: dict_get_def update_conv')

lemma dict_has_update:
  "dict_has (AList.update k v al) k' = (k' = k \<or> dict_has al k')"
  by (simp add: dict_has_def update_conv')

lemma check_duplicate_append:
  "check_duplicate version vs = Inr ()
     \<Longrightarrow> check_duplicate version (vs @ [version_record version run_dir finalized_at]) = Inl RuntimeError"
proof (induction vs)
  case Nil
  then show ?case by (simp add: version_record_def dict_get_def)
next
  case (Cons v vs)
  then show ?case by (cases v) (simp_all split: if_splits)
qed

lemma register_version_Inr:
  assumes "register_version dataset version run_dir finalized_at registry = Inr registry'"
  shows "\<exists>reg datasets ds entry.
           registry = YDict reg \<and> dict_get reg ''datasets'' = YDict datasets \<and> dataset = YStr ds
           \<and> dict_has datasets ds \<and> dict_get datasets ds = YDict entry
           \<and> check_duplicate version (old_versions entry) = Inr ()
           \<and> registry' = YDict (AList.update ''datasets''
                 (YDict (AList.update ds (YDict (new_entry version run_dir finalized_at entry)) datasets)) reg)"
proof (cases registry)
  case (YDict reg)
  note r = this
  show ?thesis
  proof (cases "dict_get reg ''datasets''")
    case (YDict datasets)
    note dss = this
    show ?thesis
    proof (cases dataset)
      case (YStr ds)
      note d = this
      show ?thesis
      proof (cases "dict_has datasets ds")
        case False
        with assms r dss d show ?thesis by (simp add: register_version_def)
      next
        case has: True
        show ?thesis
        proof (cases "dict_get datasets ds")
          case (YDict entry)
          note e = this
          show ?thesis
          proof (cases "dict_get entry ''versions''")
            case YNone
            with assms r dss d has e show ?thesis
              by (simp add: register_version_def new_entry_def old_versions_def)
          next
            case (YList vs)
            with assms r dss d has e show ?thesis
              by (simp add: register_version_def new_entry_def old_versions_def split: sum.splits)
          qed (use assms r dss d has e in \<open>simp_all add: register_version_def\<close>)
        qed (use assms r dss d has in \<open>simp_all add: register_version_def\<close>)
      qed
    qed (use assms r dss in \<open>simp_all add: register_version_def\<close>)
  qed (use assms r in \<open>simp_all add: register_version_def\<close>)
qed (use assms in \<open>simp_all add: register_version_def\<close>)

lemma new_entry_versions:
  "dict_get (new_entry version run_dir finalized_at entry) ''versions''
     = YList (old_versions entry @ [version_record version run_dir finalized_at])"
  by (simp add: new_entry_def dict_get_update)

lemma new_entry_latest:
  "dict_get (new_entry version run_dir finalized_at entry) ''latest_version'' = YStr version"
  by (simp add: new_entry_def dict_get_update)

lemma register_version_again:
  assumes "register_version dataset version run_dir finalized_at registry = Inr registry'"
  shows "register_version dataset version run_dir2 finalized_at2 registry' = Inl RuntimeError"
proof -
  from register_version_Inr [OF assms] obtain reg datasets ds entry where
    d: "dataset = YStr ds" and
    cd: "check_duplicate version (old_versions entry) = Inr ()" and
    r': "registry' = YDict (AList.update ''datasets''
           (YDict (AList.update ds (YDict (new_entry version run_dir finalized_at entry)) datasets)) reg)"
    by blast
  show ?thesis
    unfolding r' d register_version_def
    by (simp add: dict_get_update dict_has_update new_entry_versions
          check_duplicate_append [OF cd])
qed

lemma update_registry_Inr:
  assumes "update_registry_from_final_metadata L S fmp rp fs = (Inr (), fs')"
  shows "\<exists>fm rd registry registry'.
           fs fmp = Some (File (Json (YDict fm))) \<and> fs rp = Some (File (Json registry))
           \<and> dict_get fm ''run_dir'' = YStr rd
           \<and> truthy (dict_get fm ''dataset'') \<and> truthy (dict_get fm ''finalized_at_utc'') \<and> rd \<noteq> []
           \<and> os_path_basename L (os_path_normpath L rd) \<noteq> []
           \<and> register_version (dict_get fm ''dataset'') (os_path_basename L (os_path_normpath L rd))
                (YStr rd) (dict_get fm ''finalized_at_utc'') registry = Inr registry'
           \<and> fs (with_suffix_tmp S rp) \<noteq> Some Dir
           \<and> fs' = (fs(with_suffix_tmp S rp := None))(rp \<mapsto> File (Json registry'))"
proof -
  from assms have f1: "is_file fs fmp" and f2: "is_file fs rp"
    by (auto simp: update_registry_from_final_metadata_def split: if_splits)
  from f1 obtain c1 where c1: "fs fmp = Some (File c1)"
    by (cases "fs fmp" rule: is_file_node.cases) (auto simp: is_file_def)
  from f2 obtain c2 where c2: "fs rp = Some (File c2)"
    by (cases "fs rp" rule: is_file_node.cases) (auto simp: is_file_def)
  from assms f1 f2 c1 obtain final_meta where fm0: "c1 = Json final_meta"
    by (cases c1) (auto simp: update_registry_from_final_metadata_def load_json_def)
  from assms f1 f2 c1 fm0 obtain fm where fm: "final_meta = YDict fm"
    by (cases final_meta) (auto simp: update_registry_from_final_metadata_def load_json_def)
  have lj: "load_json fs fmp = Inr (YDict fm)"
    by (simp add: load_json_def c1 fm0 fm)
  from assms f1 f2 lj have tr: "truthy (dict_get fm ''dataset'')" "truthy (dict_get fm ''run_dir'')"
      "truthy (dict_get fm ''finalized_at_utc'')"
    by (auto simp: update_registry_from_final_metadata_def Let_def split: if_splits)
  from assms f1 f2 lj tr obtain rd where rd: "dict_get fm ''run_dir'' = YStr rd"
    by (cases "dict_get fm ''run_dir''") (auto simp: update_registry_from_final_metadata_def Let_def)
  from assms f1 f2 lj tr rd have ver: "os_path_basename L (os_path_normpath L rd) \<noteq> []"
    by (auto simp: update_registry_from_final_metadata_def Let_def split: if_splits)
  from assms f1 f2 lj tr rd ver c2 obtain registry where reg: "c2 = Json registry"
    by (cases c2) (auto simp: update_registry_from_final_metadata_def Let_def load_json_def)
  have lr: "load_json fs rp = Inr registry"
    by (simp add: load_json_def c2 reg)
  from assms f1 f2 lj tr rd ver lr obtain registry' where
    rv: "register_version (dict_get fm ''dataset'') (os_path_basename L (os_path_normpath L rd))
           (YStr rd) (dict_get fm ''finalized_at_utc'') registry = Inr registry'"
    and aw: "atomic_write_json S rp registry' fs = (Inr (), fs')"
    by (cases "register_version (dict_get fm ''dataset'') (os_path_basename L (os_path_normpath L rd))
           (YStr rd) (dict_get fm ''finalized_at_utc'') registry")
       (auto simp: update_registry_from_final_metadata_def Let_def)
  from aw have nd: "fs (with_suffix_tmp S rp) \<noteq> Some Dir"
    and fs': "fs' = (fs(with_suffix_tmp S rp := None))(rp \<mapsto> File (Json registry'))"
    by (auto simp: atomic_write_json_def Let_def split: if_splits)
  from tr rd have "rd \<noteq> []" by simp
  with c1 fm0 fm c2 reg rd tr ver rv nd fs' show ?thesis by blast
qed

lemma update_registry_second:
  assumes "fs fmp = Some (File (Json (YDict fm)))" and "fs rp = Some (File (Json registry))"
      and "dict_get fm ''run_dir'' = YStr rd" and "rd \<noteq> []"
      and "truthy (dict_get fm ''dataset'')" and "truthy (dict_get fm ''finalized_at_utc'')"
      and "os_path_basename L (os_path_normpath L rd) \<noteq> []"
      and "register_version (dict_get fm ''dataset'') (os_path_basename L (os_path_normpath L rd))
             (YStr rd) (dict_get fm ''finalized_at_utc'') registry = Inl e"
  shows "update_registry_from_final_metadata L S fmp rp fs = (Inl e, fs)"
  using assms
  by (simp add: update_registry_from_final_metadata_def is_file_def load_json_def)

lemma registered_after:
  assumes "register_version (YStr ds) version run_dir finalized_at registry = Inr registry'"
      and "fs rp = Some (File (Json registry))" and "fs' rp = Some (File (Json registry'))"
  shows "registered_versions fs' rp ds
           = registered_versions fs rp ds @ [version_record version run_dir finalized_at]
         \<and> latest_version fs' rp ds = YStr version"
proof -
  from register_version_Inr [OF assms(1)] obtain reg datasets entry where
    r: "registry = YDict reg" and dss: "dict_get reg ''datasets'' = YDict datasets" and
    e: "dict_get datasets ds = YDict entry" and
    r': "registry' = YDict (AList.update ''datasets''
           (YDict (AList.update ds (YDict (new_entry version run_dir finalized_at entry)) datasets)) reg)"
    by auto
  have old: "registered_versions fs rp ds = old_versions entry"
    by (simp add: registered_versions_def json_doc_def assms(2) r get_field_def dss e old_versions_def)
  have new: "registered_versions fs' rp ds
      = old_versions entry @ [version_record version run_dir finalized_at]"
    by (simp add: registered_versions_def json_doc_def assms(3) r' get_field_def dict_get_update
          new_entry_versions)
  have lat: "latest_version fs' rp ds = YStr version"
    by (simp add: latest_version_def json_doc_def assms(3) r' get_field_def dict_get_update
          new_entry_latest)
  from old new lat show ?thesis by simp
qed

text \<open>
  Claim C3. When a call registers the version of a final manifest under its dataset, the
  same call again fails and leaves every file as the first call left it; the dataset's
  version list is the list before the first call with the one new record appended, so
  its length grew by one.
\<close>

theorem register_twice_rejected:
  assumes "update_registry_from_final_metadata L S fmp rp fs = (Inr (), fs')"
  shows "\<exists>e ds rd.
           update_registry_from_final_metadata L S fmp rp fs' = (Inl e, fs')
           \<and> get_field (json_doc fs fmp) ''dataset'' = YStr ds
           \<and> get_field (json_doc fs fmp) ''run_dir'' = YStr rd
           \<and> registered_versions fs' rp ds
               = registered_versions fs rp ds
                 @ [version_record (os_path_basename L (os_path_normpath L rd)) (YStr rd)
                      (get_field (json_doc fs fmp) ''finalized_at_utc'')]
           \<and> length (registered_versions fs' rp ds) = Suc (length (registered_versions fs rp ds))"
proof -
  define tmp where "tmp = with_suffix_tmp S rp"
  from update_registry_Inr [OF assms] obtain fm rd registry registry' where
    m: "fs fmp = Some (File (Json (YDict fm)))" and g: "fs rp = Some (File (Json registry))" and
    rd: "dict_get fm ''run_dir'' = YStr rd" and ne: "rd \<noteq> []" and
    t1: "truthy (dict_get fm ''dataset'')" and t2: "truthy (dict_get fm ''finalized_at_utc'')" and
    ver: "os_path_basename L (os_path_normpath L rd) \<noteq> []" and
    rv: "register_version (dict_get fm ''dataset'') (os_path_basename L (os_path_normpath L rd))
           (YStr rd) (dict_get fm ''finalized_at_utc'') registry = Inr registry'" and
    fs': "fs' = (fs(tmp := None))(rp \<mapsto> File (Json registry'))"
    unfolding tmp_def by blast
  from register_version_Inr [OF rv] obtain reg ds where
    r: "registry = YDict reg" and ds: "dict_get fm ''dataset'' = YStr ds" and
    r': "\<exists>x. registry' = YDict (AList.update ''datasets'' x reg)"
    by blast
  have g': "fs' rp = Some (File (Json registry'))" by (simp add: fs')
  have again: "register_version (dict_get fm ''dataset'') (os_path_basename L (os_path_normpath L rd))
      (YStr rd) (dict_get fm ''finalized_at_utc'') registry' = Inl RuntimeError"
    by (rule register_version_again [OF rv])
  have second: "\<exists>e. update_registry_from_final_metadata L S fmp rp fs' = (Inl e, fs')"
  proof (cases "fmp = rp")
    case True
    with m g r have fmreg: "fm = reg" by simp
    from r' fmreg obtain x where x: "registry' = YDict (AList.update ''datasets'' x fm)" by blast
    have m': "fs' fmp = Some (File (Json (YDict (AList.update ''datasets'' x fm))))"
      using True g' x by simp
    have "update_registry_from_final_metadata L S fmp rp fs' = (Inl RuntimeError, fs')"
      by (rule update_registry_second [OF m' g', where rd = rd])
         (simp_all add: dict_get_update rd ne t1 t2 ver again)
    then show ?thesis by blast
  next
    case neq: False
    show ?thesis
    proof (cases "fmp = tmp")
      case True
      with neq have "fs' fmp = None" by (simp add: fs')
      then have "update_registry_from_final_metadata L S fmp rp fs' = (Inl FileNotFoundError, fs')"
        by (simp add: update_registry_from_final_metadata_def is_file_def)
      then show ?thesis by blast
    next
      case False
      with neq m have m': "fs' fmp = Some (File (Json (YDict fm)))" by (simp add: fs')
      have "update_registry_from_final_metadata L S fmp rp fs' = (Inl RuntimeError, fs')"
        by (rule update_registry_second [OF m' g' rd ne t1 t2 ver again])
      then show ?thesis by blast
    qed
  qed
  have flds: "get_field (json_doc fs fmp) ''dataset'' = YStr ds"
      "get_field (json_doc fs fmp) ''run_dir'' = YStr rd"
      "get_field (json_doc fs fmp) ''finalized_at_utc'' = dict_get fm ''finalized_at_utc''"
    by (simp_all add: json_doc_def m get_field_def ds rd)
  from registered_after [where fs = fs and fs' = fs' and rp = rp, OF rv [unfolded ds] g g']
  have app: "registered_versions fs' rp ds
      = registered_versions fs rp ds
        @ [version_record (os_path_basename L (os_path_normpath L rd)) (YStr rd)
             (dict_get fm ''finalized_at_utc'')]"
    by simp
  from second flds app show ?thesis by auto
qed

text \<open>The theorem at a registry with one version: one to two versions, then a failure.\<close>

theorem register_twice_rejected_witness:
  "fst (update_registry_from_final_metadata lib0 sys0
          ''runs/ft/2025-01-01T00-00-00Z/final_metadata.json'' ''registry/datasets.json'' fs_reg) = Inr ()
   \<and> (\<exists>e. update_registry_from_final_metadata lib0 sys0
          ''runs/ft/2025-01-01T00-00-00Z/final_metadata.json'' ''registry/datasets.json''
          (snd (update_registry_from_final_metadata lib0 sys0
             ''runs/ft/2025-01-01T00-00-00Z/final_metadata.json'' ''registry/datasets.json'' fs_reg))
        = (Inl e, snd (update_registry_from_final_metadata lib0 sys0
             ''runs/ft/2025-01-01T00-00-00Z/final_metadata.json'' ''registry/datasets.json'' fs_reg)))
   \<and> length (registered_versions fs_reg ''registry/datasets.json'' ''ft'') = 1
   \<and> length (registered_versions (snd (update_registry_from_final_metadata lib0 sys0
          ''runs/ft/2025-01-01T00-00-00Z/final_metadata.json'' ''registry/datasets.json'' fs_reg))
        ''registry/datasets.json'' ''ft'') = 2"
proof -
  let ?fmp = "''runs/ft/2025-01-01T00-00-00Z/final_metadata.json''"
  let ?rp = "''registry/datasets.json''"
  let ?r = "update_registry_from_final_metadata lib0 sys0 ?fmp ?rp fs_reg"
  have first: "fst ?r = Inr ()"
    by (simp add: update_registry_from_final_metadata_def fs_reg_def is_file_def load_json_def
          dict_get_def dict_has_def lib0_def sys0_def register_version_def atomic_write_json_def
          version_record_def Let_def)
  then have eq: "?r = (Inr (), snd ?r)"
    by (simp add: prod_eq_iff)
  have ds: "get_field (json_doc fs_reg ?fmp) ''dataset'' = YStr ''ft''"
    by (simp add: fs_reg_def json_doc_def get_field_def dict_get_def)
  have one: "length (registered_versions fs_reg ?rp ''ft'') = 1"
    by (simp add: fs_reg_def registered_versions_def json_doc_def get_field_def dict_get_def)
  from register_twice_rejected [OF eq] obtain e ds' where
    again: "update_registry_from_final_metadata lib0 sys0 ?fmp ?rp (snd ?r) = (Inl e, snd ?r)" and
    ds': "get_field (json_doc fs_reg ?fmp) ''dataset'' = YStr ds'" and
    len: "length (registered_versions (snd ?r) ?rp ds') = Suc (length (registered_versions fs_reg ?rp ds'))"
    by blast
  from ds ds' have "ds' = ''ft''" by simp
  with len one have two: "length (registered_versions (snd ?r) ?rp ''ft'') = 2" by simp
  from first again one two show ?thesis by blast
qed

text \<open>
  Claim C10. After a successful call the dataset's latest version is the version just
  appended, the last element of its version list, whatever the versions recorded
  before.
\<close>

theorem latest_version_is_last_registered:
  assumes "update_registry_from_final_metadata L S fmp rp fs = (Inr (), fs')"
  shows "\<exists>ds rd.
           get_field (json_doc fs fmp) ''dataset'' = YStr ds
           \<and> get_field (json_doc fs fmp) ''run_dir'' = YStr rd
           \<and> latest_version fs' rp ds = YStr (os_path_basename L (os_path_normpath L rd))
           \<and> get_field (last (registered_versions fs' rp ds)) ''version''
               = latest_version fs' rp ds"
proof -
  from update_registry_Inr [OF assms] obtain fm rd registry registry' where
    m: "fs fmp = Some (File (Json (YDict fm)))" and g: "fs rp = Some (File (Json registry))" and
    rd: "dict_get fm ''run_dir'' = YStr rd" and
    rv: "register_version (dict_get fm ''dataset'') (os_path_basename L (os_path_normpath L rd))
           (YStr rd) (dict_get fm ''finalized_at_utc'') registry = Inr registry'" and
    fs': "fs' = (fs(with_suffix_tmp S rp := None))(rp \<mapsto> File (Json registry'))"
    by blast
  from register_version_Inr [OF rv] obtain ds where ds: "dict_get fm ''dataset'' = YStr ds"
    by blast
  have g': "fs' rp = Some (File (Json registry'))" by (simp add: fs')
  have flds: "get_field (json_doc fs fmp) ''dataset'' = YStr ds"
      "get_field (json_doc fs fmp) ''run_dir'' = YStr rd"
    by (simp_all add: json_doc_def m get_field_def ds rd)
  from registered_after [where fs = fs and fs' = fs' and rp = rp, OF rv [unfolded ds] g g'] flds show ?thesis
    by (simp add: version_record_def get_field_def dict_get_def)
qed

text \<open>The theorem where the new version sorts before the latest one recorded: the
  latest version moves back to it.\<close>

theorem latest_version_is_last_registered_witness:
  "''2025-01-01T00-00-00Z'' < ''2025-06-01T00-00-00Z''
   \<and> latest_version fs_reg ''registry/datasets.json'' ''ft'' = YStr ''2025-06-01T00-00-00Z''
   \<and> fst (update_registry_from_final_metadata lib0 sys0
          ''runs/ft/2025-01-01T00-00-00Z/final_metadata.json'' ''registry/datasets.json'' fs_reg) = Inr ()
   \<and> latest_version (snd (update_registry_from_final_metadata lib0 sys0
          ''runs/ft/2025-01-01T00-00-00Z/final_metadata.json'' ''registry/datasets.json'' fs_reg))
        ''registry/datasets.json'' ''ft'' = YStr ''2025-01-01T00-00-00Z''"
proof -
  let ?fmp = "''runs/ft/2025-01-01T00-00-00Z/final_metadata.json''"
  let ?rp = "''registry/datasets.json''"
  let ?r = "update_registry_from_final_metadata lib0 sys0 ?fmp ?rp fs_reg"
  have less: "''2025-01-01T00-00-00Z'' < ''2025-06-01T00-00-00Z''"
    by code_simp
  have before: "latest_version fs_reg ?rp ''ft'' = YStr ''2025-06-01T00-00-00Z''"
    by (simp add: fs_reg_def latest_version_def json_doc_def get_field_def dict_get_def)
  have first: "fst ?r = Inr ()"
    by (simp add: update_registry_from_final_metadata_def fs_reg_def is_file_def load_json_def
          dict_get_def dict_has_def lib0_def sys0_def register_version_def atomic_write_json_def
          version_record_def Let_def)
  then have eq: "?r = (Inr (), snd ?r)"
    by (simp add: prod_eq_iff)
  have ds: "get_field (json_doc fs_reg ?fmp) ''dataset'' = YStr ''ft''"
    by (simp add: fs_reg_def json_doc_def get_field_def dict_get_def)
  have rd: "get_field (json_doc fs_reg ?fmp) ''run_dir'' = YStr ''/srv/runs/ft/2025-01-01T00-00-00Z''"
    by (simp add: fs_reg_def json_doc_def get_field_def dict_get_def)
  have base: "os_path_basename lib0 (os_path_normpath lib0 ''/srv/runs/ft/2025-01-01T00-00-00Z'')
      = ''2025-01-01T00-00-00Z''"
    by (simp add: lib0_def)
  from latest_version_is_last_registered [OF eq] obtain ds' rd' where
    ds': "get_field (json_doc fs_reg ?fmp) ''dataset'' = YStr ds'" and
    rd': "get_field (json_doc fs_reg ?fmp) ''run_dir'' = YStr rd'" and
    lat: "latest_version (snd ?r) ?rp ds' = YStr (os_path_basename lib0 (os_path_normpath lib0 rd'))"
    by blast
  from ds ds' rd rd' have "ds' = ''ft''" "rd' = ''/srv/runs/ft/2025-01-01T00-00-00Z''" by simp_all
  with lat base have after: "latest_version (snd ?r) ?rp ''ft'' = YStr ''2025-01-01T00-00-00Z''"
    by simp
  from less before first after show ?thesis by blast
qed

section \<open>Fraud labels and missingness\<close>

lemma is_permutationD:
  assumes "is_permutation perm n"
  shows "distinct perm" and "set perm = {0..<n}" and "length perm = n"
proof -
  from assms have s: "sort perm = [0..<n]" by (simp add: is_permutation_def)
  have "distinct (sort perm)" unfolding s by simp
  then show "distinct perm" by simp
  have "set (sort perm) = {0..<n}" unfolding s by simp
  then show "set perm = {0..<n}" by simp
  have "length (sort perm) = n" unfolding s by simp
  then show "length perm = n" by simp
qed

subsection \<open>The count\<close>

lemma dbl_nonpos: "x \<le> 0 \<Longrightarrow> dbl x \<le> 0"
proof -
  assume x: "x \<le> 0"
  have "x / quantum x \<le> of_int 0" using x quantum_pos [of x] by (simp add: divide_le_0_iff)
  then have "py_round (x / quantum x) \<le> 0" by (rule py_round_le)
  then have "(of_int (py_round (x / quantum x)) :: rat) \<le> 0" by simp
  then show ?thesis
    using quantum_pos [of x] by (simp add: dbl_def mult_le_0_iff)
qed

lemma to_float_small:
  assumes "\<bar>dbl x\<bar> \<le> 2 ^ 53"
  shows "to_float x = Fin (dbl x)"
proof (cases "dbl x = 0")
  case True
  then show ?thesis by (simp add: to_float_def)
next
  case False
  then have pos: "0 < \<bar>dbl x\<bar>" by simp
  have "2 powi (fexp \<bar>dbl x\<bar>) \<le> \<bar>dbl x\<bar>" by (rule fexp_lower [OF pos])
  also note assms
  also have "(2::rat) ^ 53 = 2 powi 53" by (simp add: power_int_def)
  finally have "fexp \<bar>dbl x\<bar> \<le> 53" by (rule power_int_le_imp_le_exp [rotated]) simp_all
  then show ?thesis by (simp add: to_float_def Let_def)
qed

lemma to_float_Fin: "to_float x = Fin q \<Longrightarrow> q = dbl x"
  by (simp add: to_float_def Let_def split: if_splits)

lemma count_value:
  assumes r: "0 \<le> dbl r" "dbl r \<le> 1" and n: "n \<le> 2 ^ 53"
  shows "(case pf_mul_int (Fin r) (int n) of Inl e \<Rightarrow> Inl e | Inr x \<Rightarrow> int_round x)
           = Inr (int (round_count r n))"
    and "round_count r n \<le> n"
proof -
  have n': "\<bar>int n\<bar> \<le> 2 ^ 53" using n by simp
  have nr: "(of_nat n :: rat) \<le> 2 ^ 53" using n by simp
  have dn: "dbl (of_nat n) = of_nat n" using dbl_of_int [OF n'] by simp
  have fn: "to_float (of_nat n) = Fin (of_nat n)"
  proof -
    have "\<bar>dbl (of_nat n)\<bar> \<le> (2::rat) ^ 53"
      unfolding dn using nr by simp
    from to_float_small [OF this] show ?thesis by (simp add: dn)
  qed
  have fr: "to_float r = Fin (dbl r)"
    using r by (intro to_float_small) (simp add: abs_if)
  define p where "p = dbl r * of_nat n"
  have p0: "0 \<le> p" using r by (simp add: p_def)
  have "p \<le> 1 * of_nat n" unfolding p_def using r by (intro mult_right_mono) simp_all
  then have pn: "p \<le> of_int (int n)" by simp
  have d0: "0 \<le> dbl p" by (rule dbl_nonneg [OF p0])
  have dle: "dbl p \<le> of_int (int n)"
    using n' by (intro dbl_le_int [OF p0 pn]) simp
  have "dbl p \<le> 2 ^ 53"
    using dle nr by simp
  with d0 have ab: "\<bar>dbl p\<bar> \<le> 2 ^ 53" by (simp add: abs_if)
  have fp: "to_float p = Fin (dbl p)" by (rule to_float_small [OF ab])
  have "\<bar>dbl (dbl p)\<bar> \<le> 2 ^ 53" using ab by (simp add: dbl_idem)
  from to_float_small [OF this] have fdp: "to_float (dbl p) = Fin (dbl p)" by (simp add: dbl_idem)
  have rc: "round_count r n = nat (py_round (dbl p))" by (simp add: round_count_def p_def dn)
  have k0: "0 \<le> py_round (dbl p)" by (rule py_round_nonneg [OF d0])
  have kn: "py_round (dbl p) \<le> int n" by (rule py_round_le [OF dle])
  show "(case pf_mul_int (Fin r) (int n) of Inl e \<Rightarrow> Inl e | Inr x \<Rightarrow> int_round x)
           = Inr (int (round_count r n))"
    using k0 by (simp add: pf_mul_int_def float_of_int_def fn pf_mul_def fr p_def [symmetric] fp
        int_round_def fdp rc)
  show "round_count r n \<le> n" using kn k0 by (simp add: rc)
qed

subsection \<open>Marked positions\<close>

lemma fold_update_length:
  "length (fold (\<lambda>i cs. cs[i := v]) idx cs) = length cs"
  by (induction idx arbitrary: cs) simp_all

lemma fold_update_nth:
  "j < length cs \<Longrightarrow> fold (\<lambda>i cs. cs[i := v]) idx cs ! j = (if j \<in> set idx then v else cs ! j)"
proof (induction idx arbitrary: cs)
  case Nil
  then show ?case by simp
next
  case (Cons a idx)
  have "j < length (cs[a := v])" using Cons.prems by simp
  from Cons.IH [OF this] Cons.prems show ?case
    by (auto simp: nth_list_update)
qed

lemma set_items_Inr:
  assumes "\<forall>i \<in> set idx. i < length (cells arr)"
  shows "\<exists>a. set_items arr idx v = Inr a \<and> dtype a = dtype arr
            \<and> length (cells a) = length (cells arr)
            \<and> (\<forall>j < length (cells arr). cells a ! j = (if j \<in> set idx then v else cells arr ! j))"
  using assms
  by (simp add: set_items_def list_all_iff fold_update_length fold_update_nth)

lemma take_perm:
  assumes "is_permutation perm n" and "k \<le> n"
  shows "card (set (take k perm)) = k" and "\<forall>i \<in> set (take k perm). i < n"
proof -
  note p = is_permutationD [OF assms(1)]
  have "distinct (take k perm)" using p(1) by simp
  then have "card (set (take k perm)) = length (take k perm)" by (rule distinct_card)
  then show "card (set (take k perm)) = k" using p(3) assms(2) by simp
  have "set (take k perm) \<subseteq> set perm" by (rule set_take_subset)
  then show "\<forall>i \<in> set (take k perm). i < n" using p(2) by auto
qed

lemma slice_to_nonneg: "0 \<le> k \<Longrightarrow> slice_to xs k = take (nat k) xs"
  by (simp add: slice_to_def)

lemma assign_fraud_labels:
  assumes p: "rs_permutation np rs rows = (perm, rs')" and ip: "is_permutation perm rows"
      and r: "0 \<le> dbl r" "dbl r \<le> 1" and n: "rows \<le> 2 ^ 53"
  shows "\<exists>fraud. assign_fraud np rs rows (Fin r) = Inr (fraud, rs')
           \<and> dtype fraud = Int8 \<and> length (cells fraud) = rows
           \<and> (\<forall>i < rows. cells fraud ! i
                 = (if i \<in> set (take (round_count r rows) perm) then CInt 1 else CInt 0))
           \<and> card (set (take (round_count r rows) perm)) = round_count r rows
           \<and> length (filter (\<lambda>c. c = CInt 1) (cells fraud)) = round_count r rows"
proof -
  define k where "k = round_count r rows"
  note c = count_value [OF r n]
  have kle: "k \<le> rows" using c(2) by (simp add: k_def)
  note tp = take_perm [OF ip kle]
  have sl: "slice_to perm (int k) = take k perm"
    by (simp add: slice_to_nonneg)
  let ?z = "NdArray Int8 (replicate rows (CInt 0))"
  have "\<forall>i \<in> set (take k perm). i < length (cells ?z)" using tp(2) by simp
  from set_items_Inr [OF this, of "CInt 1"] obtain a where
    a: "set_items ?z (take k perm) (CInt 1) = Inr a" and dt: "dtype a = Int8" and
    len: "length (cells a) = rows" and
    nth: "\<forall>j < rows. cells a ! j = (if j \<in> set (take k perm) then CInt 1 else CInt 0)"
    by auto
  have res: "assign_fraud np rs rows (Fin r) = Inr (a, rs')"
    unfolding assign_fraud_def c(1) by (simp add: p k_def [symmetric] sl a)
  have "{i. i < length (cells a) \<and> cells a ! i = CInt 1} = set (take k perm)"
    using nth tp(2) len by (auto split: if_splits)
  then have cnt: "length (filter (\<lambda>c. c = CInt 1) (cells a)) = k"
    by (simp add: length_filter_conv_card tp(1))
  from res dt len nth tp(1) cnt show ?thesis
    unfolding k_def by blast
qed

lemma generate_column_fraud:
  "is_fraud_name nm \<Longrightarrow> generate_column np rs nm rows = Inr (NdArray Int8 (replicate rows (CInt 0)), rs)"
  by (auto simp: is_fraud_name_def generate_column_def endswith_def)

lemma column_values_fraud:
  "is_fraud_name nm \<Longrightarrow>
     column_values np L seed rows evo nm
       = (case fraud_rate evo of
            None \<Rightarrow> Inl KeyError
          | Some rate \<Rightarrow>
              assign_fraud np (np_RandomState np ((seed + deterministic_col_hash L nm) mod 2 ^ 32))
                rows rate)"
  by (simp add: column_values_def generate_column_fraud split: option.splits)

lemma column_values_other:
  "\<not> is_fraud_name nm \<Longrightarrow>
     column_values np L seed rows evo nm
       = generate_column np (np_RandomState np ((seed + deterministic_col_hash L nm) mod 2 ^ 32)) nm rows"
  by (cases "generate_column np (np_RandomState np ((seed + deterministic_col_hash L nm) mod 2 ^ 32)) nm rows")
     (auto simp: column_values_def)

lemma generate_one_fraud_no_rate:
  "is_fraud_name nm \<Longrightarrow> fraud_rate evo = None \<Longrightarrow> generate_one np L seed rows evo (YStr nm) = Inl KeyError"
  by (simp add: generate_one_def column_values_fraud)

lemma generate_one_steps:
  assumes "generate_one np L seed rows evo (YStr nm) = Inr (nm', a)"
  shows "\<exists>col rs1. column_values np L seed rows evo nm = Inr (col, rs1)
           \<and> (dict_get (missingness evo) nm = YNone \<longrightarrow> a = col)
           \<and> (dict_get (missingness evo) nm \<noteq> YNone \<longrightarrow>
                (\<exists>ratio rs2. py_float L (dict_get (missingness evo) nm) = Inr ratio
                   \<and> apply_missingness np rs1 col (Some ratio) = Inr (a, rs2)))"
  using assms
  by (auto simp: generate_one_def Let_def split: sum.splits prod.splits if_splits)

lemma check_ratios_valid:
  "check_ratios L ms = Inr u \<Longrightarrow> map_of ms k = Some v
     \<Longrightarrow> \<exists>r. py_float L v = Inr r \<and> \<not> pf_less r (Fin 0) \<and> \<not> pf_less (Fin 1) r"
proof (induction ms)
  case Nil
  then show ?case by simp
next
  case (Cons kv ms)
  obtain k' v' where kv: "kv = (k', v')" by (cases kv)
  from Cons.prems(1) obtain r where r: "py_float L v' = Inr r" "\<not> pf_less r (Fin 0)" "\<not> pf_less (Fin 1) r"
    and rest: "check_ratios L ms = Inr u"
    unfolding kv by (cases "py_float L v'") (auto split: if_splits)
  show ?case
  proof (cases "k = k'")
    case True
    with Cons.prems(2) kv have "v = v'" by simp
    with r show ?thesis by blast
  next
    case False
    with Cons.prems(2) kv have "map_of ms k = Some v" by simp
    from Cons.IH [OF rest this] show ?thesis .
  qed
qed

lemma py_float_double: "py_float L v = Inr (Fin q) \<Longrightarrow> dbl q = q"
proof (cases v)
  case (YBool b)
  assume "py_float L v = Inr (Fin q)"
  with YBool have "q = 0 \<or> q = 1" by (auto split: if_splits)
  then show ?thesis using dbl_of_int [of 0] dbl_of_int [of 1] by auto
next
  case (YInt i)
  assume "py_float L v = Inr (Fin q)"
  with YInt have "to_float (of_int i) = Fin q"
    by (auto simp: float_of_int_def split: pyfloat.splits)
  from to_float_Fin [OF this] show ?thesis by (simp add: dbl_idem)
next
  case (YFloat f)
  assume "py_float L v = Inr (Fin q)"
  with YFloat have "as_double f = Fin q" by simp
  then obtain a where "to_float a = Fin q" by (cases f) simp_all
  from to_float_Fin [OF this] show ?thesis by (simp add: dbl_idem)
next
  case (YStr s)
  assume "py_float L v = Inr (Fin q)"
  with YStr obtain f where "as_double f = Fin q" by (auto split: option.splits)
  then obtain a where "to_float a = Fin q" by (cases f) simp_all
  from to_float_Fin [OF this] show ?thesis by (simp add: dbl_idem)
qed simp_all

lemma missingness_ratio_valid:
  assumes "extract_evolution L cfg = Inr evo" and "map_of (missingness evo) nm = Some v"
  shows "\<exists>r. py_float L v = Inr r
           \<and> (r = NaN \<or> (\<exists>q. r = Fin q \<and> dbl q = q \<and> 0 \<le> q \<and> q \<le> 1))"
proof -
  from assms obtain u where "check_ratios L (missingness evo) = Inr u"
    by (auto simp: extract_evolution_def split: yaml.splits sum.splits)
  from check_ratios_valid [OF this assms(2)] obtain r where
    r: "py_float L v = Inr r" "\<not> pf_less r (Fin 0)" "\<not> pf_less (Fin 1) r"
    by blast
  show ?thesis
  proof (cases r)
    case (Fin q)
    with r py_float_double [of L v q] show ?thesis by auto
  qed (use r in auto)
qed

lemma apply_missingness_marks:
  assumes p: "rs_permutation np rs (length (cells arr)) = (perm, rs')"
      and ip: "is_permutation perm (length (cells arr))"
      and r: "0 \<le> dbl r" "dbl r \<le> 1" and le: "length (cells arr) \<le> 2 ^ 53"
  shows "\<exists>a. apply_missingness np rs arr (Some (Fin r))
               = Inr (a, if round_count r (length (cells arr)) = 0 then rs else rs')
           \<and> length (cells a) = length (cells arr)
           \<and> card (set (take (round_count r (length (cells arr))) perm))
               = round_count r (length (cells arr))
           \<and> (round_count r (length (cells arr)) = 0 \<longrightarrow> a = arr)
           \<and> (0 < round_count r (length (cells arr)) \<longrightarrow>
                dtype a = missing_dtype (dtype arr)
                \<and> (\<forall>i < length (cells arr). cells a ! i
                      = (if i \<in> set (take (round_count r (length (cells arr))) perm)
                         then missing_marker (dtype arr)
                         else missing_cast (dtype arr) (cells arr ! i))))"
proof -
  define n where "n = length (cells arr)"
  define k where "k = round_count r n"
  note c = count_value [OF r le [folded n_def]]
  have kle: "k \<le> n" using c(2) by (simp add: k_def)
  note tp = take_perm [OF ip [folded n_def] kle]
  show ?thesis
  proof (cases "k = 0")
    case True
    have "apply_missingness np rs arr (Some (Fin r)) = Inr (arr, rs)"
    proof (cases "r \<le> 0")
      case True
      then show ?thesis by (simp add: apply_missingness_def pf_le_def)
    next
      case False
      then have "\<not> pf_le (Fin r) (Fin 0)" by (auto simp: pf_le_def)
      then show ?thesis
        unfolding apply_missingness_def option.case Let_def n_def [symmetric] c(1)
        using \<open>k = 0\<close> by (simp add: k_def)
    qed
    with True tp(1) show ?thesis
      unfolding k_def n_def by simp
  next
    case False
    then have kpos: "0 < k" by simp
    have rpos: "\<not> r \<le> 0"
    proof
      assume "r \<le> 0"
      then have "dbl r \<le> 0" by (rule dbl_nonpos)
      with r have "dbl r = 0" by simp
      then have "k = 0" by (simp add: k_def round_count_def dbl_def py_round_def)
      with False show False by simp
    qed
    then have npf: "\<not> pf_le (Fin r) (Fin 0)" by (auto simp: pf_le_def)
    have sl: "slice_to perm (int k) = take k perm"
      by (simp add: slice_to_nonneg)
    let ?src = "if numeric_kind (dtype arr) then astype_float arr else astype_object arr"
    have lsrc: "length (cells ?src) = n"
      by (simp add: astype_float_def astype_object_def n_def)
    then have "\<forall>i \<in> set (take k perm). i < length (cells ?src)" using tp(2) by simp
    from set_items_Inr [OF this, of "missing_marker (dtype arr)"] lsrc obtain a where
      a: "set_items ?src (take k perm) (missing_marker (dtype arr)) = Inr a" and
      dt: "dtype a = dtype ?src" and len: "length (cells a) = n" and
      nth: "\<forall>j < n. cells a ! j
              = (if j \<in> set (take k perm) then missing_marker (dtype arr) else cells ?src ! j)"
      by auto
    have res: "apply_missingness np rs arr (Some (Fin r)) = Inr (a, rs')"
      unfolding apply_missingness_def option.case Let_def n_def [symmetric] c(1)
      using a kpos npf
      by (simp add: k_def [symmetric] p [folded n_def] sl missing_marker_def split: if_splits)
    have dt': "dtype a = missing_dtype (dtype arr)"
      using dt by (simp add: missing_dtype_def astype_float_def astype_object_def)
    have src: "\<forall>j < n. cells ?src ! j = missing_cast (dtype arr) (cells arr ! j)"
      by (simp add: missing_cast_def astype_float_def astype_object_def n_def)
    have nth': "\<forall>j < n. cells a ! j
              = (if j \<in> set (take k perm) then missing_marker (dtype arr)
                 else missing_cast (dtype arr) (cells arr ! j))"
    proof (intro allI impI)
      fix j assume j: "j < n"
      from nth j have "cells a ! j
          = (if j \<in> set (take k perm) then missing_marker (dtype arr) else cells ?src ! j)"
        by blast
      also from src j have "cells ?src ! j = missing_cast (dtype arr) (cells arr ! j)"
        by blast
      finally show "cells a ! j
          = (if j \<in> set (take k perm) then missing_marker (dtype arr)
             else missing_cast (dtype arr) (cells arr ! j))" .
    qed
    from False res len tp(1) dt' nth' show ?thesis
      unfolding k_def n_def by auto
  qed
qed

lemma generate_one_missingness:
  assumes "generate_one np L seed rows evo (YStr nm) = Inr (nm', a)"
      and "dict_get (missingness evo) nm \<noteq> YNone"
  shows "\<exists>col rs1 ratio rs2.
           column_values np L seed rows evo nm = Inr (col, rs1)
           \<and> py_float L (dict_get (missingness evo) nm) = Inr ratio
           \<and> apply_missingness np rs1 col (Some ratio) = Inr (a, rs2)"
  using generate_one_steps [OF assms(1)] assms(2) by blast

text \<open>
  Claim C4, as the source has it. For a ratio \<open>r\<close> that is in [0, 1] as a double and a
  column of \<open>n\<close> cells, \<open>n\<close> not above \<open>2 ^ 53\<close>, the cells at the first \<open>round(r * n)\<close>
  indices of the permutation drawn from the column's generator, that many distinct
  positions, are overwritten with a marker; the product is the product of doubles. A
  column of float, signed or unsigned integer dtype is cast to float and marked with NaN;
  every other column becomes an object column marked with None. With a count of zero the
  column is returned as it is and nothing is drawn. In \<^verbatim>\<open>generate_dataset\<close> the array and
  the generator state passed on are those left by the values of the column, a fraud
  column among them, and a ratio that the resolver accepted is NaN or a double in [0, 1].
\<close>

theorem missingness_marks_round_count:
  "(rs_permutation np rs (length (cells arr)) = (perm, rs')
      \<and> is_permutation perm (length (cells arr)) \<and> 0 \<le> dbl r \<and> dbl r \<le> 1
      \<and> length (cells arr) \<le> 2 ^ 53
    \<longrightarrow> (\<exists>a. apply_missingness np rs arr (Some (Fin r))
               = Inr (a, if round_count r (length (cells arr)) = 0 then rs else rs')
           \<and> length (cells a) = length (cells arr)
           \<and> card (set (take (round_count r (length (cells arr))) perm))
               = round_count r (length (cells arr))
           \<and> (round_count r (length (cells arr)) = 0 \<longrightarrow> a = arr)
           \<and> (0 < round_count r (length (cells arr)) \<longrightarrow>
                dtype a = missing_dtype (dtype arr)
                \<and> (\<forall>i < length (cells arr). cells a ! i
                      = (if i \<in> set (take (round_count r (length (cells arr))) perm)
                         then missing_marker (dtype arr)
                         else missing_cast (dtype arr) (cells arr ! i))))))
   \<and> (generate_one np L seed rows evo (YStr nm) = Inr (nm', col')
        \<and> dict_get (missingness evo) nm \<noteq> YNone
    \<longrightarrow> (\<exists>col rs1 ratio rs2.
           column_values np L seed rows evo nm = Inr (col, rs1)
           \<and> py_float L (dict_get (missingness evo) nm) = Inr ratio
           \<and> apply_missingness np rs1 col (Some ratio) = Inr (col', rs2)))
   \<and> (extract_evolution L cfg = Inr evo' \<and> map_of (missingness evo') cn = Some v
    \<longrightarrow> (\<exists>ratio. py_float L v = Inr ratio
           \<and> (ratio = NaN \<or> (\<exists>q. ratio = Fin q \<and> dbl q = q \<and> 0 \<le> q \<and> q \<le> 1))))"
  using apply_missingness_marks [of np rs arr perm rs' r]
    generate_one_missingness [of np L seed rows evo nm nm' col']
    missingness_ratio_valid [of L cfg evo' cn v]
  by blast

text \<open>
  Claim C4 as stated fails: an integer column is not floating-point, and it gets NaN in
  a float array, not None in an object array.
\<close>

theorem integer_column_gets_nan:
  "apply_missingness np0 3
     (NdArray Int64 [CInt 1, CInt 2, CInt 3, CInt 4, CInt 5, CInt 6, CInt 7, CInt 8, CInt 9, CInt 10])
     (Some (Fin (2 / 5)))
   = Inr (NdArray Float64
       [CFloat (Fin 1), CFloat (Fin 2), CFloat (Fin 3), CFloat NaN,
        CFloat NaN, CFloat NaN, CFloat NaN, CFloat (Fin 8), CFloat (Fin 9),
        CFloat (Fin 10)], 13)"
  by code_simp

lemma perm5: "rs_permutation np0 3 5 = ([3, 4, 0, 1, 2], 8)"
  by code_simp

lemma isperm5: "is_permutation [3, 4, 0, 1, 2] 5"
  by code_simp

lemma ratio_2_5: "0 \<le> dbl (2 / 5) \<and> dbl (2 / 5) \<le> 1"
  by code_simp

lemma rc5: "round_count (2 / 5) 5 = 2"
  by code_simp

lemma note_bank:
  "generate_one np0 lib0 125 4
       \<lparr>fraud_rate = Some (Fin (1 / 2)), missingness = [(''note'', YFloat (Fin (1 / 2)))]\<rparr>
       (YStr ''note'')
     = Inr (''note'', NdArray Object [CNone, CNone, CStr ''val_2'', CStr ''val_3''])"
  by (simp add: generate_one_def column_values_def col_hash_bank np0_RandomState values_note
        missing_note fraud_names_bank dict_get_def to_float_half)

text \<open>
  The theorem at a column of five strings and the ratio 0.4, two cells marked, and at
  the text column of \<open>cfg_bank\<close>, whose ratio 0.5 the resolver accepted.
\<close>

theorem missingness_marks_round_count_witness:
  "(\<exists>a. apply_missingness np0 3
          (NdArray Object [CStr ''a'', CStr ''b'', CStr ''c'', CStr ''d'', CStr ''e''])
          (Some (Fin (2 / 5))) = Inr (a, 8)
       \<and> dtype a = Object \<and> length (cells a) = 5
       \<and> cells a ! 3 = CNone \<and> cells a ! 4 = CNone \<and> cells a ! 0 = CStr ''a'')
   \<and> (\<exists>col rs1 rs2.
         column_values np0 lib0 125 4
             \<lparr>fraud_rate = Some (Fin (1 / 2)), missingness = [(''note'', YFloat (Fin (1 / 2)))]\<rparr>
             ''note'' = Inr (col, rs1)
         \<and> apply_missingness np0 rs1 col (Some (Fin (1 / 2)))
             = Inr (NdArray Object [CNone, CNone, CStr ''val_2'', CStr ''val_3''], rs2))
   \<and> (\<exists>q. py_float lib0 (YFloat (Fin (1 / 2))) = Inr (Fin q) \<and> dbl q = q \<and> 0 \<le> q \<and> q \<le> 1)"
proof -
  let ?arr = "NdArray Object [CStr ''a'', CStr ''b'', CStr ''c'', CStr ''d'', CStr ''e'']"
  let ?evo = "\<lparr>fraud_rate = Some (Fin (1 / 2)), missingness = [(''note'', YFloat (Fin (1 / 2)))]\<rparr>"
  have l: "length (cells ?arr) = 5" by simp
  have h: "rs_permutation np0 3 (length (cells ?arr)) = ([3, 4, 0, 1, 2], 8)
      \<and> is_permutation [3, 4, 0, 1, 2] (length (cells ?arr)) \<and> 0 \<le> dbl (2 / 5) \<and> dbl (2 / 5) \<le> 1
      \<and> length (cells ?arr) \<le> 2 ^ 53"
    unfolding l using ratio_2_5 by (intro conjI perm5 isperm5) simp_all
  have h2: "generate_one np0 lib0 125 4 ?evo (YStr ''note'')
        = Inr (''note'', NdArray Object [CNone, CNone, CStr ''val_2'', CStr ''val_3''])
      \<and> dict_get (missingness ?evo) ''note'' \<noteq> YNone"
    by (simp add: note_bank dict_get_def)
  have h3: "extract_evolution lib0 (dict_get cfg_bank ''evolution.yaml'') = Inr ?evo
      \<and> map_of (missingness ?evo) ''note'' = Some (YFloat (Fin (1 / 2)))"
    by (simp add: evolution_bank)
  note T = missingness_marks_round_count [where np = np0 and rs = "3::nat" and arr = ?arr
      and perm = "[3, 4, 0, 1, 2]" and rs' = 8 and r = "2 / 5" and L = lib0 and seed = 125
      and rows = 4 and evo = ?evo and nm = "''note''" and nm' = "''note''"
      and col' = "NdArray Object [CNone, CNone, CStr ''val_2'', CStr ''val_3'']"
      and cfg = "dict_get cfg_bank ''evolution.yaml''" and evo' = ?evo and cn = "''note''"
      and v = "YFloat (Fin (1 / 2))"]
  from T [THEN conjunct1, rule_format, OF h] obtain a where
    a: "apply_missingness np0 3 ?arr (Some (Fin (2 / 5))) = Inr (a, 8)" and
    len: "length (cells a) = 5" and dt: "dtype a = Object" and
    nth: "\<forall>i < 5. cells a ! i = (if i \<in> {3, 4} then CNone else [CStr ''a'', CStr ''b'', CStr ''c'', CStr ''d'', CStr ''e''] ! i)"
    unfolding l by (auto simp: rc5 missing_dtype_def missing_marker_def missing_cast_def)
  from nth have "cells a ! 3 = CNone" "cells a ! 4 = CNone" "cells a ! 0 = CStr ''a''"
    by simp_all
  with a len dt have one: "\<exists>a. apply_missingness np0 3 ?arr (Some (Fin (2 / 5))) = Inr (a, 8)
       \<and> dtype a = Object \<and> length (cells a) = 5
       \<and> cells a ! 3 = CNone \<and> cells a ! 4 = CNone \<and> cells a ! 0 = CStr ''a''"
    by blast
  have pf: "py_float lib0 (YFloat (Fin (1 / 2))) = Inr (Fin (1 / 2))"
    by (simp add: to_float_half)
  from T [THEN conjunct2, THEN conjunct1, rule_format, OF h2]
  have two: "\<exists>col rs1 rs2. column_values np0 lib0 125 4 ?evo ''note'' = Inr (col, rs1)
         \<and> apply_missingness np0 rs1 col (Some (Fin (1 / 2)))
             = Inr (NdArray Object [CNone, CNone, CStr ''val_2'', CStr ''val_3''], rs2)"
    by (auto simp: dict_get_def to_float_half)
  from T [THEN conjunct2, THEN conjunct2, rule_format, OF h3] obtain ratio where
    pr: "py_float lib0 (YFloat (Fin (1 / 2))) = Inr ratio" and
    rr: "ratio = NaN \<or> (\<exists>q. ratio = Fin q \<and> dbl q = q \<and> 0 \<le> q \<and> q \<le> 1)"
    by blast
  from pr [unfolded pf] have "ratio \<noteq> NaN" by auto
  with rr obtain q where "ratio = Fin q" "dbl q = q" "0 \<le> q" "q \<le> 1" by blast
  with pr have three: "\<exists>q. py_float lib0 (YFloat (Fin (1 / 2))) = Inr (Fin q) \<and> dbl q = q \<and> 0 \<le> q \<and> q \<le> 1"
    by (simp only:) blast
  from one two three show ?thesis by blast
qed

lemma fraud_rate_valid:
  assumes "extract_evolution L cfg = Inr evo" and "fraud_rate evo = Some (Fin q)"
  shows "dbl q = q \<and> 0 \<le> q \<and> q \<le> 1"
proof -
  from assms(1) obtain ec where cfg: "cfg = YDict ec"
    by (cases cfg) (simp_all add: extract_evolution_def)
  from extract_evolution_fraud_rate [OF assms(1) [unfolded cfg]] assms(2)
  have c: "check_fraud_rate L (raw_fraud_rate ec) = Inr (Some (Fin q))" by simp
  then have "py_float L (raw_fraud_rate ec) = Inr (Fin q)"
    by (auto simp: check_fraud_rate_def split: if_splits sum.splits)
  then have "dbl q = q" by (rule py_float_double)
  moreover from check_fraud_rate_range [OF c] have "0 \<le> q \<and> q \<le> 1" by simp
  ultimately show ?thesis by simp
qed

lemma generate_one_fraud_steps:
  assumes "is_fraud_name nm" and "generate_one np L seed rows evo (YStr nm) = Inr (nm', col)"
  shows "\<exists>rate labels rs1. fraud_rate evo = Some rate
           \<and> assign_fraud np (np_RandomState np ((seed + deterministic_col_hash L nm) mod 2 ^ 32)) rows rate
               = Inr (labels, rs1)
           \<and> (dict_get (missingness evo) nm = YNone \<longrightarrow> col = labels)
           \<and> (dict_get (missingness evo) nm \<noteq> YNone \<longrightarrow>
                (\<exists>ratio rs2. py_float L (dict_get (missingness evo) nm) = Inr ratio
                   \<and> apply_missingness np rs1 labels (Some ratio) = Inr (col, rs2)))"
proof -
  from generate_one_steps [OF assms(2)] obtain labels rs1 where
    cv: "column_values np L seed rows evo nm = Inr (labels, rs1)" and
    rest: "dict_get (missingness evo) nm = YNone \<longrightarrow> col = labels"
      "dict_get (missingness evo) nm \<noteq> YNone \<longrightarrow>
         (\<exists>ratio rs2. py_float L (dict_get (missingness evo) nm) = Inr ratio
            \<and> apply_missingness np rs1 labels (Some ratio) = Inr (col, rs2))"
    by blast
  from cv assms(1) obtain rate where "fraud_rate evo = Some rate"
    and "assign_fraud np (np_RandomState np ((seed + deterministic_col_hash L nm) mod 2 ^ 32)) rows rate
               = Inr (labels, rs1)"
    by (cases "fraud_rate evo") (simp_all add: column_values_fraud)
  with rest show ?thesis by blast
qed

text \<open>
  Claim C5, as the source has it. When the schema has a fraud column and no fraud rate
  is resolved, generation fails and writes nothing. For a rate \<open>r\<close> that is in [0, 1] as a
  double and at most \<open>2 ^ 53\<close> rows, the labels are 1 at the first \<open>round(r * rows)\<close>
  indices of the permutation drawn from the column's generator, that many distinct rows,
  and 0 at every other row; the product is the product of doubles. The column that
  \<^verbatim>\<open>generate_dataset\<close> stores is these labels when no missingness is configured for the
  fraud column, and otherwise the labels with the missingness applied to them from the
  same generator. A finite rate that the resolver accepted is a double in [0, 1].
\<close>

theorem fraud_labels_by_rate:
  "(extract_columns (dict_get configs ''schema.yaml'') = Inr columns
      \<and> YStr nm \<in> set columns \<and> is_fraud_name nm
      \<and> (\<forall>evo. extract_evolution L (dict_get configs ''evolution.yaml'') = Inr evo
                 \<longrightarrow> fraud_rate evo = None)
    \<longrightarrow> (\<exists>e. generate_dataset np L W dataset_dir configs run_dir d = (Inl e, d)))
   \<and> (rs_permutation np rs rows = (perm, rs') \<and> is_permutation perm rows
        \<and> 0 \<le> dbl r \<and> dbl r \<le> 1 \<and> rows \<le> 2 ^ 53
    \<longrightarrow> (\<exists>fraud. assign_fraud np rs rows (Fin r) = Inr (fraud, rs')
           \<and> dtype fraud = Int8 \<and> length (cells fraud) = rows
           \<and> (\<forall>i < rows. cells fraud ! i
                 = (if i \<in> set (take (round_count r rows) perm) then CInt 1 else CInt 0))
           \<and> card (set (take (round_count r rows) perm)) = round_count r rows
           \<and> length (filter (\<lambda>c. c = CInt 1) (cells fraud)) = round_count r rows))
   \<and> (is_fraud_name fnm \<and> generate_one np L seed n evo' (YStr fnm) = Inr (fnm', col)
    \<longrightarrow> (\<exists>rate labels rs1. fraud_rate evo' = Some rate
           \<and> assign_fraud np (np_RandomState np ((seed + deterministic_col_hash L fnm) mod 2 ^ 32)) n rate
               = Inr (labels, rs1)
           \<and> (dict_get (missingness evo') fnm = YNone \<longrightarrow> col = labels)
           \<and> (dict_get (missingness evo') fnm \<noteq> YNone \<longrightarrow>
                (\<exists>ratio rs2. py_float L (dict_get (missingness evo') fnm) = Inr ratio
                   \<and> apply_missingness np rs1 labels (Some ratio) = Inr (col, rs2)))))
   \<and> (extract_evolution L cfg = Inr evo_c \<and> fraud_rate evo_c = Some (Fin q)
    \<longrightarrow> dbl q = q \<and> 0 \<le> q \<and> q \<le> 1)"
proof (intro conjI impI)
  assume a: "extract_columns (dict_get configs ''schema.yaml'') = Inr columns
      \<and> YStr nm \<in> set columns \<and> is_fraud_name nm
      \<and> (\<forall>evo. extract_evolution L (dict_get configs ''evolution.yaml'') = Inr evo
                 \<longrightarrow> fraud_rate evo = None)"
  have no: "generate_dataset_table np L dataset_dir configs run_dir \<noteq> Inr df" for df
  proof
    assume "generate_dataset_table np L dataset_dir configs run_dir = Inr df"
    from generate_dataset_table_Inr [OF this] a
    obtain rows' evo data where
      ev: "extract_evolution L (dict_get configs ''evolution.yaml'') = Inr evo" and
      lp: "generate_loop np L (derive_seed L dataset_dir run_dir) (nat rows') evo columns [] = Inr data"
      by auto
    from a ev have "fraud_rate evo = None" by blast
    with a have "generate_one np L (derive_seed L dataset_dir run_dir) (nat rows') evo (YStr nm) = Inl KeyError"
      by (simp add: generate_one_fraud_no_rate)
    from generate_loop_fails [OF _ this, of columns "[]"] a lp show False by simp
  qed
  then obtain e where "generate_dataset_table np L dataset_dir configs run_dir = Inl e"
    by (cases "generate_dataset_table np L dataset_dir configs run_dir") auto
  then show "\<exists>e. generate_dataset np L W dataset_dir configs run_dir d = (Inl e, d)"
    by (simp add: generate_dataset_def)
next
  assume "rs_permutation np rs rows = (perm, rs') \<and> is_permutation perm rows
        \<and> 0 \<le> dbl r \<and> dbl r \<le> 1 \<and> rows \<le> 2 ^ 53"
  then show "\<exists>fraud. assign_fraud np rs rows (Fin r) = Inr (fraud, rs')
           \<and> dtype fraud = Int8 \<and> length (cells fraud) = rows
           \<and> (\<forall>i < rows. cells fraud ! i
                 = (if i \<in> set (take (round_count r rows) perm) then CInt 1 else CInt 0))
           \<and> card (set (take (round_count r rows) perm)) = round_count r rows
           \<and> length (filter (\<lambda>c. c = CInt 1) (cells fraud)) = round_count r rows"
    using assign_fraud_labels [of np rs rows perm rs' r] by blast
next
  assume "is_fraud_name fnm \<and> generate_one np L seed n evo' (YStr fnm) = Inr (fnm', col)"
  then show "\<exists>rate labels rs1. fraud_rate evo' = Some rate
           \<and> assign_fraud np (np_RandomState np ((seed + deterministic_col_hash L fnm) mod 2 ^ 32)) n rate
               = Inr (labels, rs1)
           \<and> (dict_get (missingness evo') fnm = YNone \<longrightarrow> col = labels)
           \<and> (dict_get (missingness evo') fnm \<noteq> YNone \<longrightarrow>
                (\<exists>ratio rs2. py_float L (dict_get (missingness evo') fnm) = Inr ratio
                   \<and> apply_missingness np rs1 labels (Some ratio) = Inr (col, rs2)))"
    using generate_one_fraud_steps [of fnm np L seed n evo' fnm' col] by blast
next
  assume "extract_evolution L cfg = Inr evo_c \<and> fraud_rate evo_c = Some (Fin q)"
  then show "dbl q = q" "0 \<le> q" "q \<le> 1"
    using fraud_rate_valid [of L cfg evo_c q] by simp_all
qed

text \<open>The generator on \<open>cfg_fraud_missing\<close>: four rows of a fraud column at the rate 0.5
  with the missingness ratio 0.5.\<close>

lemma evolution_fraud_missing:
  "extract_evolution lib0 (dict_get cfg_fraud_missing ''evolution.yaml'')
     = Inr \<lparr>fraud_rate = Some (Fin (1 / 2)), missingness = [(''is_fraud'', YFloat (Fin (1 / 2)))]\<rparr>"
  by (simp add: cfg_fraud_missing_def extract_evolution_def dict_get_def dict_has_def
      raw_fraud_rate_def check_fraud_rate_def to_float_half)

lemma missing_is_fraud:
  "apply_missingness np0 137 (NdArray Int8 [CInt 1, CInt 0, CInt 0, CInt 1]) (Some (Fin (1 / 2)))
     = Inr (NdArray Float64 [CFloat (Fin 1), CFloat (Fin 0), CFloat NaN, CFloat NaN], 141)"
  by code_simp

lemma is_fraud_missing:
  "generate_one np0 lib0 125 4
       \<lparr>fraud_rate = Some (Fin (1 / 2)), missingness = [(''is_fraud'', YFloat (Fin (1 / 2)))]\<rparr>
       (YStr ''is_fraud'')
     = Inr (''is_fraud'', NdArray Float64 [CFloat (Fin 1), CFloat (Fin 0), CFloat NaN, CFloat NaN])"
  by (simp add: generate_one_def column_values_def col_hash_bank np0_RandomState values_is_fraud
        labels_is_fraud missing_is_fraud fraud_names_bank dict_get_def to_float_half)

lemma rc4: "round_count (1 / 2) 4 = 2"
  by code_simp

text \<open>
  Claim C5 as stated fails for the stored column: with a missingness ratio configured for
  the fraud column itself, the labels are cast to float and half of them overwritten
  with NaN, so that of the \<open>round(0.5 * 4) = 2\<close> positive rows one is left, and two rows
  are neither positive nor negative.
\<close>

theorem missingness_overwrites_labels:
  "generate_dataset_table np0 lib0 ''datasets/bank'' cfg_fraud_missing ''runs/bank/v1''
     = Inr (DataFrame 4
         [(''is_fraud'', NdArray Float64 [CFloat (Fin 1), CFloat (Fin 0), CFloat NaN, CFloat NaN])])
   \<and> round_count (1 / 2) 4 = 2"
proof -
  have rq: "require_configs cfg_fraud_missing = Inr ()"
    by (simp add: require_configs_def cfg_fraud_missing_def dict_has_def dict_get_def)
  have cols: "extract_columns (dict_get cfg_fraud_missing ''schema.yaml'') = Inr [YStr ''is_fraud'']"
    by (simp add: cfg_fraud_missing_def extract_columns_def dict_get_def dict_has_def)
  have rows: "extract_row_count lib0 (dict_get cfg_fraud_missing ''dataset.yaml'') = Inr 4"
    by (simp add: cfg_fraud_missing_def extract_row_count_def dict_get_def)
  have "generate_dataset_table np0 lib0 ''datasets/bank'' cfg_fraud_missing ''runs/bank/v1''
     = Inr (DataFrame 4
         [(''is_fraud'', NdArray Float64 [CFloat (Fin 1), CFloat (Fin 0), CFloat NaN, CFloat NaN])])"
    unfolding generate_dataset_table_def
    by (simp add: rq cols rows evolution_fraud_missing seed_bank is_fraud_missing pd_DataFrame_def
          as_series_def)
  with rc4 show ?thesis by simp
qed

lemma perm10: "rs_permutation np0 3 10 = ([3, 4, 5, 6, 7, 8, 9, 0, 1, 2], 13)"
  by code_simp

lemma isperm10: "is_permutation [3, 4, 5, 6, 7, 8, 9, 0, 1, 2] 10"
  by code_simp

lemma ratio_1_5: "0 \<le> dbl (1 / 5) \<and> dbl (1 / 5) \<le> 1"
  by code_simp

lemma rc10: "round_count (1 / 5) 10 = 2"
  by code_simp

text \<open>
  The theorem at a schema with \<open>Is_Fraud\<close> and no rate; at ten rows with the rate 0.2,
  two rows labelled; and at the fraud column of \<open>cfg_fraud_missing\<close>, whose rate 0.5 the
  resolver accepted.
\<close>

theorem fraud_labels_by_rate_witness:
  "(\<exists>e. generate_dataset np0 lib0 writer0 ''datasets/bank'' cfg_fraud_no_rate ''runs/bank/v1'' Map.empty
          = (Inl e, Map.empty))
   \<and> (\<exists>fraud. assign_fraud np0 3 10 (Fin (1 / 5)) = Inr (fraud, 13)
         \<and> length (cells fraud) = 10
         \<and> cells fraud ! 3 = CInt 1 \<and> cells fraud ! 4 = CInt 1 \<and> cells fraud ! 5 = CInt 0
         \<and> length (filter (\<lambda>c. c = CInt 1) (cells fraud)) = 2)
   \<and> (\<exists>labels rs1 rs2.
         assign_fraud np0 (np_RandomState np0 ((125 + deterministic_col_hash lib0 ''is_fraud'') mod 2 ^ 32))
             4 (Fin (1 / 2)) = Inr (labels, rs1)
         \<and> apply_missingness np0 rs1 labels (Some (Fin (1 / 2)))
             = Inr (NdArray Float64 [CFloat (Fin 1), CFloat (Fin 0), CFloat NaN, CFloat NaN], rs2))
   \<and> dbl (1 / 2) = 1 / 2"
proof -
  let ?evo = "\<lparr>fraud_rate = Some (Fin (1 / 2)), missingness = [(''is_fraud'', YFloat (Fin (1 / 2)))]\<rparr>"
  let ?col = "NdArray Float64 [CFloat (Fin 1), CFloat (Fin 0), CFloat NaN, CFloat NaN]"
  have cols: "extract_columns (dict_get cfg_fraud_no_rate ''schema.yaml'')
      = Inr [YStr ''id'', YStr ''Is_Fraud'']"
    by (simp add: cfg_fraud_no_rate_def extract_columns_def dict_get_def dict_has_def)
  have fr: "is_fraud_name ''Is_Fraud''"
    by code_simp
  have "extract_evolution lib0 (dict_get cfg_fraud_no_rate ''evolution.yaml'')
      = Inr \<lparr>fraud_rate = None, missingness = []\<rparr>"
    by (simp add: cfg_fraud_no_rate_def extract_evolution_def raw_fraud_rate_def
          check_fraud_rate_def dict_get_def dict_has_def)
  then have h1: "extract_columns (dict_get cfg_fraud_no_rate ''schema.yaml'')
        = Inr [YStr ''id'', YStr ''Is_Fraud'']
      \<and> YStr ''Is_Fraud'' \<in> set [YStr ''id'', YStr ''Is_Fraud''] \<and> is_fraud_name ''Is_Fraud''
      \<and> (\<forall>evo. extract_evolution lib0 (dict_get cfg_fraud_no_rate ''evolution.yaml'') = Inr evo
                 \<longrightarrow> fraud_rate evo = None)"
    using cols fr by auto
  have h2: "rs_permutation np0 3 10 = ([3, 4, 5, 6, 7, 8, 9, 0, 1, 2], 13)
      \<and> is_permutation [3, 4, 5, 6, 7, 8, 9, 0, 1, 2] 10 \<and> 0 \<le> dbl (1 / 5) \<and> dbl (1 / 5) \<le> 1
      \<and> (10::nat) \<le> 2 ^ 53"
    using ratio_1_5 by (intro conjI perm10 isperm10) simp_all
  have h3: "is_fraud_name ''is_fraud''
      \<and> generate_one np0 lib0 125 4 ?evo (YStr ''is_fraud'') = Inr (''is_fraud'', ?col)"
    by (simp add: fraud_names_bank is_fraud_missing)
  have h4: "extract_evolution lib0 (dict_get cfg_fraud_missing ''evolution.yaml'') = Inr ?evo
      \<and> fraud_rate ?evo = Some (Fin (1 / 2))"
    by (simp add: evolution_fraud_missing)
  note T = fraud_labels_by_rate [where np = np0 and L = lib0 and W = writer0
      and configs = cfg_fraud_no_rate and columns = "[YStr ''id'', YStr ''Is_Fraud'']"
      and nm = "''Is_Fraud''" and dataset_dir = "''datasets/bank''" and run_dir = "''runs/bank/v1''"
      and d = Map.empty and rs = "3::nat" and rows = 10 and perm = "[3, 4, 5, 6, 7, 8, 9, 0, 1, 2]"
      and rs' = 13 and r = "1 / 5" and fnm = "''is_fraud''" and seed = 125 and n = 4
      and evo' = ?evo and fnm' = "''is_fraud''" and col = ?col
      and cfg = "dict_get cfg_fraud_missing ''evolution.yaml''" and evo_c = ?evo and q = "1 / 2"]
  have a: "\<exists>e. generate_dataset np0 lib0 writer0 ''datasets/bank'' cfg_fraud_no_rate
      ''runs/bank/v1'' Map.empty = (Inl e, Map.empty)"
    by (rule T [THEN conjunct1, rule_format, OF h1])
  from T [THEN conjunct2, THEN conjunct1, rule_format, OF h2] obtain fraud where
    f: "assign_fraud np0 3 10 (Fin (1 / 5)) = Inr (fraud, 13)" and len: "length (cells fraud) = 10" and
    nth: "\<forall>i < 10. cells fraud ! i = (if i \<in> {3, 4} then CInt 1 else CInt 0)" and
    cnt: "length (filter (\<lambda>c. c = CInt 1) (cells fraud)) = 2"
    by (auto simp: rc10)
  from nth have "cells fraud ! 3 = CInt 1" "cells fraud ! 4 = CInt 1" "cells fraud ! 5 = CInt 0"
    by simp_all
  with f len cnt have b: "\<exists>fraud. assign_fraud np0 3 10 (Fin (1 / 5)) = Inr (fraud, 13)
         \<and> length (cells fraud) = 10
         \<and> cells fraud ! 3 = CInt 1 \<and> cells fraud ! 4 = CInt 1 \<and> cells fraud ! 5 = CInt 0
         \<and> length (filter (\<lambda>c. c = CInt 1) (cells fraud)) = 2"
    by blast
  have pf: "py_float lib0 (YFloat (Fin (1 / 2))) = Inr (Fin (1 / 2))"
    by (simp add: to_float_half)
  have ne: "dict_get (missingness ?evo) ''is_fraud'' \<noteq> YNone"
    by (simp add: dict_get_def)
  from T [THEN conjunct2, THEN conjunct2, THEN conjunct1, rule_format, OF h3] obtain rate labels rs1 where
    rt: "fraud_rate ?evo = Some rate" and
    lb: "assign_fraud np0 (np_RandomState np0 ((125 + deterministic_col_hash lib0 ''is_fraud'') mod 2 ^ 32))
             4 rate = Inr (labels, rs1)" and
    ms: "dict_get (missingness ?evo) ''is_fraud'' \<noteq> YNone \<longrightarrow>
           (\<exists>ratio rs2. py_float lib0 (dict_get (missingness ?evo) ''is_fraud'') = Inr ratio
              \<and> apply_missingness np0 rs1 labels (Some ratio) = Inr (?col, rs2))"
    by blast
  from rt have rate: "rate = Fin (1 / 2)" by simp
  from ms ne obtain ratio rs2 where
    "py_float lib0 (dict_get (missingness ?evo) ''is_fraud'') = Inr ratio"
    "apply_missingness np0 rs1 labels (Some ratio) = Inr (?col, rs2)"
    by blast
  then have "apply_missingness np0 rs1 labels (Some (Fin (1 / 2))) = Inr (?col, rs2)"
    by (simp add: dict_get_def to_float_half)
  with lb rate have c: "\<exists>labels rs1 rs2.
         assign_fraud np0 (np_RandomState np0 ((125 + deterministic_col_hash lib0 ''is_fraud'') mod 2 ^ 32))
             4 (Fin (1 / 2)) = Inr (labels, rs1)
         \<and> apply_missingness np0 rs1 labels (Some (Fin (1 / 2))) = Inr (?col, rs2)"
    by blast
  from T [THEN conjunct2, THEN conjunct2, THEN conjunct2, rule_format, OF h4]
  have d: "dbl (1 / 2) = (1 / 2 :: rat)" by blast
  from a b c d show ?thesis by blast
qed

section \<open>Evaluation without a prior profile\<close>


















end
